(* ===== verification/Xhal_Prelude.thy ===== *)
theory Xhal_Prelude
  imports Main "HOL-Library.Word"
begin

text \<open>
  Shared vocabulary of the development: the machine integer types of the C++ sources, the
  decimal rendering done by \<^verbatim>\<open>std::to_string\<close>, shifts with the C++ rule that a shift by the
  width or more is undefined, and the generic list lemmas the components use.

  Named collections:
  \<^item> \<open>safe_intros\<close>: introduction rules of the safety judgement of \<open>Cxx_Exec\<close>;
  \<^item> \<open>stmt_simps\<close>: the equations of the statement combinators and the message statements,
    used for symbolic execution.
\<close>

named_theorems safe_intros
named_theorems stmt_simps

unbundle bit_operations_syntax

type_synonym u8 = "8 word"
type_synonym u16 = "16 word"
type_synonym u32 = "32 word"
type_synonym u64 = "64 word"

section \<open>Decimal rendering (\<^verbatim>\<open>std::to_string\<close> on unsigned values)\<close>

definition digit_char :: "nat \<Rightarrow> char" where
  "digit_char n = char_of (48 + n)"

fun to_string :: "nat \<Rightarrow> string" where
  "to_string n =
     (if n < 10 then [digit_char n] else to_string (n div 10) @ [digit_char (n mod 10)])"

declare to_string.simps [simp del]

definition digit_val :: "char \<Rightarrow> nat" where
  "digit_val c = of_char c - 48"

definition is_digit :: "char \<Rightarrow> bool" where
  "is_digit c \<longleftrightarrow> 48 \<le> (of_char c :: nat) \<and> (of_char c :: nat) \<le> 57"

fun dec_value :: "string \<Rightarrow> nat" where
  "dec_value [] = 0"
| "dec_value (c # cs) = digit_val c * 10 ^ length cs + dec_value cs"

lemma digit_val_digit_char [simp]: "n < 10 \<Longrightarrow> digit_val (digit_char n) = n"
  by (simp add: digit_val_def digit_char_def)

lemma is_digit_digit_char [simp]: "n < 10 \<Longrightarrow> is_digit (digit_char n)"
  by (simp add: is_digit_def digit_char_def)

lemma dec_value_append: "dec_value (xs @ ys) = dec_value xs * 10 ^ length ys + dec_value ys"
  by (induction xs) (simp_all add: power_add algebra_simps)

text \<open>Reading back a rendered number gives the number, so the rendering is injective.\<close>

lemma dec_value_to_string [simp]: "dec_value (to_string n) = n"
proof (induction n rule: to_string.induct)
  case (1 n)
  then show ?case
    by (cases "n < 10") (simp_all add: to_string.simps [of n] dec_value_append)
qed

lemma to_string_inject [simp]: "to_string m = to_string n \<longleftrightarrow> m = n"
  by (metis dec_value_to_string)

lemma to_string_digits: "c \<in> set (to_string n) \<Longrightarrow> is_digit c"
proof (induction n rule: to_string.induct)
  case (1 n)
  then show ?case
    by (cases "n < 10") (auto simp: to_string.simps [of n])
qed

lemma to_string_nonempty [simp]: "to_string n \<noteq> []"
  by (subst to_string.simps) simp

lemma to_string_no_dot [simp]: "CHR ''.'' \<notin> set (to_string n)"
  using to_string_digits [of "CHR ''.''" n] by (auto simp: is_digit_def)

text \<open>
  Two rendered numbers followed by a dot and anything else agree only if the numbers do: this
  is what keeps the per-link keys \<^verbatim>\<open>OH<n>.<name>\<close> of the monitoring replies apart.
\<close>

lemma append_sep_inject:
  assumes "c \<notin> set xs" and "c \<notin> set ys"
  shows "xs @ c # us = ys @ c # vs \<longleftrightarrow> xs = ys \<and> us = vs"
  using assms
proof (induction xs arbitrary: ys)
  case Nil
  then show ?case by (cases ys) auto
next
  case (Cons x xs)
  then show ?case by (cases ys) auto
qed

lemma to_string_dot_inject [simp]:
  "to_string m @ CHR ''.'' # us = to_string n @ CHR ''.'' # vs \<longleftrightarrow> m = n \<and> us = vs"
  by (simp add: append_sep_inject)

section \<open>Shifts of 32-bit values\<close>

text \<open>
  In C++ a shift of a 32-bit operand by 32 or more is undefined behaviour; \<open>None\<close> stands for it.
\<close>

definition shl32 :: "u32 \<Rightarrow> nat \<Rightarrow> u32 option" where
  "shl32 x n = (if n < 32 then Some (push_bit n x) else None)"

definition shr32 :: "u32 \<Rightarrow> nat \<Rightarrow> u32 option" where
  "shr32 x n = (if n < 32 then Some (drop_bit n x) else None)"

text \<open>\<^verbatim>\<open>(mask >> i) & 0x1\<close> used as a truth value.\<close>

definition bit_set :: "u32 \<Rightarrow> nat \<Rightarrow> bool option" where
  "bit_set m i = map_option (\<lambda>x. x AND 1 \<noteq> 0) (shr32 m i)"

lemma and_one_neq_0_iff: "(x :: 'a::len word) AND 1 \<noteq> 0 \<longleftrightarrow> bit x 0"
  by (simp add: and_one_eq mod_2_eq_odd bit_0)

lemma bit_set_bit: "i < 32 \<Longrightarrow> bit_set m i = Some (bit m i)"
  by (simp add: bit_set_def shr32_def and_one_neq_0_iff bit_drop_bit_eq)

lemma bit_set_None_iff: "bit_set m i = None \<longleftrightarrow> 32 \<le> i"
  by (auto simp: bit_set_def shr32_def)

text \<open>Unsigned division; a zero divisor is undefined behaviour.\<close>

definition div32 :: "u32 \<Rightarrow> u32 \<Rightarrow> u32 option" where
  "div32 a b = (if b = 0 then None else Some (a div b))"

definition mod32 :: "u32 \<Rightarrow> u32 \<Rightarrow> u32 option" where
  "mod32 a b = (if b = 0 then None else Some (a mod b))"

section \<open>Groups of four bits\<close>

text \<open>The groups of four bits of a 32-bit value.\<close>

definition nib :: "nat \<Rightarrow> nat \<Rightarrow> nat" where
  "nib x i = x div 16 ^ i mod 16"

lemma nib_split:
  assumes "x < 2 ^ 32"
  shows "x = nib x 0 + 16 * (nib x 1 + 16 * (nib x 2 + 16 * (nib x 3 + 16 * (nib x 4 + 16 * (nib x 5
    + 16 * (nib x 6 + 16 * (nib x 7 + 16 * 0)))))))"
proof -
  have s: "x div 16 ^ i = nib x i + 16 * (x div 16 ^ Suc i)" for i
    unfolding nib_def power_Suc2 div_mult2_eq by simp
  have "x div 16 ^ 8 = 0" using assms by simp
  then show ?thesis
    using s [of 0] s [of 1] s [of 2] s [of 3] s [of 4] s [of 5] s [of 6] s [of 7]
    by simp
qed

lemma nib_less: "nib x i < 16" by (simp add: nib_def)

section \<open>Lists\<close>

text \<open>\<^verbatim>\<open>memcpy\<close>-like overwrite of a list from an offset; the caller checks the bounds.\<close>

definition overwrite :: "'a list \<Rightarrow> nat \<Rightarrow> 'a list \<Rightarrow> 'a list" where
  "overwrite xs off ys = take off xs @ ys @ drop (off + length ys) xs"

lemma length_overwrite [simp]:
  "off + length ys \<le> length xs \<Longrightarrow> length (overwrite xs off ys) = length xs"
  by (simp add: overwrite_def)

lemma nth_overwrite_in:
  "off + length ys \<le> length xs \<Longrightarrow> i < length ys \<Longrightarrow> overwrite xs off ys ! (off + i) = ys ! i"
  by (simp add: overwrite_def nth_append)

lemma nth_overwrite_out:
  assumes "off + length ys \<le> length xs" and "i < length xs" and "i < off \<or> off + length ys \<le> i"
  shows "overwrite xs off ys ! i = xs ! i"
  using assms by (auto simp: overwrite_def nth_append min_def)

lemma take_drop_overwrite [simp]:
  "off + length ys \<le> length xs \<Longrightarrow> take (length ys) (drop off (overwrite xs off ys)) = ys"
  by (simp add: overwrite_def)

end
