(* ===== verification/Cxx_Exec.thy ===== *)
theory Cxx_Exec
  imports Xhal_Prelude
begin

text \<open>
  Statements of the C++ sources as state transformers with the exits a C++ function body has:
  falling through to the next statement, \<^verbatim>\<open>return\<close>, \<^verbatim>\<open>throw\<close>, \<^verbatim>\<open>abort()\<close>, and undefined
  behaviour. A body is a list of statements run by \<open>block\<close>, so a definition reads like the code
  it models. \<open>safe I c\<close> says that \<open>c\<close> has no undefined behaviour from a state with \<open>I\<close> and that
  every way of leaving \<open>c\<close> keeps \<open>I\<close>; its rules are collected in \<open>safe_intros\<close>.
\<close>

section \<open>Ways to leave a statement\<close>

datatype ('e, 'r, 's) ctl =
    Next 's
  | Return 'r 's
  | Throw 'e 's
  | Aborted 's
  | Undefined

type_synonym ('e, 'r, 's) stmt = "'s \<Rightarrow> ('e, 'r, 's) ctl"

fun ctl_state :: "('e, 'r, 's) ctl \<Rightarrow> 's option" where
  "ctl_state (Next s) = Some s"
| "ctl_state (Return r s) = Some s"
| "ctl_state (Throw e s) = Some s"
| "ctl_state (Aborted s) = Some s"
| "ctl_state Undefined = None"

section \<open>Combinators\<close>

fun block :: "('e, 'r, 's) stmt list \<Rightarrow> ('e, 'r, 's) stmt" where
  "block [] s = Next s"
| "block (c # cs) s = (case c s of Next t \<Rightarrow> block cs t | r \<Rightarrow> r)"

definition IF :: "('s \<Rightarrow> bool) \<Rightarrow> ('e, 'r, 's) stmt \<Rightarrow> ('e, 'r, 's) stmt \<Rightarrow> ('e, 'r, 's) stmt" where
  "IF b c d s = (if b s then c s else d s)"

text \<open>A condition whose evaluation may itself be undefined (an over-long shift).\<close>

definition IF_opt :: "bool option \<Rightarrow> ('e, 'r, 's) stmt \<Rightarrow> ('e, 'r, 's) stmt \<Rightarrow> ('e, 'r, 's) stmt" where
  "IF_opt b c d s = (case b of None \<Rightarrow> Undefined | Some True \<Rightarrow> c s | Some False \<Rightarrow> d s)"

definition RETURN :: "'r \<Rightarrow> ('e, 'r, 's) stmt" where
  "RETURN r s = Return r s"

definition SKIP :: "('e, 'r, 's) stmt" where
  "SKIP s = Next s"

definition UPD :: "('s \<Rightarrow> 's) \<Rightarrow> ('e, 'r, 's) stmt" where
  "UPD f s = Next (f s)"

text \<open>\<^verbatim>\<open>for (i = 0; i < n; ++i) body(i)\<close>; a \<^verbatim>\<open>continue\<close> in the body is \<open>SKIP\<close> in its branch.\<close>

definition FOR :: "nat \<Rightarrow> (nat \<Rightarrow> ('e, 'r, 's) stmt) \<Rightarrow> ('e, 'r, 's) stmt" where
  "FOR n body = block (map body [0..<n])"

text \<open>
  \<^verbatim>\<open>try { c } catch ...\<close>: the handler list is a partial function of the exception, with the
  order of the \<^verbatim>\<open>catch\<close> clauses folded into it.
\<close>

definition TRY :: "('e, 'r, 's) stmt \<Rightarrow> ('e \<Rightarrow> ('e, 'r, 's) stmt option) \<Rightarrow> ('e, 'r, 's) stmt" where
  "TRY c h s = (case c s of
      Throw e t \<Rightarrow> (case h e of Some d \<Rightarrow> d t | None \<Rightarrow> Throw e t)
    | r \<Rightarrow> r)"

text \<open>A local constant whose initialiser may be undefined (a division by zero, a wild index).\<close>

definition LET_opt :: "'a option \<Rightarrow> ('a \<Rightarrow> ('e, 'r, 's) stmt) \<Rightarrow> ('e, 'r, 's) stmt" where
  "LET_opt x f s = (case x of None \<Rightarrow> Undefined | Some v \<Rightarrow> f v s)"

lemma LET_opt_Some: "LET_opt (Some v) f = f v"
  by (simp add: LET_opt_def fun_eq_iff)

lemmas [stmt_simps] = block.simps IF_def IF_opt_def RETURN_def SKIP_def UPD_def TRY_def LET_opt_def

lemma block_append [stmt_simps]:
  "block (cs @ ds) s = (case block cs s of Next t \<Rightarrow> block ds t | r \<Rightarrow> r)"
  by (induction cs arbitrary: s) (auto split: ctl.splits)

lemma FOR_0 [simp]: "FOR 0 body s = Next s"
  by (simp add: FOR_def)

lemma FOR_Suc:
  "FOR (Suc n) body s = (case FOR n body s of Next t \<Rightarrow> body n t | r \<Rightarrow> r)"
  by (auto simp: FOR_def block_append split: ctl.splits)

text \<open>
  The loop rule used for functional results: an indexed invariant that every iteration of the
  loop carries one step further.
\<close>

lemma FOR_Next:
  assumes "J 0 s"
    and "\<And>i t. i < n \<Longrightarrow> J i t \<Longrightarrow> \<exists>u. body i t = Next u \<and> J (Suc i) u"
  shows "\<exists>u. FOR n body s = Next u \<and> J n u"
  using assms(2)
proof (induction n)
  case 0
  then show ?case using assms(1) by simp
next
  case (Suc n)
  then obtain t where t: "FOR n body s = Next t" "J n t" by fastforce
  moreover obtain u where "body n t = Next u" "J (Suc n) u"
    using Suc.prems [of n t] t(2) by auto
  ultimately show ?case by (simp add: FOR_Suc)
qed

section \<open>Safety\<close>

definition safe :: "('s \<Rightarrow> bool) \<Rightarrow> ('e, 'r, 's) stmt \<Rightarrow> bool" where
  "safe I c \<longleftrightarrow> (\<forall>s. I s \<longrightarrow> (\<exists>t. ctl_state (c s) = Some t \<and> I t))"

lemma safeI: "(\<And>s. I s \<Longrightarrow> \<exists>t. ctl_state (c s) = Some t \<and> I t) \<Longrightarrow> safe I c"
  by (simp add: safe_def)

lemma safeD: "safe I c \<Longrightarrow> I s \<Longrightarrow> \<exists>t. ctl_state (c s) = Some t \<and> I t"
  by (simp add: safe_def)

lemma safe_not_Undefined: "safe I c \<Longrightarrow> I s \<Longrightarrow> c s \<noteq> Undefined"
  by (fastforce simp: safe_def)

lemma safe_Nil [safe_intros]: "safe I (block [])"
  by (simp add: safe_def)

lemma safe_Cons [safe_intros]:
  assumes "safe I c" and "safe I (block cs)"
  shows "safe I (block (c # cs))"
proof (rule safeI)
  fix s assume "I s"
  then obtain t where "ctl_state (c s) = Some t" "I t"
    using assms(1) by (blast dest: safeD)
  then show "\<exists>t. ctl_state (block (c # cs) s) = Some t \<and> I t"
    using assms(2) by (cases "c s") (auto dest: safeD)
qed

lemma safe_block: "(\<And>c. c \<in> set cs \<Longrightarrow> safe I c) \<Longrightarrow> safe I (block cs)"
  by (induction cs) (auto intro: safe_intros)

lemma safe_FOR [safe_intros]: "(\<And>i. i < n \<Longrightarrow> safe I (body i)) \<Longrightarrow> safe I (FOR n body)"
  unfolding FOR_def by (rule safe_block) auto

lemma safe_IF [safe_intros]: "safe I c \<Longrightarrow> safe I d \<Longrightarrow> safe I (IF b c d)"
  by (simp add: safe_def IF_def)

lemma safe_if [safe_intros]:
  "(b \<Longrightarrow> safe I c) \<Longrightarrow> (\<not> b \<Longrightarrow> safe I d) \<Longrightarrow> safe I (if b then c else d)"
  by simp

lemma safe_IF_opt [safe_intros]:
  "b \<noteq> None \<Longrightarrow> (b = Some True \<Longrightarrow> safe I c) \<Longrightarrow> (b = Some False \<Longrightarrow> safe I d) \<Longrightarrow> safe I (IF_opt b c d)"
  by (auto simp: safe_def IF_opt_def split: option.splits bool.splits)

lemma safe_LET_opt [safe_intros]:
  "x \<noteq> None \<Longrightarrow> (\<And>v. x = Some v \<Longrightarrow> safe I (f v)) \<Longrightarrow> safe I (LET_opt x f)"
  by (auto simp: safe_def LET_opt_def split: option.splits)

lemma safe_RETURN [safe_intros]: "safe I (RETURN r)"
  by (simp add: safe_def RETURN_def)

lemma safe_SKIP [safe_intros]: "safe I SKIP"
  by (simp add: safe_def SKIP_def)

lemma safe_UPD [safe_intros]: "(\<And>s. I s \<Longrightarrow> I (f s)) \<Longrightarrow> safe I (UPD f)"
  by (simp add: safe_def UPD_def)

lemma safe_TRY:
  assumes "safe I c" and "\<And>e d. h e = Some d \<Longrightarrow> safe I d"
  shows "safe I (TRY c h)"
proof (rule safeI)
  fix s assume "I s"
  then obtain t where "ctl_state (c s) = Some t" "I t"
    using assms(1) by (blast dest: safeD)
  then show "\<exists>t. ctl_state (TRY c h s) = Some t \<and> I t"
    using assms(2) by (cases "c s") (auto simp: TRY_def dest: safeD split: option.splits)
qed

end
