(* ===== verification/Rpc_Msg.thy ===== *)
theory Rpc_Msg
  imports Cxx_Exec
begin

text \<open>
  The RPC library that the client code links against: \<^verbatim>\<open>wisc::RPCMsg\<close>
  (\<^verbatim>\<open>xhalcore/include/xhal/rpc/wiscRPCMsg.h\<close>) and \<^verbatim>\<open>wisc::RPCSvc\<close>
  (\<^verbatim>\<open>xhalcore/include/xhal/rpc/wiscrpcsvc.h\<close>). Only the headers are in the repository, so the
  member functions are a parameter: a record \<open>rpc_lib\<close> with one field per member function the
  clients call. What the headers do define is modelled here: the exception classes and their
  hierarchy, and the body of the \<^verbatim>\<open>BadKeyException\<close> constructor.

  The second part holds what \<^verbatim>\<open>xhalcore/include/xhal/rpc/utils.h\<close> gives every client function:
  the static \<^verbatim>\<open>rpc\<close>, \<^verbatim>\<open>req\<close> and \<^verbatim>\<open>rsp\<close> objects, \<^verbatim>\<open>STANDARD_CATCH\<close> and \<^verbatim>\<open>ASSERT\<close>, together with
  the caller's memory, which the functions write their results to. Text printed to the standard
  output is not modelled, but the message accesses made to print it are, since they can throw.
\<close>

section \<open>Exceptions\<close>

datatype cxx_exn =
    RPCException string
  | NotConnectedException string
  | ConnectionFailedException string
  | RPCErrorException string
  | BadKeyException string
  | TypeException
  | BufferTooSmallException
  | CorruptMessageException string
  | XhalException string

text \<open>The classes of \<^verbatim>\<open>wisc::RPCSvc\<close> derived from \<^verbatim>\<open>RPCException\<close>.\<close>

fun is_RPCException :: "cxx_exn \<Rightarrow> bool" where
  "is_RPCException (RPCException m) = True"
| "is_RPCException (NotConnectedException m) = True"
| "is_RPCException (ConnectionFailedException m) = True"
| "is_RPCException (RPCErrorException m) = True"
| "is_RPCException _ = False"

text \<open>
  Raising an exception constructs it first. The constructor of \<^verbatim>\<open>BadKeyException\<close> calls
  \<^verbatim>\<open>abort()\<close>, so raising it ends the process; the other constructors only store their argument.
\<close>

fun raise :: "cxx_exn \<Rightarrow> (cxx_exn, 'r, 's) stmt" where
  "raise (BadKeyException k) s = Aborted s"
| "raise e s = Throw e s"

lemma ctl_state_raise [simp]: "ctl_state (raise e s) = Some s"
  by (cases e) simp_all

lemma raise_not_Next [simp]: "raise e s \<noteq> Next t"
  by (cases e) simp_all

lemma raise_RPCException [simp]: "is_RPCException e \<Longrightarrow> raise e s = Throw e s"
  by (cases e) simp_all

section \<open>The library as a parameter\<close>

record ('m, 's) rpc_lib =
  RPCMsg_new :: "string \<Rightarrow> 'm"
  RPCMsg_get_key_exists :: "'m \<Rightarrow> string \<Rightarrow> bool"
  RPCMsg_get_string :: "'m \<Rightarrow> string \<Rightarrow> cxx_exn + string"
  RPCMsg_get_word :: "'m \<Rightarrow> string \<Rightarrow> cxx_exn + u32"
  RPCMsg_get_word_array_size :: "'m \<Rightarrow> string \<Rightarrow> cxx_exn + u32"
  RPCMsg_get_word_array :: "'m \<Rightarrow> string \<Rightarrow> cxx_exn + u32 list"
  RPCMsg_set_string :: "'m \<Rightarrow> string \<Rightarrow> string \<Rightarrow> cxx_exn + 'm"
  RPCMsg_set_string_array :: "'m \<Rightarrow> string \<Rightarrow> string list \<Rightarrow> cxx_exn + 'm"
  RPCMsg_set_word :: "'m \<Rightarrow> string \<Rightarrow> u32 \<Rightarrow> cxx_exn + 'm"
  RPCMsg_set_word_array :: "'m \<Rightarrow> string \<Rightarrow> u32 list \<Rightarrow> cxx_exn + 'm"
  RPCMsg_set_binarydata :: "'m \<Rightarrow> string \<Rightarrow> u8 list \<Rightarrow> cxx_exn + 'm"
  RPCSvc_connect :: "'s \<Rightarrow> string \<Rightarrow> cxx_exn option \<times> 's"
  RPCSvc_disconnect :: "'s \<Rightarrow> cxx_exn option \<times> 's"
  RPCSvc_load_module :: "'s \<Rightarrow> string \<Rightarrow> string \<Rightarrow> (cxx_exn + bool) \<times> 's"
  RPCSvc_call_method :: "'s \<Rightarrow> 'm \<Rightarrow> (cxx_exn + 'm) \<times> 's"

text \<open>
  The one law of the message class that the memory safety of the clients rests on: the size
  reported for a word array is the number of words \<^verbatim>\<open>get_word_array\<close> copies out.
\<close>

locale rpc_msg =
  fixes L :: "('m, 's) rpc_lib"
  assumes word_array_size:
    "RPCMsg_get_word_array L m k = Inr ws \<Longrightarrow> RPCMsg_get_word_array_size L m k = Inr n \<Longrightarrow>
     unat n = length ws"

text \<open>
  The characters of a key, as the header documents \<^verbatim>\<open>key_characters\<close>; the keys under which the clients
  store consist of them.
\<close>

definition key_characters :: string where
  "key_characters = ''ABCDEFGHIJKLMNOPQRSTUVWXYZabcdefghijklmnopqrstuvwxyz0123456789._''"

definition valid_key :: "string \<Rightarrow> bool" where
  "valid_key k \<longleftrightarrow> k \<noteq> [] \<and> list_all (\<lambda>c. c \<in> set key_characters) k"

lemma valid_keys [simp]:
  "valid_key ''L1Ainterval''" "valid_key ''NOH''" "valid_key ''acquireTime''" "valid_key ''address''"
  "valid_key ''addresses''" "valid_key ''at_xml''" "valid_key ''breakOnFailure''" "valid_key ''calEnable''"
  "valid_key ''calScaleFactor''" "valid_key ''ch''" "valid_key ''ch_max''" "valid_key ''ch_min''"
  "valid_key ''chanRegData''" "valid_key ''config''" "valid_key ''count''" "valid_key ''currentPulse''"
  "valid_key ''dacMax''" "valid_key ''dacMin''" "valid_key ''dacSelect''" "valid_key ''dacStep''"
  "valid_key ''data''" "valid_key ''doReset''" "valid_key ''enable''" "valid_key ''gbtN''"
  "valid_key ''mask''" "valid_key ''masks''" "valid_key ''mode''" "valid_key ''nPulses''"
  "valid_key ''nReads''" "valid_key ''nScans''" "valid_key ''nVerificationReads''" "valid_key ''nevts''"
  "valid_key ''ohMask''" "valid_key ''ohN''" "valid_key ''ohVfatMaskArray''" "valid_key ''phase''"
  "valid_key ''phaseMax''" "valid_key ''phaseMin''" "valid_key ''phaseStep''" "valid_key ''pulseDelay''"
  "valid_key ''pulseRate''" "valid_key ''rawID''" "valid_key ''regList''" "valid_key ''reg_name''"
  "valid_key ''scanReg''" "valid_key ''scanmode''" "valid_key ''simple''" "valid_key ''toggleOn''"
  "valid_key ''trimARM''" "valid_key ''trimARMPol''" "valid_key ''trimZCC''" "valid_key ''trimZCCPol''"
  "valid_key ''type''" "valid_key ''useCalPulse''" "valid_key ''useExtRefADC''" "valid_key ''useExtTrig''"
  "valid_key ''useUltra''" "valid_key ''value''" "valid_key ''vfatMask''" "valid_key ''vfatN''"
  "valid_key ''waitTime''"
  by code_simp+

text \<open>
  A message class that in addition keeps what was stored in it: setters do not fail on a key of these
  characters (\<^verbatim>\<open>BadKeyException\<close> is the one exception that is about keys), a getter
  returns the value last stored under its key, and an entry is untouched by a store under another
  key.
\<close>

locale rpc_msg_store = rpc_msg L for L :: "('m, 's) rpc_lib" +
  assumes set_word_ok: "valid_key k \<Longrightarrow> \<exists>m'. RPCMsg_set_word L m k v = Inr m'"
    and set_string_ok: "valid_key k \<Longrightarrow> \<exists>m'. RPCMsg_set_string L m k str = Inr m'"
    and set_string_array_ok: "valid_key k \<Longrightarrow> \<exists>m'. RPCMsg_set_string_array L m k strs = Inr m'"
    and set_word_array_ok: "valid_key k \<Longrightarrow> \<exists>m'. RPCMsg_set_word_array L m k ws = Inr m'"
    and set_binarydata_ok: "valid_key k \<Longrightarrow> \<exists>m'. RPCMsg_set_binarydata L m k bs = Inr m'"
    and get_set_word: "RPCMsg_set_word L m k v = Inr m' \<Longrightarrow> RPCMsg_get_word L m' k = Inr v"
    and get_set_word_other: "RPCMsg_set_word L m k v = Inr m' \<Longrightarrow> k' \<noteq> k \<Longrightarrow>
      RPCMsg_get_word L m' k' = RPCMsg_get_word L m k'"

section \<open>Client state\<close>

text \<open>
  The caller's memory is a family of blocks, each an array of scalars held in 32-bit cells (a
  \<^verbatim>\<open>uint8_t\<close> or \<^verbatim>\<open>bool\<close> is held zero-extended); a pointer is a block and an offset. An access
  outside its block is undefined behaviour. \<open>result_var\<close> is the uninitialised local variable
  \<^verbatim>\<open>uint32_t result\<close> of the register read functions, \<open>files\<close> the files written by \<^verbatim>\<open>sbitReadOut\<close>.
\<close>

type_synonym ptr = "nat \<times> nat"
type_synonym heap = "nat \<Rightarrow> u32 list"

record ('m, 's) rpc_state =
  svc :: 's
  req :: 'm
  rsp :: 'm
  heap :: heap
  files :: "string \<rightharpoonup> string"
  result_var :: "u32 option"

type_synonym ('m, 's, 'x) rpc_stmt = "(cxx_exn, u32, ('m, 's, 'x) rpc_state_scheme) stmt"

section \<open>Memory accesses\<close>

definition in_bounds :: "heap \<Rightarrow> ptr \<Rightarrow> nat \<Rightarrow> bool" where
  "in_bounds h p n \<longleftrightarrow> snd p + n \<le> length (h (fst p))"

definition store_words :: "ptr \<Rightarrow> u32 list \<Rightarrow> ('m, 's, 'x) rpc_stmt" where
  "store_words p ws s =
     (if in_bounds (heap s) p (length ws)
      then Next (s\<lparr>heap := (heap s)(fst p := overwrite (heap s (fst p)) (snd p) ws)\<rparr>)
      else Undefined)"

definition ptr_add :: "ptr \<Rightarrow> nat \<Rightarrow> ptr" where
  "ptr_add p i = (fst p, snd p + i)"

definition load_words :: "heap \<Rightarrow> ptr \<Rightarrow> nat \<Rightarrow> u32 list option" where
  "load_words h p n =
     (if in_bounds h p n then Some (take n (drop (snd p) (h (fst p)))) else None)"

section \<open>Statements on \<^verbatim>\<open>req\<close>, \<^verbatim>\<open>rsp\<close> and the service\<close>

definition req_new :: "('m, 's) rpc_lib \<Rightarrow> string \<Rightarrow> ('m, 's, 'x) rpc_stmt" where
  "req_new L method = UPD (\<lambda>s. s\<lparr>req := RPCMsg_new L method\<rparr>)"

definition put_req :: "(cxx_exn + 'm) \<Rightarrow> ('m, 's, 'x) rpc_stmt" where
  "put_req r s = (case r of Inl e \<Rightarrow> raise e s | Inr m \<Rightarrow> Next (s\<lparr>req := m\<rparr>))"

definition set_word :: "('m, 's) rpc_lib \<Rightarrow> string \<Rightarrow> u32 \<Rightarrow> ('m, 's, 'x) rpc_stmt" where
  "set_word L k v s = put_req (RPCMsg_set_word L (req s) k v) s"

definition set_bool :: "('m, 's) rpc_lib \<Rightarrow> string \<Rightarrow> bool \<Rightarrow> ('m, 's, 'x) rpc_stmt" where
  "set_bool L k b = set_word L k (of_bool b)"

definition set_string :: "('m, 's) rpc_lib \<Rightarrow> string \<Rightarrow> string \<Rightarrow> ('m, 's, 'x) rpc_stmt" where
  "set_string L k v s = put_req (RPCMsg_set_string L (req s) k v) s"

definition set_string_array :: "('m, 's) rpc_lib \<Rightarrow> string \<Rightarrow> string list \<Rightarrow> ('m, 's, 'x) rpc_stmt" where
  "set_string_array L k v s = put_req (RPCMsg_set_string_array L (req s) k v) s"

text \<open>
  \<^verbatim>\<open>set_word_array(key, data, count)\<close> takes an \<^verbatim>\<open>int\<close> count; the callers pass it the 32-bit
  \<open>n\<close>, so a value of \<open>2 ^ 31\<close> or more arrives negative, which the interface gives no meaning.
\<close>

definition set_word_array :: "('m, 's) rpc_lib \<Rightarrow> string \<Rightarrow> ptr \<Rightarrow> u32 \<Rightarrow> ('m, 's, 'x) rpc_stmt" where
  "set_word_array L k p n s =
     (if 2 ^ 31 \<le> unat n then Undefined
      else case load_words (heap s) p (unat n) of
        None \<Rightarrow> Undefined
      | Some ws \<Rightarrow> put_req (RPCMsg_set_word_array L (req s) k ws) s)"

definition set_binarydata :: "('m, 's) rpc_lib \<Rightarrow> string \<Rightarrow> ptr \<Rightarrow> u32 \<Rightarrow> ('m, 's, 'x) rpc_stmt" where
  "set_binarydata L k p n s =
     (case load_words (heap s) p (unat n) of
        None \<Rightarrow> Undefined
      | Some ws \<Rightarrow> put_req (RPCMsg_set_binarydata L (req s) k (map ucast ws)) s)"

text \<open>\<^verbatim>\<open>rsp = rpc.call_method(req)\<close>\<close>

definition call_method :: "('m, 's) rpc_lib \<Rightarrow> ('m, 's, 'x) rpc_stmt" where
  "call_method L s =
     (case RPCSvc_call_method L (svc s) (req s) of
        (Inl e, v) \<Rightarrow> raise e (s\<lparr>svc := v\<rparr>)
      | (Inr m, v) \<Rightarrow> Next (s\<lparr>svc := v, rsp := m\<rparr>))"

definition key_exists :: "('m, 's) rpc_lib \<Rightarrow> string \<Rightarrow> ('m, 's, 'x) rpc_state_scheme \<Rightarrow> bool" where
  "key_exists L k s = RPCMsg_get_key_exists L (rsp s) k"

text \<open>The access \<^verbatim>\<open>rsp.get_string(k)\<close> of a \<^verbatim>\<open>printf\<close>, without the printing.\<close>

definition print_string :: "('m, 's) rpc_lib \<Rightarrow> string \<Rightarrow> ('m, 's, 'x) rpc_stmt" where
  "print_string L k s = (case RPCMsg_get_string L (rsp s) k of Inl e \<Rightarrow> raise e s | Inr _ \<Rightarrow> Next s)"

text \<open>The access \<^verbatim>\<open>rsp.get_word(k)\<close> into a local that is only printed.\<close>

definition print_word :: "('m, 's) rpc_lib \<Rightarrow> string \<Rightarrow> ('m, 's, 'x) rpc_stmt" where
  "print_word L k s = (case RPCMsg_get_word L (rsp s) k of Inl e \<Rightarrow> raise e s | Inr _ \<Rightarrow> Next s)"

definition get_word_array :: "('m, 's) rpc_lib \<Rightarrow> string \<Rightarrow> ptr \<Rightarrow> ('m, 's, 'x) rpc_stmt" where
  "get_word_array L k p s =
     (case RPCMsg_get_word_array L (rsp s) k of Inl e \<Rightarrow> raise e s | Inr ws \<Rightarrow> store_words p ws s)"

text \<open>
  \<^verbatim>\<open>rsp.get_word_array(k, &result)\<close> with the local \<^verbatim>\<open>uint32_t result\<close>: more than one word runs
  past the variable. Returning the variable before it was assigned is undefined as well.
\<close>

definition get_word_array_local :: "('m, 's) rpc_lib \<Rightarrow> string \<Rightarrow> ('m, 's, 'x) rpc_stmt" where
  "get_word_array_local L k s =
     (case RPCMsg_get_word_array L (rsp s) k of
        Inl e \<Rightarrow> raise e s
      | Inr [] \<Rightarrow> Next s
      | Inr [w] \<Rightarrow> Next (s\<lparr>result_var := Some w\<rparr>)
      | Inr _ \<Rightarrow> Undefined)"

definition declare_result :: "('m, 's, 'x) rpc_stmt" where
  "declare_result = UPD (\<lambda>s. s\<lparr>result_var := None\<rparr>)"

definition return_result :: "('m, 's, 'x) rpc_stmt" where
  "return_result s = (case result_var s of None \<Rightarrow> Undefined | Some w \<Rightarrow> Return w s)"

text \<open>\<^verbatim>\<open>p[i] = rsp.get_word(k)\<close>, and the same with a conversion of the word.\<close>

definition assign_conv ::
  "('m, 's) rpc_lib \<Rightarrow> (u32 \<Rightarrow> u32) \<Rightarrow> ptr \<Rightarrow> nat \<Rightarrow> string \<Rightarrow> ('m, 's, 'x) rpc_stmt" where
  "assign_conv L f p i k s =
     (case RPCMsg_get_word L (rsp s) k of Inl e \<Rightarrow> raise e s | Inr w \<Rightarrow> store_words (ptr_add p i) [f w] s)"

definition assign_word :: "('m, 's) rpc_lib \<Rightarrow> ptr \<Rightarrow> nat \<Rightarrow> string \<Rightarrow> ('m, 's, 'x) rpc_stmt" where
  "assign_word L = assign_conv L (\<lambda>w. w)"

section \<open>The macros of \<^verbatim>\<open>utils.h\<close>\<close>

text \<open>
  \<^verbatim>\<open>STANDARD_CATCH\<close>: every \<^verbatim>\<open>RPCException\<close> (in the order of the clauses: \<^verbatim>\<open>NotConnected\<close>,
  \<^verbatim>\<open>RPCError\<close>, then the parent class) returns 1, a \<^verbatim>\<open>BadKeyException\<close> returns \<^verbatim>\<open>0xdeaddead\<close>.
\<close>

fun STANDARD_CATCH :: "cxx_exn \<Rightarrow> (cxx_exn, u32, 's) stmt option" where
  "STANDARD_CATCH (NotConnectedException m) = Some (RETURN 1)"
| "STANDARD_CATCH (RPCErrorException m) = Some (RETURN 1)"
| "STANDARD_CATCH (RPCException m) = Some (RETURN 1)"
| "STANDARD_CATCH (ConnectionFailedException m) = Some (RETURN 1)"
| "STANDARD_CATCH (BadKeyException k) = Some (RETURN 0xdeaddead)"
| "STANDARD_CATCH _ = None"

lemma STANDARD_CATCH_RPCException [simp]: "is_RPCException e \<Longrightarrow> STANDARD_CATCH e = Some (RETURN 1)"
  by (cases e) simp_all

text \<open>\<^verbatim>\<open>ASSERT(rsp.get_word_array_size(k) == n)\<close>, the comparison given as a predicate.\<close>

definition ASSERT_size :: "('m, 's) rpc_lib \<Rightarrow> string \<Rightarrow> (u32 \<Rightarrow> bool) \<Rightarrow> ('m, 's, 'x) rpc_stmt" where
  "ASSERT_size L k P s =
     (case RPCMsg_get_word_array_size L (rsp s) k of
        Inl e \<Rightarrow> raise e s
      | Inr n \<Rightarrow> if P n then Next s else Return 1 s)"

text \<open>The idiom \<^verbatim>\<open>ASSERT(rsp.get_word_array_size(k) == n); rsp.get_word_array(k, p);\<close>\<close>

definition ASSERT_get_word_array ::
  "('m, 's) rpc_lib \<Rightarrow> string \<Rightarrow> (u32 \<Rightarrow> bool) \<Rightarrow> ptr \<Rightarrow> ('m, 's, 'x) rpc_stmt" where
  "ASSERT_get_word_array L k P p = block [ASSERT_size L k P, get_word_array L k p]"

lemmas rpc_stmt_defs [stmt_simps] = req_new_def put_req_def set_word_def set_bool_def set_string_def
  set_string_array_def set_word_array_def set_binarydata_def call_method_def key_exists_def
  print_string_def print_word_def get_word_array_def assign_conv_def assign_word_def ASSERT_size_def
  store_words_def get_word_array_local_def declare_result_def return_result_def
  ASSERT_get_word_array_def

end
