(* ===== verification/Rpc_Frame.thy ===== *)
theory Rpc_Frame
  imports Rpc_Msg
begin

text \<open>
  Framing of the caller's memory. A contract lists the runs of cells an entry point may write
  (\<open>W\<close>) and, where it reads arrays, the runs it reads. \<open>framed h0 W s\<close> says that the memory of \<open>s\<close>
  has the blocks of \<open>h0\<close> and differs from it inside \<open>W\<close> only. The rules of this theory show that
  every statement the client functions are built from is safe for \<open>framed\<close>; the two rules that
  concern word arrays are proved in the locale of the message class, whose size law they need.
\<close>

type_synonym footprint = "(ptr \<times> nat) list"

definition covered :: "footprint \<Rightarrow> nat \<Rightarrow> nat \<Rightarrow> bool" where
  "covered W b i \<longleftrightarrow> (\<exists>(p, n) \<in> set W. b = fst p \<and> snd p \<le> i \<and> i < snd p + n)"

definition same_shape :: "heap \<Rightarrow> heap \<Rightarrow> bool" where
  "same_shape h0 h \<longleftrightarrow> (\<forall>b. length (h b) = length (h0 b))"

definition same_outside :: "heap \<Rightarrow> footprint \<Rightarrow> heap \<Rightarrow> bool" where
  "same_outside h0 W h \<longleftrightarrow> (\<forall>b i. i < length (h0 b) \<longrightarrow> \<not> covered W b i \<longrightarrow> h b ! i = h0 b ! i)"

definition framed :: "heap \<Rightarrow> footprint \<Rightarrow> ('m, 's, 'x) rpc_state_scheme \<Rightarrow> bool" where
  "framed h0 W s \<longleftrightarrow> same_shape h0 (heap s) \<and> same_outside h0 W (heap s)"

definition fits :: "heap \<Rightarrow> footprint \<Rightarrow> bool" where
  "fits h W \<longleftrightarrow> list_all (\<lambda>(p, n). in_bounds h p n) W"

text \<open>The number of cells a footprint grants from a pointer on.\<close>

fun cap :: "footprint \<Rightarrow> ptr \<Rightarrow> nat" where
  "cap [] p = 0"
| "cap ((q, n) # W) p = (if p = q then max n (cap W p) else cap W p)"

lemma cap_member: "p \<in> fst ` set W \<Longrightarrow> (p, cap W p) \<in> set W"
proof (induction W)
  case Nil
  then show ?case by simp
next
  case (Cons qn W)
  show ?case
  proof (cases "p \<in> fst ` set W")
    case True
    with Cons.IH show ?thesis by (cases qn) (auto simp: max_def)
  next
    case False
    then have "cap W p = 0" by (induction W) auto
    with False Cons.prems show ?thesis by (cases qn) auto
  qed
qed

lemma less_cap_member: "i < cap W p \<Longrightarrow> (p, cap W p) \<in> set W"
proof (rule cap_member, rule ccontr)
  assume "i < cap W p" and "p \<notin> fst ` set W"
  then show False by (induction W) (auto split: if_splits)
qed

lemma framed_refl [simp]: "framed (heap s) W s"
  by (simp add: framed_def same_shape_def same_outside_def)

lemma framed_heap_cong: "heap t = heap s \<Longrightarrow> framed h0 W t = framed h0 W s"
  by (simp add: framed_def)

lemma framed_update_simps [simp]:
  "framed h0 W (s\<lparr>req := m\<rparr>) = framed h0 W s"
  "framed h0 W (s\<lparr>rsp := m\<rparr>) = framed h0 W s"
  "framed h0 W (s\<lparr>svc := v\<rparr>) = framed h0 W s"
  "framed h0 W (s\<lparr>files := f\<rparr>) = framed h0 W s"
  "framed h0 W (s\<lparr>result_var := r\<rparr>) = framed h0 W s"
  by (simp_all add: framed_def)

lemma fits_Nil [simp]: "fits h []"
  by (simp add: fits_def)

lemma fits_member: "fits h W \<Longrightarrow> (p, n) \<in> set W \<Longrightarrow> in_bounds h p n"
  by (auto simp: fits_def list_all_iff)

lemma framed_in_bounds: "framed h0 W s \<Longrightarrow> in_bounds (heap s) p n = in_bounds h0 p n"
  by (simp add: framed_def same_shape_def in_bounds_def)

lemma framed_empty_heap: "framed h0 [] s \<Longrightarrow> heap s = h0"
  by (auto simp: framed_def same_shape_def same_outside_def covered_def intro!: ext nth_equalityI)

lemma ptr_add_0 [simp]: "ptr_add p 0 = p"
  by (simp add: ptr_add_def)

section \<open>Statements that leave the memory alone\<close>

lemma safe_raise [safe_intros]: "safe I (raise e)"
  by (simp add: safe_def)

lemma safe_put_req: "safe (framed h0 W) (put_req r)"
  by (auto simp: safe_def put_req_def split: sum.splits)

lemma safe_req_new [safe_intros]: "safe (framed h0 W) (req_new L m)"
  by (auto simp: safe_def req_new_def UPD_def)

lemma safe_set_word [safe_intros]: "safe (framed h0 W) (set_word L k v)"
  using safe_put_req by (fastforce simp: safe_def set_word_def)

lemma safe_set_bool [safe_intros]: "safe (framed h0 W) (set_bool L k b)"
  by (simp add: set_bool_def safe_set_word)

lemma safe_set_string [safe_intros]: "safe (framed h0 W) (set_string L k v)"
  using safe_put_req by (fastforce simp: safe_def set_string_def)

lemma safe_set_string_array [safe_intros]: "safe (framed h0 W) (set_string_array L k v)"
  using safe_put_req by (fastforce simp: safe_def set_string_array_def)

lemma safe_call_method [safe_intros]: "safe (framed h0 W) (call_method L)"
  by (auto simp: safe_def call_method_def split: prod.splits sum.splits)

lemma safe_print_string [safe_intros]: "safe (framed h0 W) (print_string L k)"
  by (auto simp: safe_def print_string_def split: sum.splits)

lemma safe_print_word [safe_intros]: "safe (framed h0 W) (print_word L k)"
  by (auto simp: safe_def print_word_def split: sum.splits)

lemma safe_ASSERT_size [safe_intros]: "safe (framed h0 W) (ASSERT_size L k P)"
  by (auto simp: safe_def ASSERT_size_def split: sum.splits)

lemma safe_TRY_STANDARD_CATCH [safe_intros]: "safe I c \<Longrightarrow> safe I (TRY c STANDARD_CATCH)"
proof (erule safe_TRY)
  fix e and d :: "(cxx_exn, u32, 'a) stmt"
  assume "STANDARD_CATCH e = Some d"
  then show "safe I d" by (cases e) (auto intro: safe_intros)
qed

section \<open>Reading arrays\<close>

lemma safe_set_word_array [safe_intros]:
  assumes "in_bounds h0 p (unat n)" and "unat n < 2 ^ 31"
  shows "safe (framed h0 W) (set_word_array L k p n)"
proof (rule safeI)
  fix s :: "('a, 'b, 'c) rpc_state_scheme"
  assume s: "framed h0 W s"
  with assms show "\<exists>t. ctl_state (set_word_array L k p n s) = Some t \<and> framed h0 W t"
    using safe_put_req [THEN safeD, OF s]
    by (simp add: set_word_array_def load_words_def framed_in_bounds)
qed

lemma safe_set_binarydata [safe_intros]:
  assumes "in_bounds h0 p (unat n)"
  shows "safe (framed h0 W) (set_binarydata L k p n)"
proof (rule safeI)
  fix s :: "('a, 'b, 'c) rpc_state_scheme"
  assume s: "framed h0 W s"
  with assms show "\<exists>t. ctl_state (set_binarydata L k p n s) = Some t \<and> framed h0 W t"
    using safe_put_req [THEN safeD, OF s]
    by (simp add: set_binarydata_def load_words_def framed_in_bounds)
qed

section \<open>Writing results\<close>

lemma framed_store:
  assumes "framed h0 W s" and "fits h0 W" and "(p, n) \<in> set W" and "i + length ws \<le> n"
  shows "\<exists>t. store_words (ptr_add p i) ws s = Next t \<and> framed h0 W t"
proof -
  let ?h = "heap s" and ?b = "fst p" and ?o = "snd p + i"
  have room: "?o + length ws \<le> length (h0 ?b)"
    using fits_member [OF assms(2,3)] assms(4) by (simp add: in_bounds_def)
  have shape: "length (?h ?b) = length (h0 ?b)"
    using assms(1) by (simp add: framed_def same_shape_def)
  let ?t = "s\<lparr>heap := ?h(?b := overwrite (?h ?b) ?o ws)\<rparr>"
  have "store_words (ptr_add p i) ws s = Next ?t"
    using room shape by (simp add: store_words_def in_bounds_def ptr_add_def)
  moreover have "framed h0 W ?t"
  proof -
    have "overwrite (?h ?b) ?o ws ! j = h0 ?b ! j" if "j < length (h0 ?b)" "\<not> covered W ?b j" for j
    proof -
      have "j < ?o \<or> ?o + length ws \<le> j"
        using that(2) assms(3,4) by (fastforce simp: covered_def)
      with that assms(1) room shape show ?thesis
        by (simp add: nth_overwrite_out framed_def same_outside_def)
    qed
    then show ?thesis
      using assms(1) room shape by (auto simp: framed_def same_shape_def same_outside_def)
  qed
  ultimately show ?thesis by blast
qed

lemma safe_store_word [safe_intros]:
  assumes "fits h0 W" and "i < cap W p"
  shows "safe (framed h0 W) (store_words (ptr_add p i) [w])"
  using framed_store [OF _ assms(1) less_cap_member [OF assms(2)], where i = i and ws = "[w]"] assms(2)
  by (fastforce simp: safe_def)

lemma safe_assign_conv [safe_intros]:
  assumes "fits h0 W" and "i < cap W p"
  shows "safe (framed h0 W) (assign_conv L f p i k)"
proof (rule safeI)
  fix s :: "('a, 'b, 'c) rpc_state_scheme"
  assume s: "framed h0 W s"
  show "\<exists>t. ctl_state (assign_conv L f p i k s) = Some t \<and> framed h0 W t"
  proof (cases "RPCMsg_get_word L (rsp s) k")
    case (Inl e)
    with s show ?thesis by (simp add: assign_conv_def)
  next
    case (Inr w)
    with safe_store_word [OF assms, THEN safeD, OF s] show ?thesis by (simp add: assign_conv_def)
  qed
qed

lemma safe_assign_word [safe_intros]:
  "fits h0 W \<Longrightarrow> i < cap W p \<Longrightarrow> safe (framed h0 W) (assign_word L p i k)"
  by (simp add: assign_word_def safe_assign_conv)

context rpc_msg
begin

lemma safe_fetch_at:
  assumes "fits h0 W" and "p \<in> fst ` set W" and "\<And>m. P m \<Longrightarrow> i + unat m \<le> cap W p"
  shows "safe (framed h0 W) (ASSERT_get_word_array L k P (ptr_add p i))"
proof (rule safeI)
  fix s :: "('m, 's, 'a) rpc_state_scheme"
  assume s: "framed h0 W s"
  let ?c = "ASSERT_get_word_array L k P (ptr_add p i)"
  note defs = ASSERT_get_word_array_def ASSERT_size_def get_word_array_def
  show "\<exists>t. ctl_state (?c s) = Some t \<and> framed h0 W t"
  proof (cases "RPCMsg_get_word_array_size L (rsp s) k")
    case (Inl e)
    with s show ?thesis by (cases e) (simp_all add: defs)
  next
    case sz: (Inr m)
    show ?thesis
    proof (cases "RPCMsg_get_word_array L (rsp s) k")
      case (Inl e)
      with s sz show ?thesis by (cases e) (simp_all add: defs)
    next
      case ws: (Inr ws)
      show ?thesis
      proof (cases "P m")
        case True
        have "i + length ws \<le> cap W p"
          using assms(3) [OF True] word_array_size [OF ws sz] by simp
        then obtain t where "store_words (ptr_add p i) ws s = Next t" "framed h0 W t"
          using framed_store [OF s assms(1) cap_member [OF assms(2)]] by blast
        with True sz ws show ?thesis by (simp add: defs)
      next
        case False
        with s sz show ?thesis by (simp add: defs)
      qed
    qed
  qed
qed

lemma safe_fetch:
  assumes "fits h0 W" and "p \<in> fst ` set W" and "\<And>m. P m \<Longrightarrow> unat m \<le> cap W p"
  shows "safe (framed h0 W) (ASSERT_get_word_array L k P p)"
proof -
  have "safe (framed h0 W) (ASSERT_get_word_array L k P (ptr_add p 0))"
    using assms by (intro safe_fetch_at) auto
  then show ?thesis by simp
qed

end

end
