(* ===== verification/Rpc_Utils.thy ===== *)
theory Rpc_Utils
  imports Rpc_Frame
begin

text \<open>
  \<^verbatim>\<open>xhalcore/src/common/rpc_manager/utils.cc\<close>: connecting, the register and block accesses, the
  address table queries, and the bit count the sensor readout sizes its replies with.
\<close>

section \<open>Connection\<close>

definition disconnect :: "('m, 's) rpc_lib \<Rightarrow> ('m, 's, 'x) rpc_stmt" where
  "disconnect L s =
     (case RPCSvc_disconnect L (svc s) of
        (None, v) \<Rightarrow> Next (s\<lparr>svc := v\<rparr>)
      | (Some e, v) \<Rightarrow> raise e (s\<lparr>svc := v\<rparr>))"

definition connect :: "('m, 's) rpc_lib \<Rightarrow> string \<Rightarrow> ('m, 's, 'x) rpc_stmt" where
  "connect L host s =
     (case RPCSvc_connect L (svc s) host of
        (None, v) \<Rightarrow> Next (s\<lparr>svc := v\<rparr>)
      | (Some e, v) \<Rightarrow> raise e (s\<lparr>svc := v\<rparr>))"

text \<open>\<^verbatim>\<open>ASSERT(rpc.load_module(name, version))\<close>\<close>

definition ASSERT_load_module :: "('m, 's) rpc_lib \<Rightarrow> string \<Rightarrow> string \<Rightarrow> ('m, 's, 'x) rpc_stmt" where
  "ASSERT_load_module L name version s =
     (case RPCSvc_load_module L (svc s) name version of
        (Inl e, v) \<Rightarrow> raise e (s\<lparr>svc := v\<rparr>)
      | (Inr ok, v) \<Rightarrow> if ok then Next (s\<lparr>svc := v\<rparr>) else Return 1 (s\<lparr>svc := v\<rparr>))"

fun deinit_catch :: "cxx_exn \<Rightarrow> (cxx_exn, u32, 's) stmt option" where
  "deinit_catch (NotConnectedException m) = Some (RETURN 0)"
| "deinit_catch e = (if is_RPCException e then Some (RETURN 1) else None)"

definition deinit :: "('m, 's) rpc_lib \<Rightarrow> ('m, 's, 'x) rpc_stmt" where
  "deinit L = block [TRY (disconnect L) deinit_catch, RETURN 0]"

definition init_catch :: "cxx_exn \<Rightarrow> (cxx_exn, u32, 's) stmt option" where
  "init_catch e = (if is_RPCException e then Some (RETURN 1) else None)"

definition init_modules :: "(string \<times> string) list" where
  "init_modules =
     [(''memory'', ''memory v1.0.1''),
      (''extras'', ''extras v1.0.1''),
      (''utils'', ''utils v1.0.1''),
      (''optohybrid'', ''optohybrid v1.0.1''),
      (''amc'', ''amc v1.0.1''),
      (''daq_monitor'', ''daq_monitor v1.0.1''),
      (''calibration_routines'', ''calibration_routines v1.0.1''),
      (''vfat3'', ''vfat3 v1.0.1''),
      (''gbt'', ''gbt v1.0.1'')]"

definition init :: "('m, 's) rpc_lib \<Rightarrow> string \<Rightarrow> ('m, 's, 'x) rpc_stmt" where
  "init L hostname = block
     [TRY (connect L hostname) init_catch,
      TRY (block (map (\<lambda>(name, version). ASSERT_load_module L name version) init_modules))
        STANDARD_CATCH,
      RETURN 0]"

section \<open>Address table\<close>

definition update_atdb :: "('m, 's) rpc_lib \<Rightarrow> string \<Rightarrow> ('m, 's, 'x) rpc_stmt" where
  "update_atdb L xmlfilename = block
     [req_new L ''utils.update_address_table'',
      set_string L ''at_xml'' xmlfilename,
      TRY (call_method L) STANDARD_CATCH,
      IF (key_exists L ''error'') (RETURN 1) SKIP,
      RETURN 0]"

definition getRegInfoDB :: "('m, 's) rpc_lib \<Rightarrow> string \<Rightarrow> ('m, 's, 'x) rpc_stmt" where
  "getRegInfoDB L regName = block
     [req_new L ''utils.readRegFromDB'',
      set_string L ''reg_name'' regName,
      TRY (call_method L) STANDARD_CATCH,
      IF (key_exists L ''error'') (RETURN 1) SKIP,
      TRY (block
        [print_word L ''address'',
         print_word L ''mask'',
         print_string L ''permissions'']) STANDARD_CATCH,
      RETURN 0]"

section \<open>Register and block accesses\<close>

definition getReg :: "('m, 's) rpc_lib \<Rightarrow> u32 \<Rightarrow> ('m, 's, 'x) rpc_stmt" where
  "getReg L address = block
     [req_new L ''memory.read'',
      set_word L ''address'' address,
      set_word L ''count'' 1,
      TRY (call_method L) STANDARD_CATCH,
      declare_result,
      TRY (IF (key_exists L ''error'') (RETURN 0xdeaddead)
        (block
          [ASSERT_size L ''data'' (\<lambda>n. n = 1),
           get_word_array_local L ''data''])) STANDARD_CATCH,
      return_result]"

text \<open>
  \<^verbatim>\<open>ssize_t size\<close> is a signed 64-bit value; the stored count is its low 32 bits, and the
  comparison with the reported array size is done in 64 bits.
\<close>

definition size_matches :: "u64 \<Rightarrow> u32 \<Rightarrow> bool" where
  "size_matches sz n \<longleftrightarrow> int (unat n) = sint sz"

definition getBlock :: "('m, 's) rpc_lib \<Rightarrow> u32 \<Rightarrow> ptr \<Rightarrow> u64 \<Rightarrow> ('m, 's, 'x) rpc_stmt" where
  "getBlock L address result sz = block
     [req_new L ''extras.blockread'',
      set_word L ''address'' address,
      set_word L ''count'' (ucast sz),
      TRY (call_method L) STANDARD_CATCH,
      TRY (IF (key_exists L ''error'') (RETURN 1)
        (ASSERT_get_word_array L ''data'' (size_matches sz) result)) STANDARD_CATCH,
      RETURN 0]"

definition getList :: "('m, 's) rpc_lib \<Rightarrow> ptr \<Rightarrow> ptr \<Rightarrow> u64 \<Rightarrow> ('m, 's, 'x) rpc_stmt" where
  "getList L addresses result sz = block
     [req_new L ''extras.listread'',
      set_word_array L ''addresses'' addresses (ucast sz),
      set_word L ''count'' (ucast sz),
      TRY (call_method L) STANDARD_CATCH,
      TRY (IF (key_exists L ''error'') (RETURN 1)
        (ASSERT_get_word_array L ''data'' (size_matches sz) result)) STANDARD_CATCH,
      RETURN 0]"

text \<open>
  \<^verbatim>\<open>req.set_word_array("data", &value, 1)\<close> reads the one word of the parameter \<^verbatim>\<open>value\<close>.
\<close>

definition set_word_array_value :: "('m, 's) rpc_lib \<Rightarrow> string \<Rightarrow> u32 \<Rightarrow> ('m, 's, 'x) rpc_stmt" where
  "set_word_array_value L k v s = put_req (RPCMsg_set_word_array L (req s) k [v]) s"

definition putReg :: "('m, 's) rpc_lib \<Rightarrow> u32 \<Rightarrow> u32 \<Rightarrow> ('m, 's, 'x) rpc_stmt" where
  "putReg L address value = block
     [req_new L ''memory.write'',
      set_word L ''address'' address,
      set_word_array_value L ''data'' value,
      TRY (call_method L) STANDARD_CATCH,
      IF (key_exists L ''error'') (RETURN 0xdeaddead) (RETURN value)]"

section \<open>Counting bits\<close>

definition count_1bits :: "u32 \<Rightarrow> u32" where
  "count_1bits x0 =
     (let x1 = x0 - (drop_bit 1 x0 AND 0x55555555);
          x2 = (x1 AND 0x33333333) + (drop_bit 2 x1 AND 0x33333333);
          x3 = x2 + drop_bit 8 x2;
          x4 = x3 + drop_bit 16 x3
      in x4 AND 0x0000003F)"

section \<open>Safety of the accesses\<close>

lemma safe_disconnect [safe_intros]: "safe (framed h0 W) (disconnect L)"
  by (auto simp: safe_def disconnect_def split: prod.splits option.splits)

lemma safe_connect [safe_intros]: "safe (framed h0 W) (connect L host)"
  by (auto simp: safe_def connect_def split: prod.splits option.splits)

lemma safe_ASSERT_load_module [safe_intros]: "safe (framed h0 W) (ASSERT_load_module L name version)"
  by (auto simp: safe_def ASSERT_load_module_def split: prod.splits sum.splits)

lemma safe_set_word_array_value [safe_intros]: "safe (framed h0 W) (set_word_array_value L k v)"
  using safe_put_req by (fastforce simp: safe_def set_word_array_value_def)

lemma safe_TRY_deinit_catch [safe_intros]: "safe I c \<Longrightarrow> safe I (TRY c deinit_catch)"
proof (erule safe_TRY)
  fix e and d :: "(cxx_exn, u32, 'a) stmt"
  assume "deinit_catch e = Some d"
  then show "safe I d" by (cases e) (auto intro: safe_intros)
qed

lemma safe_TRY_init_catch [safe_intros]: "safe I c \<Longrightarrow> safe I (TRY c init_catch)"
  by (erule safe_TRY) (auto simp: init_catch_def intro: safe_intros split: if_splits)

lemma safe_declare_result [safe_intros]: "safe (framed h0 W) declare_result"
  by (simp add: safe_def declare_result_def UPD_def)

context rpc_msg
begin

text \<open>The tail of \<^verbatim>\<open>getReg\<close>: where the local is returned it has been assigned.\<close>

lemma safe_getReg_reply:
  "safe (framed h0 W)
     (block [TRY (IF (key_exists L ''error'') (RETURN r)
          (block [ASSERT_size L k (\<lambda>n. n = 1), get_word_array_local L k])) STANDARD_CATCH,
        return_result])"
proof (rule safeI)
  fix s :: "('m, 's, 'a) rpc_state_scheme"
  assume s: "framed h0 W s"
  have one: "\<exists>w. ws = [w]" if "RPCMsg_get_word_array L (rsp s) k = Inr ws"
      and "RPCMsg_get_word_array_size L (rsp s) k = Inr 1" for ws
    using word_array_size [OF that] by (cases ws) auto
  have "\<exists>t. ctl_state (TRY (raise e) STANDARD_CATCH s) = Some t \<and> framed h0 W t
      \<and> (\<nexists>u. TRY (raise e) STANDARD_CATCH s = Next u)" for e
    using s by (cases e) (simp_all add: stmt_simps)
  note throw = this [unfolded TRY_def]
  show "\<exists>t. ctl_state (block [TRY (IF (key_exists L ''error'') (RETURN r)
          (block [ASSERT_size L k (\<lambda>n. n = 1), get_word_array_local L k])) STANDARD_CATCH,
        return_result] s) = Some t \<and> framed h0 W t"
    using s one throw
    by (cases "RPCMsg_get_word_array_size L (rsp s) k"; cases "RPCMsg_get_word_array L (rsp s) k")
      (fastforce simp: stmt_simps split: ctl.splits cxx_exn.splits)+
qed

end

lemmas utils_stmt_defs [stmt_simps] = disconnect_def connect_def ASSERT_load_module_def
  set_word_array_value_def

section \<open>Contracts\<close>

lemma utils_safe:
  "safe (framed h0 W) (deinit L)"
  "safe (framed h0 W) (init L hostname)"
  "safe (framed h0 W) (update_atdb L xmlfilename)"
  "safe (framed h0 W) (getRegInfoDB L regName)"
  "safe (framed h0 W) (putReg L address value)"
  unfolding deinit_def init_def init_modules_def update_atdb_def getRegInfoDB_def putReg_def
    list.map prod.case
  by (intro safe_intros)+

lemma sint_nonneg_uint: "0 \<le> sint (sz :: u64) \<Longrightarrow> sint sz = uint sz"
proof transfer
  fix k :: int
  assume "0 \<le> signed_take_bit (LENGTH(64) - Suc 0) k"
  then show "signed_take_bit (LENGTH(64) - Suc 0) k = take_bit LENGTH(64) k"
    using take_bit_Suc_from_most [of 63 k] by (simp add: signed_take_bit_eq_if_positive)
qed

lemma unat_ucast_ssize:
  assumes "0 \<le> sint (sz :: u64)" and "sint sz < 2 ^ 31"
  shows "unat (ucast sz :: u32) = nat (sint sz)"
proof -
  have "uint sz < 2 ^ 32"
    using assms by (simp add: sint_nonneg_uint)
  then have "uint (ucast sz :: u32) = uint sz"
    by (simp add: unsigned_ucast_eq take_bit_int_eq_self)
  then show ?thesis
    using assms(1) by (metis nat_uint_eq sint_nonneg_uint)
qed

lemma size_matchesD: "size_matches sz m \<Longrightarrow> unat m = nat (sint sz)"
  by (metis nat_int size_matches_def)

context rpc_msg
begin

lemma safe_getReg: "safe (framed h0 W) (getReg L address)"
  unfolding getReg_def by (rule safe_getReg_reply safe_intros)+

lemma safe_getBlock:
  assumes "fits h0 [(result, nat (sint sz))]"
  shows "safe (framed h0 [(result, nat (sint sz))]) (getBlock L address result sz)"
  unfolding getBlock_def using assms
  by (intro safe_intros safe_fetch; (assumption | auto dest!: size_matchesD))

lemma safe_getList:
  assumes "fits h0 [(result, nat (sint sz))]" and "in_bounds h0 addresses (nat (sint sz))"
    and "0 \<le> sint sz" and "sint sz < 2 ^ 31"
  shows "safe (framed h0 [(result, nat (sint sz))]) (getList L addresses result sz)"
  unfolding getList_def using assms
  by (intro safe_intros safe_fetch; (assumption | auto simp: unat_ucast_ssize dest!: size_matchesD))

end

end
