(* ===== verification/Rpc_Sca.thy ===== *)
theory Rpc_Sca
  imports Rpc_Utils
begin

text \<open>
  \<^verbatim>\<open>xhalcore/src/common/rpc_manager/sca.cc\<close>: readout of the ADC sensors of the slow control chips.
  Every function expects a reply whose length is a number of sensors times the number of
  optohybrids selected by \<^verbatim>\<open>ohMask\<close>, counted by \<^verbatim>\<open>count_1bits\<close>.
\<close>

text \<open>The common tail: the reply's \<^verbatim>\<open>data\<close> array of the expected size is copied to the caller.\<close>

definition fetch_data :: "('m, 's) rpc_lib \<Rightarrow> string \<Rightarrow> u32 \<Rightarrow> ptr \<Rightarrow> ('m, 's, 'x) rpc_stmt" where
  "fetch_data L k sz result =
     IF (key_exists L k)
       (ASSERT_get_word_array L k (\<lambda>n. n = sz) result)
       (RETURN 1)"

text \<open>\<^verbatim>\<open>if (rsp.get_key_exists("error")) { printf(... rsp.get_string("error") ...); return r; }\<close>\<close>

definition check_error :: "('m, 's) rpc_lib \<Rightarrow> u32 \<Rightarrow> ('m, 's, 'x) rpc_stmt" where
  "check_error L r =
     IF (key_exists L ''error'') (block [print_string L ''error'', RETURN r]) SKIP"

lemma safe_check_error [safe_intros]: "safe (framed h0 W) (check_error L r)"
  unfolding check_error_def by (intro safe_intros)

context rpc_msg
begin

lemma safe_fetch_data:
  assumes "fits h0 W" and "result \<in> fst ` set W" and "unat sz \<le> cap W result"
  shows "safe (framed h0 W) (fetch_data L k sz result)"
  unfolding fetch_data_def using assms by (intro safe_intros safe_fetch) auto

end

lemmas sca_stmt_defs [stmt_simps] = fetch_data_def check_error_def

definition readSCAADCSensor :: "('m, 's) rpc_lib \<Rightarrow> u32 \<Rightarrow> u32 \<Rightarrow> ptr \<Rightarrow> ('m, 's, 'x) rpc_stmt" where
  "readSCAADCSensor L ohMask ch result = block
     [req_new L ''amc.readSCAADCSensor'',
      set_word L ''ohMask'' ohMask,
      set_word L ''ch'' ch,
      TRY (call_method L) STANDARD_CATCH,
      check_error L 1,
      fetch_data L ''data'' (count_1bits ohMask) result,
      RETURN 0]"

definition readSCAADCTemperatureSensors :: "('m, 's) rpc_lib \<Rightarrow> u32 \<Rightarrow> ptr \<Rightarrow> ('m, 's, 'x) rpc_stmt" where
  "readSCAADCTemperatureSensors L ohMask result = block
     [req_new L ''sca.readSCAADCTemperatureSensors'',
      set_word L ''ohMask'' ohMask,
      TRY (call_method L) STANDARD_CATCH,
      check_error L 1,
      fetch_data L ''data'' (count_1bits ohMask * 5) result,
      RETURN 0]"

definition readSCAADCVoltageSensors :: "('m, 's) rpc_lib \<Rightarrow> u32 \<Rightarrow> ptr \<Rightarrow> ('m, 's, 'x) rpc_stmt" where
  "readSCAADCVoltageSensors L ohMask result = block
     [req_new L ''sca.readSCAADCVoltageSensors'',
      set_word L ''ohMask'' ohMask,
      TRY (call_method L) STANDARD_CATCH,
      check_error L 1,
      fetch_data L ''data'' (count_1bits ohMask * 6) result,
      RETURN 0]"

definition readSCAADCSignalStrengthSensors :: "('m, 's) rpc_lib \<Rightarrow> u32 \<Rightarrow> ptr \<Rightarrow> ('m, 's, 'x) rpc_stmt" where
  "readSCAADCSignalStrengthSensors L ohMask result = block
     [req_new L ''sca.readSCAADCSignalStrengthSensors'',
      set_word L ''ohMask'' ohMask,
      TRY (call_method L) STANDARD_CATCH,
      check_error L 1,
      fetch_data L ''data'' (count_1bits ohMask * 3) result,
      RETURN 0]"

definition readAllSCAADCSensors :: "('m, 's) rpc_lib \<Rightarrow> u32 \<Rightarrow> ptr \<Rightarrow> ('m, 's, 'x) rpc_stmt" where
  "readAllSCAADCSensors L ohMask result = block
     [req_new L ''sca.readAllSCAADCSensors'',
      set_word L ''ohMask'' ohMask,
      TRY (call_method L) STANDARD_CATCH,
      check_error L 1,
      fetch_data L ''data'' (count_1bits ohMask * 14) result,
      RETURN 0]"

section \<open>Contracts\<close>

context rpc_msg
begin

lemma sca_safe:
  "fits h0 [(result, unat (count_1bits ohMask))] \<Longrightarrow>
    safe (framed h0 [(result, unat (count_1bits ohMask))]) (readSCAADCSensor L ohMask ch result)"
  "fits h0 [(result, unat (count_1bits ohMask * 5))] \<Longrightarrow>
    safe (framed h0 [(result, unat (count_1bits ohMask * 5))]) (readSCAADCTemperatureSensors L ohMask result)"
  "fits h0 [(result, unat (count_1bits ohMask * 6))] \<Longrightarrow>
    safe (framed h0 [(result, unat (count_1bits ohMask * 6))]) (readSCAADCVoltageSensors L ohMask result)"
  "fits h0 [(result, unat (count_1bits ohMask * 3))] \<Longrightarrow>
    safe (framed h0 [(result, unat (count_1bits ohMask * 3))]) (readSCAADCSignalStrengthSensors L ohMask result)"
  "fits h0 [(result, unat (count_1bits ohMask * 14))] \<Longrightarrow>
    safe (framed h0 [(result, unat (count_1bits ohMask * 14))]) (readAllSCAADCSensors L ohMask result)"
  unfolding readSCAADCSensor_def readSCAADCTemperatureSensors_def readSCAADCVoltageSensors_def
    readSCAADCSignalStrengthSensors_def readAllSCAADCSensors_def
  by (intro safe_intros safe_fetch_data; (assumption | simp))+

end

end
