(* ===== verification/Rpc_Reference.thy ===== *)
theory Rpc_Reference
  imports Rpc_Msg
begin

text \<open>
  A reference implementation of the message class and of a service, with messages as association
  lists. It shows that the laws of \<open>rpc_msg_store\<close> can hold and is what the witnesses run on.
\<close>

datatype mval = MWord u32 | MString string | MWordArray "u32 list" | MStringArray "string list"
  | MBinary "u8 list"

type_synonym rmsg = "string \<times> (string \<times> mval) list"

text \<open>
  The service is disconnected, connected to a remote side that answers each message by a function,
  or connected to a card whose \<^verbatim>\<open>memory\<close> module accesses a register file.
\<close>

datatype rsvc = Offline | Answering "rmsg \<Rightarrow> cxx_exn + rmsg" | Registers "u32 \<Rightarrow> u32"

definition ref_lookup :: "rmsg \<Rightarrow> string \<Rightarrow> mval option" where
  "ref_lookup m k = map_of (snd m) k"

definition ref_put :: "rmsg \<Rightarrow> string \<Rightarrow> mval \<Rightarrow> cxx_exn + rmsg" where
  "ref_put m k v = Inr (fst m, (k, v) # snd m)"

definition ref_get_word :: "rmsg \<Rightarrow> string \<Rightarrow> cxx_exn + u32" where
  "ref_get_word m k = (case ref_lookup m k of
      None \<Rightarrow> Inl (BadKeyException k) | Some (MWord w) \<Rightarrow> Inr w | Some _ \<Rightarrow> Inl TypeException)"

definition ref_get_string :: "rmsg \<Rightarrow> string \<Rightarrow> cxx_exn + string" where
  "ref_get_string m k = (case ref_lookup m k of
      None \<Rightarrow> Inl (BadKeyException k) | Some (MString w) \<Rightarrow> Inr w | Some _ \<Rightarrow> Inl TypeException)"

definition ref_get_word_array :: "rmsg \<Rightarrow> string \<Rightarrow> cxx_exn + u32 list" where
  "ref_get_word_array m k = (case ref_lookup m k of
      None \<Rightarrow> Inl (BadKeyException k)
    | Some (MWordArray ws) \<Rightarrow> if length ws < 2 ^ 32 then Inr ws else Inl BufferTooSmallException
    | Some _ \<Rightarrow> Inl TypeException)"

definition ref_get_word_array_size :: "rmsg \<Rightarrow> string \<Rightarrow> cxx_exn + u32" where
  "ref_get_word_array_size m k =
     (case ref_get_word_array m k of Inl e \<Rightarrow> Inl e | Inr ws \<Rightarrow> Inr (of_nat (length ws)))"

definition ref_memory :: "(u32 \<Rightarrow> u32) \<Rightarrow> rmsg \<Rightarrow> (cxx_exn + rmsg) \<times> rsvc" where
  "ref_memory regs m =
     (case (ref_get_word m ''address'', ref_get_word_array m ''data'') of
        (Inr a, Inr [w]) \<Rightarrow> (Inr ([], []), Registers (regs(a := w)))
      | (Inr a, _) \<Rightarrow> (Inr ([], [(''data'', MWordArray [regs a])]), Registers regs)
      | (Inl e, _) \<Rightarrow> (Inr ([], [(''error'', MString [])]), Registers regs))"

definition ref_call :: "rsvc \<Rightarrow> rmsg \<Rightarrow> (cxx_exn + rmsg) \<times> rsvc" where
  "ref_call v m = (case v of
      Offline \<Rightarrow> (Inl (NotConnectedException []), v)
    | Answering f \<Rightarrow> (f m, v)
    | Registers regs \<Rightarrow> ref_memory regs m)"

definition ref_lib :: "(rmsg, rsvc) rpc_lib" where
  "ref_lib = \<lparr>
     RPCMsg_new = (\<lambda>method. (method, [])),
     RPCMsg_get_key_exists = (\<lambda>m k. ref_lookup m k \<noteq> None),
     RPCMsg_get_string = ref_get_string,
     RPCMsg_get_word = ref_get_word,
     RPCMsg_get_word_array_size = ref_get_word_array_size,
     RPCMsg_get_word_array = ref_get_word_array,
     RPCMsg_set_string = (\<lambda>m k v. ref_put m k (MString v)),
     RPCMsg_set_string_array = (\<lambda>m k v. ref_put m k (MStringArray v)),
     RPCMsg_set_word = (\<lambda>m k v. ref_put m k (MWord v)),
     RPCMsg_set_word_array = (\<lambda>m k v. ref_put m k (MWordArray v)),
     RPCMsg_set_binarydata = (\<lambda>m k v. ref_put m k (MBinary v)),
     RPCSvc_connect = (\<lambda>v host. ((case v of Offline \<Rightarrow> Some (ConnectionFailedException host) | _ \<Rightarrow> None), v)),
     RPCSvc_disconnect = (\<lambda>v. ((case v of Offline \<Rightarrow> Some (NotConnectedException []) | _ \<Rightarrow> None), Offline)),
     RPCSvc_load_module = (\<lambda>v name version. (Inr True, v)),
     RPCSvc_call_method = ref_call\<rparr>"

lemmas ref_defs = ref_lib_def ref_lookup_def ref_put_def ref_get_word_def ref_get_string_def
  ref_get_word_array_def ref_get_word_array_size_def ref_call_def ref_memory_def

interpretation ref: rpc_msg_store ref_lib
proof unfold_locales
  fix m k ws n
  assume ws: "RPCMsg_get_word_array ref_lib m k = Inr ws"
    and n: "RPCMsg_get_word_array_size ref_lib m k = Inr n"
  from ws have "ref_get_word_array m k = Inr ws" by (simp add: ref_lib_def)
  moreover have "length ws < 2 ^ 32"
    using ws by (auto simp: ref_lib_def ref_get_word_array_def split: option.splits mval.splits if_splits)
  ultimately show "unat n = length ws"
    using n by (auto simp: ref_lib_def ref_get_word_array_size_def unat_of_nat)
qed (auto simp: ref_defs)

text \<open>The initial client state over the reference implementation.\<close>

definition ref_state :: "rsvc \<Rightarrow> heap \<Rightarrow> (rmsg, rsvc) rpc_state" where
  "ref_state v h = \<lparr>svc = v, req = ([], []), rsp = ([], []), heap = h, files = Map.empty, result_var = None\<rparr>"

end
