(* ===== verification/Rpc_Bits.thy ===== *)
theory Rpc_Bits
  imports Rpc_Sca Rpc_Reference
begin

text \<open>
  The bit count of \<^verbatim>\<open>utils.cc\<close>, which sizes the replies of the sensor readout, against a reference
  count. The routine adds the counts of the eight four-bit groups pairwise into bytes and then sums
  the bytes, without first folding the two groups of a byte together.
\<close>

text \<open>Reference: the number of ones of the binary representation, and the groups of four bits.\<close>

fun popcount :: "nat \<Rightarrow> nat" where
  "popcount n = (if n = 0 then 0 else n mod 2 + popcount (n div 2))"
declare popcount.simps [simp del]

text \<open>The constant whose \<open>n\<close> groups of four bits are all \<open>c\<close>.\<close>

fun rep :: "nat \<Rightarrow> nat \<Rightarrow> nat" where
  "rep c 0 = 0"
| "rep c (Suc n) = c + 16 * rep c n"

lemma and_nibble:
  fixes d c r s :: nat
  assumes "c < 16"
  shows "(d + 16 * r) AND (c + 16 * s) = (d mod 16 AND c) + 16 * ((r + d div 16) AND s)"
proof -
  have *: "x AND y = ((x mod 16) AND (y mod 16)) + 16 * ((x div 16) AND (y div 16))" for x y :: nat
  proof -
    have "take_bit 4 (x AND y) = (take_bit 4 x AND take_bit 4 y)" by simp
    moreover have "drop_bit 4 (x AND y) = (drop_bit 4 x AND drop_bit 4 y)" by simp
    moreover have "x AND y = take_bit 4 (x AND y) + push_bit 4 (drop_bit 4 (x AND y))"
      by (metis add.commute bits_ident)
    ultimately show ?thesis by (simp add: take_bit_eq_mod drop_bit_eq_div push_bit_eq_mult)
  qed
  show ?thesis using * [of "d + 16 * r" "c + 16 * s"] assms by simp
qed

lemma rep_numeral [simp]: "rep c (numeral k) = c + 16 * rep c (pred_numeral k)"
  by (simp add: numeral_eq_Suc)

text \<open>The first two statements of the routine on \<open>n\<close> groups, over the natural numbers.\<close>

definition fold2 :: "nat \<Rightarrow> nat \<Rightarrow> nat" where
  "fold2 n x = (let x1 = x - (x div 2 AND rep 5 n)
                in (x1 AND rep 3 n) + (x1 div 4 AND rep 3 n))"


lemma and3: "x AND 3 = x mod (4::nat)"
proof -
  have "x AND mask 2 = take_bit 2 x" by (simp add: take_bit_eq_mask)
  then show ?thesis by (simp add: take_bit_eq_mod mask_eq_exp_minus_1)
qed

lemma tab5: assumes "a < 8" "b < 2" shows "(a + 8 * b) AND 5 = (a AND 5 :: nat)"
proof -
  have "a = 0 \<or> a = 1 \<or> a = 2 \<or> a = 3 \<or> a = 4 \<or> a = 5 \<or> a = 6 \<or> a = 7" and "b = 0 \<or> b = 1"
    using assms by linarith+
  then show ?thesis by (elim disjE) simp_all
qed

lemma halve_and_rep: assumes "d < 16"
  shows "(d + 16 * r) div 2 AND rep 5 (Suc n) = (d div 2 AND 5) + 16 * (r div 2 AND rep 5 n)"
proof -
  have "(d + 2 * (8 * r)) div 2 = 8 * r + d div 2" by (rule div_mult_self2) simp
  then have "(d + 16 * r) div 2 = (d div 2 + 8 * (r mod 2)) + 16 * (r div 2)"
    using mult_div_mod_eq [of 2 r] by linarith
  moreover have "(d div 2 + 8 * (r mod 2)) AND 5 = d div 2 AND 5"
    using assms by (intro tab5) auto
  moreover have "d div 2 + 8 * (r mod 2) < 16" using assms by presburger
  ultimately show ?thesis using and_nibble [of 5 "d div 2 + 8 * (r mod 2)" "r div 2" "rep 5 n"]
    by (simp del: mod_mult_self1)
qed

lemma quarter_and_rep: assumes "e < 16"
  shows "(e + 16 * r) div 4 AND rep 3 (Suc n) = e div 4 + 16 * (r div 4 AND rep 3 n)"
proof -
  have "(e + 4 * (4 * r)) div 4 = 4 * r + e div 4" by (rule div_mult_self2) simp
  then have "(e + 16 * r) div 4 = (e div 4 + 4 * (r mod 4)) + 16 * (r div 4)"
    using mult_div_mod_eq [of 4 r] by linarith
  moreover have "(e div 4 + 4 * (r mod 4)) AND 3 = e div 4"
    using assms unfolding and3 by (simp add: less_mult_imp_div_less)
  moreover have "e div 4 + 4 * (r mod 4) < 16" using assms by presburger
  ultimately show ?thesis using and_nibble [of 3 "e div 4 + 4 * (r mod 4)" "r div 4" "rep 3 n"]
    by (simp del: mod_mult_self1)
qed

lemma and_rep3: assumes "e < 16"
  shows "(e + 16 * r) AND rep 3 (Suc n) = e mod 4 + 16 * (r AND rep 3 n)"
  using assms and_nibble [of 3 e r "rep 3 n"] and3 [of e] by simp

lemma pc_nibble:
  assumes "d < 16"
  shows "d - (d div 2 AND 5) < 16 \<and> (d div 2 AND 5) \<le> d \<and>
    (d - (d div 2 AND 5)) mod 4 + (d - (d div 2 AND 5)) div 4 = popcount d \<and> popcount d \<le> 4"
proof -
  have "d = 0 \<or> d = 1 \<or> d = 2 \<or> d = 3 \<or> d = 4 \<or> d = 5 \<or> d = 6 \<or> d = 7 \<or> d = 8
    \<or> d = 9 \<or> d = 10 \<or> d = 11 \<or> d = 12 \<or> d = 13 \<or> d = 14 \<or> d = 15"
    using assms by presburger
  then show ?thesis by (elim disjE) (simp_all add: popcount.simps)
qed

lemma and_half: "r div 2 AND m \<le> (r::nat)"
proof -
  have "int (r div 2) AND int m \<le> int (r div 2)" by (rule AND_upper1) simp
  then have "r div 2 AND m \<le> r div 2" by (simp add: flip: of_nat_and_eq)
  then show ?thesis by linarith
qed

lemma fold2_Suc:
  assumes "d < 16"
  shows "fold2 (Suc n) (d + 16 * r) = popcount d + 16 * fold2 n r"
proof -
  let ?e = "d - (d div 2 AND 5)" and ?r = "r - (r div 2 AND rep 5 n)"
  note pc = pc_nibble [OF assms]
  have le: "(d div 2 AND 5) \<le> d" "(r div 2 AND rep 5 n) \<le> r" using pc and_half by auto
  have "(d + 16 * r) - ((d + 16 * r) div 2 AND rep 5 (Suc n)) = ?e + 16 * ?r"
    unfolding halve_and_rep [OF assms] using le by (simp add: diff_mult_distrib2)
  then show ?thesis
    using pc unfolding fold2_def Let_def by (simp only: quarter_and_rep and_rep3) simp
qed

lemma popcount_halve: "popcount (2 * r + b) = b + popcount r" if "b < 2"
  using that by (subst popcount.simps) (auto simp: popcount.simps [of 0])

lemma popcount_nibble: "popcount (d + 16 * r) = popcount d + popcount r" if "d < 16" for d r
proof -
  have bits: "popcount (2 * (2 * (2 * (2 * q + c3) + c2) + c1) + c0) = popcount q + c0 + c1 + c2 + c3"
    if "c0 < 2" "c1 < 2" "c2 < 2" "c3 < 2" for q c0 c1 c2 c3
    by (simp only: popcount_halve [OF that(1)] popcount_halve [OF that(2)] popcount_halve [OF that(3)]
      popcount_halve [OF that(4)])
  have chain: "2 * a + x = q \<Longrightarrow> 2 * b + y = a \<Longrightarrow> 2 * c + z = b \<Longrightarrow> q = 2 * (2 * (2 * c + z) + y) + x"
    for a b c x y z q :: nat by simp
  define c0 c1 c2 c3 where "c0 = d mod 2" and "c1 = d div 2 mod 2" and "c2 = d div 4 mod 2" and "c3 = d div 8"
  note defs = this
  have c: "c0 < 2" "c1 < 2" "c2 < 2" "c3 < 2" using that by (simp_all add: defs)
  have "d div 2 div 2 = d div 4" "d div 4 div 2 = d div 8" by (simp_all flip: div_mult2_eq)
  then have d: "d = 2 * (2 * (2 * c3 + c2) + c1) + c0"
    using chain [OF mult_div_mod_eq [of 2 d] mult_div_mod_eq [of 2 "d div 2"]] mult_div_mod_eq [of 2 "d div 4"]
    unfolding defs by simp
  have "d + 16 * r = 2 * (2 * (2 * (2 * r + c3) + c2) + c1) + c0" unfolding d by simp
  then show ?thesis
    using bits [OF c, of r] bits [OF c, of 0] popcount.simps [of 0] d by (simp add: ac_simps)
qed

lemma fold2_0: "fold2 0 r = 0" by (simp add: fold2_def)

text \<open>The last three statements over the natural numbers.\<close>

definition byte_sum :: "nat \<Rightarrow> nat" where
  "byte_sum x = (let x3 = x + x div 2 ^ 8; x4 = x3 + x3 div 2 ^ 16 in x4 mod 64)"

lemma byte_sum_bytes:
  assumes "b0 < 100" "b1 < 100" "b2 < 100" "b3 < 100"
  shows "byte_sum (b0 + 256 * (b1 + 256 * (b2 + 256 * b3))) = (b0 + b1 + b2 + b3) mod 64"
proof -
  have 1: "(b0 + 256 * (b1 + 256 * (b2 + 256 * b3))) div 2 ^ 8 = b1 + 256 * (b2 + 256 * b3)"
    using assms by simp
  have 2: "b0 + 256 * (b1 + 256 * (b2 + 256 * b3)) + (b1 + 256 * (b2 + 256 * b3))
    = ((b0 + b1) + 256 * (b1 + b2)) + 2 ^ 16 * (b2 + b3 + 256 * b3)" by simp
  have 3: "((b0 + b1) + 256 * (b1 + b2) + 2 ^ 16 * (b2 + b3 + 256 * b3)) div 2 ^ 16 = b2 + b3 + 256 * b3"
    using assms by (subst div_mult_self2) auto
  have 4: "(b0 + b1) + 256 * (b1 + b2) + 2 ^ 16 * (b2 + b3 + 256 * b3) + (b2 + b3 + 256 * b3)
    = (b0 + b1 + b2 + b3) + 64 * (4 * (b1 + b2) + 1024 * (b2 + b3 + 256 * b3) + 4 * b3)" by simp
  show ?thesis unfolding byte_sum_def Let_def 1 2 3 4 by (rule mod_mult_self2)
qed

lemma unat_drop: "unat (drop_bit n (w :: u32)) = unat w div 2 ^ n"
proof -
  have "take_bit 32 (unat w) = unat w"
    using unsigned_less [of w, where ?'a = nat] by (simp add: take_bit_nat_eq_self)
  then show ?thesis
    by (simp add: unsigned_drop_bit_eq del: drop_bit_eq_div) (simp add: drop_bit_eq_div)
qed

lemma unat_and63: "unat ((w :: u32) AND 0x3F) = unat w mod 64"
proof -
  have "unat w AND mask 6 = take_bit 6 (unat w)" by (simp add: take_bit_eq_mask)
  then show ?thesis by (simp add: unsigned_and_eq take_bit_eq_mod mask_eq_exp_minus_1)
qed

lemma unat_count_1bits:
  assumes "fold2 8 (unat x) \<le> 0x44444444"
  shows "unat (count_1bits x) = byte_sum (fold2 8 (unat x))"
proof -
  let ?x1 = "x - (drop_bit 1 x AND 0x55555555)"
  let ?x2 = "(?x1 AND 0x33333333) + (drop_bit 2 ?x1 AND 0x33333333)"
  let ?x3 = "?x2 + drop_bit 8 ?x2"
  have r5: "rep 5 8 = 0x55555555" and r3: "rep 3 8 = 0x33333333" by simp_all
  have y: "unat (drop_bit 1 x AND 0x55555555) = unat x div 2 AND rep 5 8"
    unfolding r5 unsigned_and_eq unat_drop by simp
  have x1: "unat ?x1 = unat x - (unat x div 2 AND rep 5 8)"
    using and_half [of "unat x" "rep 5 8"] unfolding y [symmetric] by (simp add: unat_sub word_le_nat_alt)
  have x2: "unat ?x2 = fold2 8 (unat x)"
    using assms unfolding fold2_def Let_def r3 x1 [symmetric]
    by (simp add: unat_word_ariths unsigned_and_eq unat_drop)
  then have x3: "unat ?x3 = fold2 8 (unat x) + fold2 8 (unat x) div 2 ^ 8"
    using assms by (simp add: unat_word_ariths(1) unat_drop)
  then have x4: "unat (?x3 + drop_bit 16 ?x3) = unat ?x3 + unat ?x3 div 2 ^ 16"
    using assms by (simp add: unat_word_ariths(1) unat_drop)
  show ?thesis
    unfolding count_1bits_def Let_def unat_and63 x4 x3 byte_sum_def by (rule refl)
qed

lemma horner_bound:
  fixes p0 p1 p2 p3 p4 p5 p6 p7 :: nat
  assumes "p0 \<le> 4" "p1 \<le> 4" "p2 \<le> 4" "p3 \<le> 4" "p4 \<le> 4" "p5 \<le> 4" "p6 \<le> 4" "p7 \<le> 4"
  shows "(p0 + 16 * p1) + 256 * ((p2 + 16 * p3) + 256 * ((p4 + 16 * p5) + 256 * (p6 + 16 * p7))) \<le> 0x44444444"
  using assms by simp

lemma count_1bits_nibbles:
  "unat (count_1bits x) =
    ((\<Sum>i\<in>{0, 2, 4, 6}. popcount (nib (unat x) i)) +
     16 * (\<Sum>i\<in>{1, 3, 5, 7}. popcount (nib (unat x) i))) mod 64"
proof -
  let ?n = "nib (unat x)" and ?p = "\<lambda>i. popcount (nib (unat x) i)"
  have p: "?p i \<le> 4" for i using pc_nibble [OF nib_less] by blast
  have x: "unat x < 2 ^ 32" using unsigned_less [of x] by simp
  have "fold2 8 (unat x) = fold2 (Suc (Suc (Suc (Suc (Suc (Suc (Suc (Suc 0)))))))) (unat x)" by (simp add: eval_nat_numeral)
  also have "\<dots> = (?p 0 + 16 * ?p 1) + 256 * ((?p 2 + 16 * ?p 3) + 256 * ((?p 4 + 16 * ?p 5) + 256 * (?p 6 + 16 * ?p 7)))"
    by (subst nib_split [OF x]) (simp only: fold2_Suc [OF nib_less] fold2_0, simp)
  finally have f: "fold2 8 (unat x) = \<dots>" .
  have "fold2 8 (unat x) \<le> 0x44444444"
    unfolding f using horner_bound [OF p p p p p p p p] .
  from unat_count_1bits [OF this] show ?thesis
    using byte_sum_bytes [of "?p 0 + 16 * ?p 1" "?p 2 + 16 * ?p 3" "?p 4 + 16 * ?p 5" "?p 6 + 16 * ?p 7"]
      p [of 0] p [of 1] p [of 2] p [of 3] p [of 4] p [of 5] p [of 6] p [of 7]
    unfolding f by (simp add: algebra_simps)
qed

lemma popcount_nibbles: "popcount (unat x) = (\<Sum>i\<in>{0, 2, 4, 6}. popcount (nib (unat x) i)) +
    (\<Sum>i\<in>{1, 3, 5, 7}. popcount (nib (unat x) i))" for x :: u32
proof -
  have x: "unat x < 2 ^ 32" using unsigned_less [of x, where ?'a = nat] by simp
  show ?thesis
    by (subst nib_split [OF x]) (simp only: popcount_nibble [OF nib_less], simp add: popcount.simps [of 0])
qed

section \<open>What the routine returns\<close>

text \<open>
  The value \<^verbatim>\<open>count_1bits\<close> returns on every argument: the ones in the even-numbered groups of four
  bits count once, those in the odd-numbered groups count sixteen times, modulo 64.
\<close>

lemma count_1bits_value:
  "unat (count_1bits x) =
    ((\<Sum>i\<in>{0, 2, 4, 6}. popcount (nib (unat x) i)) +
     16 * (\<Sum>i\<in>{1, 3, 5, 7}. popcount (nib (unat x) i))) mod 64"
  by (rule count_1bits_nibbles)

text \<open>
  \<^verbatim>\<open>count_1bits\<close> is the number of ones exactly when the odd-numbered groups of four bits are empty,
  in particular for the masks of up to four optohybrids.
\<close>

lemma popcount_0_iff: "popcount n = 0 \<longleftrightarrow> n = 0"
proof (induction n rule: popcount.induct)
  case (1 n)
  show ?case
  proof (cases "n = 0")
    case False
    then have "popcount n = n mod 2 + popcount (n div 2)" by (subst popcount.simps) simp
    moreover have "n mod 2 \<noteq> 0 \<or> n div 2 \<noteq> 0" using False by presburger
    ultimately show ?thesis using 1 [OF False] False by auto
  qed (simp add: popcount.simps [of 0])
qed

lemma and_odd_groups:
  fixes d e r m :: nat
  assumes "d < 16" and "e < 16"
  shows "(d + 16 * (e + 16 * r)) AND (0 + 16 * (15 + 16 * m)) = 16 * (e + 16 * (r AND m))"
proof -
  have "e AND 15 = e" using assms(2) take_bit_eq_mask [of 4 e] by (simp add: take_bit_eq_mod mask_eq_exp_minus_1)
  then have "(e + 16 * r) AND (15 + 16 * m) = e + 16 * (r AND m)" using assms(2) and_nibble [of 15 e r m] by simp
  then show ?thesis using assms(1) and_nibble [of 0 d "e + 16 * r" "15 + 16 * m"] by simp
qed

lemma and_F0F0F0F0: "x AND 0xF0F0F0F0 = 0 \<longleftrightarrow>
    nib (unat x) 1 = 0 \<and> nib (unat x) 3 = 0 \<and> nib (unat x) 5 = 0 \<and> nib (unat x) 7 = 0" for x :: u32
proof -
  let ?n = "nib (unat x)"
  have x: "unat x < 2 ^ 32" using unsigned_less [of x, where ?'a = nat] by simp
  have "unat (x AND 0xF0F0F0F0) = unat x AND 0xF0F0F0F0" by (simp add: unsigned_and_eq)
  also have "\<dots> = (?n 0 + 16 * (?n 1 + 16 * (?n 2 + 16 * (?n 3 + 16 * (?n 4 + 16 * (?n 5 + 16 * (?n 6 + 16 * (?n 7 + 16 * 0))))))))
      AND (0 + 16 * (15 + 16 * (0 + 16 * (15 + 16 * (0 + 16 * (15 + 16 * (0 + 16 * (15 + 16 * 0))))))))"
    using nib_split [OF x] by simp
  also have "\<dots> = 16 * (?n 1 + 16 * (16 * (?n 3 + 16 * (16 * (?n 5 + 16 * (16 * (?n 7 + 16 * (0 AND 0))))))))"
    by (simp only: and_odd_groups [OF nib_less nib_less])
  finally show ?thesis by (simp add: word_unat_eq_iff)
qed

lemma count_1bits_correct: "unat (count_1bits x) = popcount (unat x) \<longleftrightarrow> x AND 0xF0F0F0F0 = 0"
proof -
  let ?p = "\<lambda>i. popcount (nib (unat x) i)"
  let ?E = "\<Sum>i\<in>{0, 2, 4, 6}. ?p i" and ?O = "\<Sum>i\<in>{1, 3, 5, 7}. ?p i"
  have p: "?p i \<le> 4" for i using pc_nibble [OF nib_less] by blast
  have le: "?E \<le> 16" "?O \<le> 16"
    using p [of 0] p [of 1] p [of 2] p [of 3] p [of 4] p [of 5] p [of 6] p [of 7] by simp_all
  have "(E + 16 * D) mod 64 = E + D \<longleftrightarrow> D = 0" if "E \<le> 16" "D \<le> 16" for E D :: nat
  proof
    assume "(E + 16 * D) mod 64 = E + D"
    then have "(E + 16 * D) mod 64 = (E + D) mod 64" using that by simp
    then have "64 dvd (E + 16 * D) - (E + D)" by (subst mod_eq_dvd_iff_nat [symmetric]) simp_all
    then have "64 dvd 15 * D" by simp
    moreover have "coprime 64 (15 :: nat)" by (simp add: coprime_iff_gcd_eq_1 gcd_non_0_nat)
    ultimately have "64 dvd D" by (simp add: coprime_dvd_mult_right_iff)
    with that(2) show "D = 0" by (auto dest: dvd_imp_le)
  qed (use that in simp)
  from this [OF le] have "unat (count_1bits x) = popcount (unat x) \<longleftrightarrow> ?O = 0"
    unfolding count_1bits_nibbles popcount_nibbles .
  then show ?thesis unfolding and_F0F0F0F0 by (simp add: popcount_0_iff)
qed

section \<open>Property\<close>

text \<open>
  C8: a reply with one value for each selected optohybrid, which is what \<^verbatim>\<open>readSCAADCSensor\<close> asks for, is
  copied to the caller and 0 is returned exactly when the mask has no bit in the groups 4 to 7, 12 to 15, 20 to
  23 and 28 to 31; otherwise \<^verbatim>\<open>count_1bits\<close> does not count the bits of the mask, and the reply is refused
  with 1 and the caller's memory is unchanged. So it is for the mask \<^verbatim>\<open>0xfff\<close> of all twelve optohybrids.
\<close>

theorem sensor_readout_reply:
  fixes s :: "('m, 's, 'x) rpc_state_scheme"
  assumes "rpc_msg_store L" and "\<And>m. \<exists>v. RPCSvc_call_method L (svc s) m = (Inr r, v)"
    and "\<not> RPCMsg_get_key_exists L r ''error''" and "RPCMsg_get_key_exists L r ''data''"
    and "RPCMsg_get_word_array_size L r ''data'' = Inr n" and "unat n = popcount (unat ohMask)"
    and "RPCMsg_get_word_array L r ''data'' = Inr ws" and "in_bounds (heap s) p (length ws)"
  shows "(ohMask AND 0xF0F0F0F0 = 0 \<longrightarrow> (\<exists>t. readSCAADCSensor L ohMask ch p s = Return 0 t \<and>
      heap t = (heap s)(fst p := overwrite (heap s (fst p)) (snd p) ws))) \<and>
    (ohMask AND 0xF0F0F0F0 \<noteq> 0 \<longrightarrow> (\<exists>t. readSCAADCSensor L ohMask ch p s = Return 1 t \<and> heap t = heap s)) \<and>
    (ohMask = 0xfff \<longrightarrow> (\<exists>t. readSCAADCSensor L ohMask ch p s = Return 1 t \<and> heap t = heap s))"
proof -
  obtain m1 where m1: "RPCMsg_set_word L (RPCMsg_new L ''amc.readSCAADCSensor'') ''ohMask'' ohMask = Inr m1"
    using rpc_msg_store.set_word_ok [OF assms(1), where k = "''ohMask''"] by auto
  obtain m2 where m2: "RPCMsg_set_word L m1 ''ch'' ch = Inr m2"
    using rpc_msg_store.set_word_ok [OF assms(1), where k = "''ch''"] by auto
  obtain v where "RPCSvc_call_method L (svc s) m2 = (Inr r, v)" using assms(2) by blast
  moreover have "n = count_1bits ohMask \<longleftrightarrow> ohMask AND 0xF0F0F0F0 = 0"
    unfolding count_1bits_correct [symmetric] using assms(6) by (metis word_unat_eq_iff)
  ultimately show ?thesis
    using m1 m2 assms(3-5,7,8) by (auto simp: readSCAADCSensor_def stmt_simps)
qed

definition twelve_words :: rsvc where
  "twelve_words = Answering (\<lambda>m. Inr ([], [(''data'', MWordArray (replicate 12 5))]))"

theorem sensor_readout_reply_witness:
  "\<exists>t. readSCAADCSensor ref_lib 0xfff 0 (0, 0) (ref_state twelve_words (\<lambda>b. replicate 12 0)) = Return 1 t \<and>
    heap t = (\<lambda>b. replicate 12 0)"
proof -
  have "\<exists>v. RPCSvc_call_method ref_lib twelve_words m = (Inr ([], [(''data'', MWordArray (replicate 12 5))]), v)" for m
    by (simp add: ref_defs twelve_words_def)
  moreover have "popcount (unat (0xfff :: u32)) = 12" by (simp add: popcount.simps)
  ultimately show ?thesis
    using sensor_readout_reply [OF ref.rpc_msg_store_axioms, where s = "ref_state twelve_words (\<lambda>b. replicate 12 0)"
        and r = "([], [(''data'', MWordArray (replicate 12 5))])" and n = 12 and ohMask = "0xfff" and ch = 0
        and p = "(0, 0)" and ws = "replicate 12 5"]
    by (simp add: ref_state_def ref_defs in_bounds_def)
qed

end
