(* ===== verification/Rpc_Daq_Monitor.thy ===== *)
theory Rpc_Daq_Monitor
  imports Rpc_Sca
begin

text \<open>
  \<^verbatim>\<open>xhalcore/src/common/rpc_manager/daq_monitor.cc\<close>: the monitoring tables. The replies carry one
  word per key; the keys of a table over the optohybrids are \<^verbatim>\<open>OH<n>.<name>\<close>, and column \<open>c\<close> of
  optohybrid \<open>n\<close> is stored at index \<open>n + c * noh\<close>, computed in 32 bits.
\<close>

section \<open>Layout of the monitor structures\<close>

text \<open>
  A structure is a run of cells, one per scalar; a member is its first cell and its number of
  elements. The number of cells of each structure follows its members.
\<close>

type_synonym member = "nat \<times> nat"

definition OHLinkMonitor_size :: nat where "OHLinkMonitor_size = 12"
definition gbtRdy :: member where "gbtRdy = (0, 3)"
definition gbtNotRdy :: member where "gbtNotRdy = (3, 3)"
definition gbtRxOverflow :: member where "gbtRxOverflow = (6, 3)"
definition gbtRxUnderflow :: member where "gbtRxUnderflow = (9, 3)"

definition SCAMonitor_size :: nat where "SCAMonitor_size = 20"
definition ohBoardTemp :: member where "ohBoardTemp = (0, 9)"
definition scaTemp :: member where "scaTemp = (9, 1)"
definition AVCCN :: member where "AVCCN = (10, 1)"
definition AVTTN :: member where "AVTTN = (11, 1)"
definition voltage1V0_INT :: member where "voltage1V0_INT = (12, 1)"
definition voltage1V8F :: member where "voltage1V8F = (13, 1)"
definition voltage1V5 :: member where "voltage1V5 = (14, 1)"
definition voltage2V5_IO :: member where "voltage2V5_IO = (15, 1)"
definition voltage3V0 :: member where "voltage3V0 = (16, 1)"
definition voltage1V8 :: member where "voltage1V8 = (17, 1)"
definition VTRX_RSSI2 :: member where "VTRX_RSSI2 = (18, 1)"
definition VTRX_RSSI1 :: member where "VTRX_RSSI1 = (19, 1)"

definition SysmonMonitor_size :: nat where "SysmonMonitor_size = 9"
definition isOverTemp :: member where "isOverTemp = (0, 1)"
definition isInVCCAuxAlarm :: member where "isInVCCAuxAlarm = (1, 1)"
definition isInVCCIntAlarm :: member where "isInVCCIntAlarm = (2, 1)"
definition cntOverTemp :: member where "cntOverTemp = (3, 1)"
definition cntVCCAuxAlarm :: member where "cntVCCAuxAlarm = (4, 1)"
definition cntVCCIntAlarm :: member where "cntVCCIntAlarm = (5, 1)"
definition fpgaCoreTemp :: member where "fpgaCoreTemp = (6, 1)"
definition fpgaCore1V0 :: member where "fpgaCore1V0 = (7, 1)"
definition fpgaCore2V5_IO :: member where "fpgaCore2V5_IO = (8, 1)"

definition VFATLinkMonitor_size :: nat where "VFATLinkMonitor_size = 72"
definition daqCRCErrCnt :: member where "daqCRCErrCnt = (0, 24)"
definition daqEvtCnt :: member where "daqEvtCnt = (24, 24)"
definition syncErrCnt :: member where "syncErrCnt = (48, 24)"

lemmas member_defs = OHLinkMonitor_size_def gbtRdy_def gbtNotRdy_def gbtRxOverflow_def
  gbtRxUnderflow_def SCAMonitor_size_def ohBoardTemp_def scaTemp_def AVCCN_def AVTTN_def
  voltage1V0_INT_def voltage1V8F_def voltage1V5_def voltage2V5_IO_def voltage3V0_def voltage1V8_def
  VTRX_RSSI2_def VTRX_RSSI1_def SysmonMonitor_size_def isOverTemp_def isInVCCAuxAlarm_def
  isInVCCIntAlarm_def cntOverTemp_def cntVCCAuxAlarm_def cntVCCIntAlarm_def fpgaCoreTemp_def
  fpgaCore1V0_def fpgaCore2V5_IO_def VFATLinkMonitor_size_def daqCRCErrCnt_def daqEvtCnt_def
  syncErrCnt_def

text \<open>Cell of element \<open>i\<close> of member \<open>m\<close> of \<^verbatim>\<open>p[n]\<close>; an index past the member is undefined.\<close>

definition cell :: "nat \<Rightarrow> nat \<Rightarrow> member \<Rightarrow> nat \<Rightarrow> nat option" where
  "cell sz n m i = (if i < snd m then Some (n * sz + fst m + i) else None)"

text \<open>\<^verbatim>\<open>p[n].m[i] = rsp.get_word(k)\<close>, also with the conversion to \<^verbatim>\<open>bool\<close>, and \<^verbatim>\<open>p[n].m[i] = w\<close>.\<close>

definition set_member ::
  "('m, 's) rpc_lib \<Rightarrow> ptr \<Rightarrow> nat \<Rightarrow> nat \<Rightarrow> member \<Rightarrow> nat \<Rightarrow> string \<Rightarrow> ('m, 's, 'x) rpc_stmt" where
  "set_member L p sz n m i k = LET_opt (cell sz n m i) (\<lambda>c. assign_word L p c k)"

definition set_member_bool ::
  "('m, 's) rpc_lib \<Rightarrow> ptr \<Rightarrow> nat \<Rightarrow> nat \<Rightarrow> member \<Rightarrow> nat \<Rightarrow> string \<Rightarrow> ('m, 's, 'x) rpc_stmt" where
  "set_member_bool L p sz n m i k =
     LET_opt (cell sz n m i) (\<lambda>c. assign_conv L (\<lambda>w. of_bool (w \<noteq> 0)) p c k)"

definition put_member :: "ptr \<Rightarrow> nat \<Rightarrow> nat \<Rightarrow> member \<Rightarrow> nat \<Rightarrow> u32 \<Rightarrow> ('m, 's, 'x) rpc_stmt" where
  "put_member p sz n m i w = LET_opt (cell sz n m i) (\<lambda>c. store_words (ptr_add p c) [w])"

section \<open>Common parts\<close>

text \<open>\<^verbatim>\<open>try { if (error) { printf(get_string("error")); return 1; } else { body } } STANDARD_CATCH\<close>\<close>

definition monitor_reply :: "('m, 's) rpc_lib \<Rightarrow> ('m, 's, 'x) rpc_stmt \<Rightarrow> ('m, 's, 'x) rpc_stmt" where
  "monitor_reply L body =
     TRY (IF (key_exists L ''error'') (block [print_string L ''error'', RETURN 1]) body) STANDARD_CATCH"

text \<open>\<^verbatim>\<open>for (ohN < noh) { if (!((ohMask >> ohN) & 0x1)) continue; body }\<close>\<close>

definition FOR_OH :: "u32 \<Rightarrow> u32 \<Rightarrow> (nat \<Rightarrow> ('m, 's, 'x) rpc_stmt) \<Rightarrow> ('m, 's, 'x) rpc_stmt" where
  "FOR_OH noh ohMask body = FOR (unat noh) (\<lambda>ohN. IF_opt (bit_set ohMask ohN) (body ohN) SKIP)"

definition oh_key :: "nat \<Rightarrow> string \<Rightarrow> string" where
  "oh_key ohN name = ''OH'' @ to_string ohN @ ''.'' @ name"

definition oh_gbt_key :: "nat \<Rightarrow> nat \<Rightarrow> string \<Rightarrow> string" where
  "oh_gbt_key ohN gbtN name = oh_key ohN (''GBT'' @ to_string gbtN @ ''.'' @ name)"

definition oh_vfat_key :: "nat \<Rightarrow> nat \<Rightarrow> string \<Rightarrow> string" where
  "oh_vfat_key ohN vfatN name = oh_key ohN (''VFAT'' @ to_string vfatN @ ''.'' @ name)"

text \<open>Index \<^verbatim>\<open>ohN + c*noh\<close> in 32-bit arithmetic.\<close>

definition oh_index :: "u32 \<Rightarrow> nat \<Rightarrow> nat \<Rightarrow> nat" where
  "oh_index noh ohN c = unat (of_nat ohN + of_nat c * noh :: u32)"

section \<open>Tables\<close>

definition getmonTTCmain :: "('m, 's) rpc_lib \<Rightarrow> ptr \<Rightarrow> ('m, 's, 'x) rpc_stmt" where
  "getmonTTCmain L result = block
     [req_new L ''daq_monitor.getmonTTCmain'',
      TRY (call_method L) STANDARD_CATCH,
      monitor_reply L (block
        [assign_word L result 0 ''MMCM_LOCKED'',
         assign_word L result 1 ''TTC_SINGLE_ERROR_CNT'',
         assign_word L result 2 ''BC0_LOCKED'',
         assign_word L result 3 ''L1A_ID'',
         assign_word L result 4 ''L1A_RATE'']),
      RETURN 0]"

definition getmonTRIGGERmain :: "('m, 's) rpc_lib \<Rightarrow> ptr \<Rightarrow> u32 \<Rightarrow> u32 \<Rightarrow> ('m, 's, 'x) rpc_stmt" where
  "getmonTRIGGERmain L result noh ohMask = block
     [req_new L ''daq_monitor.getmonTRIGGERmain'',
      set_word L ''NOH'' noh,
      set_word L ''ohMask'' ohMask,
      TRY (call_method L) STANDARD_CATCH,
      monitor_reply L (block
        [assign_word L result 0 ''OR_TRIGGER_RATE'',
         FOR_OH noh ohMask (\<lambda>ohN.
           assign_word L result (unat (of_nat ohN + 1 :: u32)) (oh_key ohN ''TRIGGER_RATE''))]),
      RETURN 0]"

definition getmonTRIGGEROHmain :: "('m, 's) rpc_lib \<Rightarrow> ptr \<Rightarrow> u32 \<Rightarrow> u32 \<Rightarrow> ('m, 's, 'x) rpc_stmt" where
  "getmonTRIGGEROHmain L result noh ohMask = block
     [req_new L ''daq_monitor.getmonTRIGGEROHmain'',
      set_word L ''NOH'' noh,
      set_word L ''ohMask'' ohMask,
      TRY (call_method L) STANDARD_CATCH,
      monitor_reply L (FOR_OH noh ohMask (\<lambda>ohN. block
        [assign_word L result (oh_index noh ohN 0) (oh_key ohN ''LINK0_MISSED_COMMA_CNT''),
         assign_word L result (oh_index noh ohN 1) (oh_key ohN ''LINK1_MISSED_COMMA_CNT''),
         assign_word L result (oh_index noh ohN 2) (oh_key ohN ''LINK0_OVERFLOW_CNT''),
         assign_word L result (oh_index noh ohN 3) (oh_key ohN ''LINK1_OVERFLOW_CNT''),
         assign_word L result (oh_index noh ohN 4) (oh_key ohN ''LINK0_UNDERFLOW_CNT''),
         assign_word L result (oh_index noh ohN 5) (oh_key ohN ''LINK1_UNDERFLOW_CNT''),
         assign_word L result (oh_index noh ohN 6) (oh_key ohN ''LINK0_SBIT_OVERFLOW_CNT''),
         assign_word L result (oh_index noh ohN 7) (oh_key ohN ''LINK1_SBIT_OVERFLOW_CNT'')])),
      RETURN 0]"

definition getmonDAQmain :: "('m, 's) rpc_lib \<Rightarrow> ptr \<Rightarrow> ('m, 's, 'x) rpc_stmt" where
  "getmonDAQmain L result = block
     [req_new L ''daq_monitor.getmonDAQmain'',
      TRY (call_method L) STANDARD_CATCH,
      monitor_reply L (block
        [assign_word L result 0 ''DAQ_ENABLE'',
         assign_word L result 1 ''DAQ_LINK_READY'',
         assign_word L result 2 ''DAQ_LINK_AFULL'',
         assign_word L result 3 ''DAQ_OFIFO_HAD_OFLOW'',
         assign_word L result 4 ''L1A_FIFO_HAD_OFLOW'',
         assign_word L result 5 ''L1A_FIFO_DATA_COUNT'',
         assign_word L result 6 ''DAQ_FIFO_DATA_COUNT'',
         assign_word L result 7 ''EVENT_SENT'',
         assign_word L result 8 ''TTS_STATE'']),
      RETURN 0]"

definition getmonDAQOHmain :: "('m, 's) rpc_lib \<Rightarrow> ptr \<Rightarrow> u32 \<Rightarrow> u32 \<Rightarrow> ('m, 's, 'x) rpc_stmt" where
  "getmonDAQOHmain L result noh ohMask = block
     [req_new L ''daq_monitor.getmonDAQOHmain'',
      set_word L ''NOH'' noh,
      set_word L ''ohMask'' ohMask,
      TRY (call_method L) STANDARD_CATCH,
      monitor_reply L (FOR_OH noh ohMask (\<lambda>ohN. block
        [assign_word L result (oh_index noh ohN 0) (oh_key ohN ''STATUS.EVT_SIZE_ERR''),
         assign_word L result (oh_index noh ohN 1) (oh_key ohN ''STATUS.EVENT_FIFO_HAD_OFLOW''),
         assign_word L result (oh_index noh ohN 2) (oh_key ohN ''STATUS.INPUT_FIFO_HAD_OFLOW''),
         assign_word L result (oh_index noh ohN 3) (oh_key ohN ''STATUS.INPUT_FIFO_HAD_UFLOW''),
         assign_word L result (oh_index noh ohN 4) (oh_key ohN ''STATUS.VFAT_TOO_MANY''),
         assign_word L result (oh_index noh ohN 5) (oh_key ohN ''STATUS.VFAT_NO_MARKER'')])),
      RETURN 0]"

text \<open>The four assignments per GBT shared, as text, by the next two functions.\<close>

definition read_gbt :: "('m, 's) rpc_lib \<Rightarrow> ptr \<Rightarrow> nat \<Rightarrow> nat \<Rightarrow> ('m, 's, 'x) rpc_stmt" where
  "read_gbt L ohLinkMon ohN gbtN = block
     [set_member L ohLinkMon OHLinkMonitor_size ohN gbtRdy gbtN (oh_gbt_key ohN gbtN ''READY''),
      set_member L ohLinkMon OHLinkMonitor_size ohN gbtNotRdy gbtN (oh_gbt_key ohN gbtN ''WAS_NOT_READY''),
      set_member L ohLinkMon OHLinkMonitor_size ohN gbtRxOverflow gbtN (oh_gbt_key ohN gbtN ''RX_HAD_OVERFLOW''),
      set_member L ohLinkMon OHLinkMonitor_size ohN gbtRxUnderflow gbtN (oh_gbt_key ohN gbtN ''RX_HAD_UNDERFLOW'')]"

definition getmonGBTLink ::
  "('m, 's) rpc_lib \<Rightarrow> ptr \<Rightarrow> u32 \<Rightarrow> u32 \<Rightarrow> bool \<Rightarrow> u32 \<Rightarrow> ('m, 's, 'x) rpc_stmt" where
  "getmonGBTLink L ohLinkMon noh ohMask doReset NGBT = block
     [req_new L ''daq_monitor.getmonGBTLink'',
      set_word L ''NOH'' noh,
      set_bool L ''doReset'' doReset,
      TRY (call_method L) STANDARD_CATCH,
      monitor_reply L (FOR_OH noh ohMask (\<lambda>ohN. FOR (unat NGBT) (\<lambda>gbtN. read_gbt L ohLinkMon ohN gbtN))),
      RETURN 0]"

definition read_vfat_ohlink :: "('m, 's) rpc_lib \<Rightarrow> ptr \<Rightarrow> nat \<Rightarrow> nat \<Rightarrow> ('m, 's, 'x) rpc_stmt" where
  "read_vfat_ohlink L vfatLinkMon ohN vfatN = block
     [set_member L vfatLinkMon VFATLinkMonitor_size ohN daqCRCErrCnt vfatN (oh_vfat_key ohN vfatN ''SYNC_ERR_CNT''),
      set_member L vfatLinkMon VFATLinkMonitor_size ohN daqEvtCnt vfatN (oh_vfat_key ohN vfatN ''DAQ_EVENT_CNT''),
      set_member L vfatLinkMon VFATLinkMonitor_size ohN syncErrCnt vfatN (oh_vfat_key ohN vfatN ''DAQ_CRC_ERROR_CNT'')]"

definition getmonOHLink ::
  "('m, 's) rpc_lib \<Rightarrow> ptr \<Rightarrow> ptr \<Rightarrow> u32 \<Rightarrow> u32 \<Rightarrow> bool \<Rightarrow> ('m, 's, 'x) rpc_stmt" where
  "getmonOHLink L ohLinkMon vfatLinkMon noh ohMask doReset = block
     [req_new L ''daq_monitor.getmonOHLink'',
      set_word L ''NOH'' noh,
      set_bool L ''doReset'' doReset,
      TRY (call_method L) STANDARD_CATCH,
      monitor_reply L (FOR_OH noh ohMask (\<lambda>ohN. block
        [FOR 3 (\<lambda>gbtN. read_gbt L ohLinkMon ohN gbtN),
         FOR 24 (\<lambda>vfatN. read_vfat_ohlink L vfatLinkMon ohN vfatN)])),
      RETURN 0]"

definition getmonOHmain :: "('m, 's) rpc_lib \<Rightarrow> ptr \<Rightarrow> u32 \<Rightarrow> u32 \<Rightarrow> ('m, 's, 'x) rpc_stmt" where
  "getmonOHmain L result noh ohMask = block
     [req_new L ''daq_monitor.getmonOHmain'',
      set_word L ''NOH'' noh,
      set_word L ''ohMask'' ohMask,
      TRY (call_method L) STANDARD_CATCH,
      monitor_reply L (FOR_OH noh ohMask (\<lambda>ohN. block
        [assign_word L result (oh_index noh ohN 0) (oh_key ohN ''FW_VERSION''),
         assign_word L result (oh_index noh ohN 1) (oh_key ohN ''EVENT_COUNTER''),
         assign_word L result (oh_index noh ohN 2) (oh_key ohN ''EVENT_RATE''),
         assign_word L result (oh_index noh ohN 3) (oh_key ohN ''GTX.TRK_ERR''),
         assign_word L result (oh_index noh ohN 4) (oh_key ohN ''GTX.TRG_ERR''),
         assign_word L result (oh_index noh ohN 5) (oh_key ohN ''GBT.TRK_ERR''),
         assign_word L result (oh_index noh ohN 6) (oh_key ohN ''CORR_VFAT_BLK_CNT'')])),
      RETURN 0]"

definition getmonOHSCAmain :: "('m, 's) rpc_lib \<Rightarrow> ptr \<Rightarrow> u32 \<Rightarrow> u32 \<Rightarrow> ('m, 's, 'x) rpc_stmt" where
  "getmonOHSCAmain L scaMon noh ohMask = block
     [req_new L ''daq_monitor.getmonOHSCAmain'',
      set_word L ''NOH'' noh,
      set_word L ''ohMask'' ohMask,
      TRY (call_method L) STANDARD_CATCH,
      monitor_reply L (FOR_OH noh ohMask (\<lambda>ohN. block
        [set_member L scaMon SCAMonitor_size ohN scaTemp 0 (oh_key ohN ''SCA_TEMP''),
         FOR 9 (\<lambda>j. set_member L scaMon SCAMonitor_size ohN ohBoardTemp j
           (oh_key ohN (''BOARD_TEMP'' @ to_string (j + 1)))),
         set_member L scaMon SCAMonitor_size ohN AVCCN 0 (oh_key ohN ''AVCCN''),
         set_member L scaMon SCAMonitor_size ohN AVTTN 0 (oh_key ohN ''AVTTN''),
         set_member L scaMon SCAMonitor_size ohN voltage1V0_INT 0 (oh_key ohN ''1V0_INT''),
         set_member L scaMon SCAMonitor_size ohN voltage1V8F 0 (oh_key ohN ''1V8F''),
         set_member L scaMon SCAMonitor_size ohN voltage1V5 0 (oh_key ohN ''1V5''),
         set_member L scaMon SCAMonitor_size ohN voltage2V5_IO 0 (oh_key ohN ''2V5_IO''),
         set_member L scaMon SCAMonitor_size ohN voltage3V0 0 (oh_key ohN ''3V0''),
         set_member L scaMon SCAMonitor_size ohN voltage1V8 0 (oh_key ohN ''1V8''),
         set_member L scaMon SCAMonitor_size ohN VTRX_RSSI2 0 (oh_key ohN ''VTRX_RSSI2''),
         set_member L scaMon SCAMonitor_size ohN VTRX_RSSI1 0 (oh_key ohN ''VTRX_RSSI1'')])),
      RETURN 0]"

definition getmonOHSysmon ::
  "('m, 's) rpc_lib \<Rightarrow> ptr \<Rightarrow> u32 \<Rightarrow> u32 \<Rightarrow> bool \<Rightarrow> ('m, 's, 'x) rpc_stmt" where
  "getmonOHSysmon L sysmon noh ohMask doReset = block
     [req_new L ''daq_monitor.getmonOHSysmon'',
      set_word L ''NOH'' noh,
      set_word L ''ohMask'' ohMask,
      set_bool L ''doReset'' doReset,
      TRY (call_method L) STANDARD_CATCH,
      monitor_reply L (FOR_OH noh ohMask (\<lambda>ohN. block
        [TRY (block
          [set_member_bool L sysmon SysmonMonitor_size ohN isOverTemp 0 (oh_key ohN ''OVERTEMP''),
           set_member L sysmon SysmonMonitor_size ohN cntOverTemp 0 (oh_key ohN ''CNT_OVERTEMP'')])
          STANDARD_CATCH,
         TRY (block
          [set_member_bool L sysmon SysmonMonitor_size ohN isInVCCAuxAlarm 0 (oh_key ohN ''VCCAUX_ALARM''),
           set_member L sysmon SysmonMonitor_size ohN cntVCCAuxAlarm 0 (oh_key ohN ''CNT_VCCAUX_ALARM'')])
          STANDARD_CATCH,
         TRY (block
          [set_member_bool L sysmon SysmonMonitor_size ohN isInVCCIntAlarm 0 (oh_key ohN ''VCCINT_ALARM''),
           set_member L sysmon SysmonMonitor_size ohN cntVCCIntAlarm 0 (oh_key ohN ''CNT_VCCINT_ALARM'')])
          STANDARD_CATCH,
         TRY (block
          [set_member L sysmon SysmonMonitor_size ohN fpgaCoreTemp 0 (oh_key ohN ''FPGA_CORE_TEMP''),
           set_member L sysmon SysmonMonitor_size ohN fpgaCore1V0 0 (oh_key ohN ''FPGA_CORE_1V0''),
           set_member L sysmon SysmonMonitor_size ohN fpgaCore2V5_IO 0 (oh_key ohN ''FPGA_CORE_2V5_IO'')])
          STANDARD_CATCH])),
      RETURN 0]"

definition read_vfat_link :: "('m, 's) rpc_lib \<Rightarrow> ptr \<Rightarrow> nat \<Rightarrow> nat \<Rightarrow> ('m, 's, 'x) rpc_stmt" where
  "read_vfat_link L vfatLinkMon ohN vfatN =
     IF (key_exists L (oh_vfat_key ohN vfatN ''DAQ_CRC_ERROR_CNT''))
       (block
         [set_member L vfatLinkMon VFATLinkMonitor_size ohN daqCRCErrCnt vfatN (oh_vfat_key ohN vfatN ''DAQ_CRC_ERROR_CNT''),
          set_member L vfatLinkMon VFATLinkMonitor_size ohN daqEvtCnt vfatN (oh_vfat_key ohN vfatN ''DAQ_EVENT_CNT''),
          set_member L vfatLinkMon VFATLinkMonitor_size ohN syncErrCnt vfatN (oh_vfat_key ohN vfatN ''SYNC_ERR_CNT'')])
       (block
         [put_member vfatLinkMon VFATLinkMonitor_size ohN daqCRCErrCnt vfatN 0xdeaddead,
          put_member vfatLinkMon VFATLinkMonitor_size ohN daqEvtCnt vfatN 0xdeaddead,
          put_member vfatLinkMon VFATLinkMonitor_size ohN syncErrCnt vfatN 0xdeaddead])"

definition getmonVFATLink ::
  "('m, 's) rpc_lib \<Rightarrow> ptr \<Rightarrow> u32 \<Rightarrow> u32 \<Rightarrow> bool \<Rightarrow> ('m, 's, 'x) rpc_stmt" where
  "getmonVFATLink L vfatLinkMon noh ohMask doReset = block
     [req_new L ''daq_monitor.getmonVFATLink'',
      set_word L ''NOH'' noh,
      set_bool L ''doReset'' doReset,
      TRY (call_method L) STANDARD_CATCH,
      monitor_reply L (FOR_OH noh ohMask (\<lambda>ohN. FOR 24 (\<lambda>vfatN. read_vfat_link L vfatLinkMon ohN vfatN))),
      RETURN 0]"

lemmas monitor_stmt_defs [stmt_simps] = set_member_def set_member_bool_def put_member_def
  monitor_reply_def

section \<open>Contracts\<close>

lemma safe_monitor_reply [safe_intros]: "safe (framed h0 W) c \<Longrightarrow> safe (framed h0 W) (monitor_reply L c)"
  unfolding monitor_reply_def by (intro safe_intros)

lemma safe_FOR_OH [safe_intros]:
  assumes "unat noh \<le> 32" and "\<And>ohN. ohN < unat noh \<Longrightarrow> safe (framed h0 W) (body ohN)"
  shows "safe (framed h0 W) (FOR_OH noh ohMask body)"
  unfolding FOR_OH_def using assms by (intro safe_intros; simp add: bit_set_bit)

text \<open>For at most 32 optohybrids the 32-bit index computations do not wrap.\<close>

lemma oh_index_eq:
  assumes "unat noh \<le> 32" and "ohN < unat noh" and "c \<le> 8"
  shows "oh_index noh ohN c = ohN + c * unat noh"
proof -
  have "c * unat noh \<le> 8 * 32"
    using mult_le_mono [OF assms(3,1)] .
  then show ?thesis
    using assms by (simp add: oh_index_def unat_word_ariths unat_of_nat mod_simps)
qed

lemma oh_index_less:
  assumes "unat noh \<le> 32" and "ohN < unat noh" and "c < m" and "m \<le> 8"
  shows "oh_index noh ohN c < m * unat noh"
proof -
  have "ohN + c * unat noh < Suc c * unat noh" using assms(2) by simp
  also have "\<dots> \<le> m * unat noh" using assms(3) by (intro mult_le_mono) auto
  finally show ?thesis using oh_index_eq [OF assms(1,2)] assms(3,4) by simp
qed

lemma cell_in_struct:
  assumes "n < k" and "fst m + snd m \<le> sz" and "i < snd m"
  shows "cell sz n m i = Some (n * sz + fst m + i)" and "n * sz + fst m + i < sz * k"
proof -
  have "n * sz + fst m + i < Suc n * sz" using assms(2,3) by simp
  also have "\<dots> \<le> k * sz" using assms(1) by (intro mult_le_mono) auto
  finally show "n * sz + fst m + i < sz * k" by (simp add: mult.commute)
qed (use assms(3) in \<open>simp add: cell_def\<close>)

lemma safe_members:
  assumes "fits h0 W" and "n < k" and "sz * k \<le> cap W p" and "fst m + snd m \<le> sz" and "i < snd m"
  shows "safe (framed h0 W) (set_member L p sz n m i key)"
    and "safe (framed h0 W) (set_member_bool L p sz n m i key)"
    and "safe (framed h0 W) (put_member p sz n m i w)"
proof -
  have "n * sz + fst m + i < cap W p"
    using cell_in_struct(2) [OF assms(2,4,5)] assms(3) by simp
  then show "safe (framed h0 W) (set_member L p sz n m i key)"
    and "safe (framed h0 W) (set_member_bool L p sz n m i key)"
    and "safe (framed h0 W) (put_member p sz n m i w)"
    unfolding set_member_def set_member_bool_def put_member_def cell_in_struct(1) [OF assms(2,4,5)]
    using assms(1) by (intro safe_intros; simp)+
qed

lemma monitor_tables_safe:
  "fits h0 [(result, 5)] \<Longrightarrow> safe (framed h0 [(result, 5)]) (getmonTTCmain L result)"
  "fits h0 [(result, 9)] \<Longrightarrow> safe (framed h0 [(result, 9)]) (getmonDAQmain L result)"
  "fits h0 [(result, unat noh + 1)] \<Longrightarrow> unat noh \<le> 32 \<Longrightarrow>
    safe (framed h0 [(result, unat noh + 1)]) (getmonTRIGGERmain L result noh ohMask)"
  "fits h0 [(result, 8 * unat noh)] \<Longrightarrow> unat noh \<le> 32 \<Longrightarrow>
    safe (framed h0 [(result, 8 * unat noh)]) (getmonTRIGGEROHmain L result noh ohMask)"
  "fits h0 [(result, 6 * unat noh)] \<Longrightarrow> unat noh \<le> 32 \<Longrightarrow>
    safe (framed h0 [(result, 6 * unat noh)]) (getmonDAQOHmain L result noh ohMask)"
  "fits h0 [(result, 7 * unat noh)] \<Longrightarrow> unat noh \<le> 32 \<Longrightarrow>
    safe (framed h0 [(result, 7 * unat noh)]) (getmonOHmain L result noh ohMask)"
  unfolding getmonTTCmain_def getmonDAQmain_def getmonTRIGGERmain_def getmonTRIGGEROHmain_def
    getmonDAQOHmain_def getmonOHmain_def
  by (intro safe_intros; simp add: oh_index_less unat_word_ariths unat_of_nat)+

lemma safe_read_gbt:
  assumes "fits h0 W" and "ohN < k" and "OHLinkMonitor_size * k \<le> cap W p" and "gbtN < 3"
  shows "safe (framed h0 W) (read_gbt L p ohN gbtN)"
  unfolding read_gbt_def using assms
  by (intro safe_intros safe_members [where k = k]; simp add: member_defs)

lemma safe_read_vfat:
  assumes "fits h0 W" and "ohN < k" and "VFATLinkMonitor_size * k \<le> cap W p" and "vfatN < 24"
  shows "safe (framed h0 W) (read_vfat_ohlink L p ohN vfatN)"
    and "safe (framed h0 W) (read_vfat_link L p ohN vfatN)"
  unfolding read_vfat_ohlink_def read_vfat_link_def using assms
  by (intro safe_intros safe_members [where k = k]; simp add: member_defs)+

lemma monitor_structs_safe:
  "fits h0 [(ohLinkMon, OHLinkMonitor_size * unat noh)] \<Longrightarrow> unat noh \<le> 32 \<Longrightarrow> unat NGBT \<le> 3 \<Longrightarrow>
    safe (framed h0 [(ohLinkMon, OHLinkMonitor_size * unat noh)])
    (getmonGBTLink L ohLinkMon noh ohMask doReset NGBT)"
  "fits h0 [(ohLinkMon, OHLinkMonitor_size * unat noh), (vfatLinkMon, VFATLinkMonitor_size * unat noh)] \<Longrightarrow>
    unat noh \<le> 32 \<Longrightarrow>
    safe (framed h0 [(ohLinkMon, OHLinkMonitor_size * unat noh), (vfatLinkMon, VFATLinkMonitor_size * unat noh)])
    (getmonOHLink L ohLinkMon vfatLinkMon noh ohMask doReset)"
  "fits h0 [(vfatLinkMon, VFATLinkMonitor_size * unat noh)] \<Longrightarrow> unat noh \<le> 32 \<Longrightarrow>
    safe (framed h0 [(vfatLinkMon, VFATLinkMonitor_size * unat noh)])
    (getmonVFATLink L vfatLinkMon noh ohMask doReset)"
  unfolding getmonGBTLink_def getmonOHLink_def getmonVFATLink_def
  by (intro safe_intros safe_read_gbt [where k = "unat noh"] safe_read_vfat [where k = "unat noh"]; simp)+

lemma sca_sysmon_safe:
  "fits h0 [(scaMon, SCAMonitor_size * unat noh)] \<Longrightarrow> unat noh \<le> 32 \<Longrightarrow>
    safe (framed h0 [(scaMon, SCAMonitor_size * unat noh)]) (getmonOHSCAmain L scaMon noh ohMask)"
  "fits h0 [(sysmon, SysmonMonitor_size * unat noh)] \<Longrightarrow> unat noh \<le> 32 \<Longrightarrow>
    safe (framed h0 [(sysmon, SysmonMonitor_size * unat noh)]) (getmonOHSysmon L sysmon noh ohMask doReset)"
  unfolding getmonOHSCAmain_def getmonOHSysmon_def
  by (intro safe_intros safe_members [where k = "unat noh"]; simp add: member_defs)+

end
