(* ===== verification/Rpc_Monitor_Results.thy ===== *)
theory Rpc_Monitor_Results
  imports Rpc_Daq_Monitor Rpc_Reference
begin

text \<open>
  What the monitoring functions store. The promise of a function is a list of cells: where a value goes, and
  what of the reply it is. The judgement \<open>fills\<close> says that a statement stores the values of a list of cells
  and does nothing else; its rules follow the statements, so each function is proved by its syntax. The
  contents of the tables then follow from the cells.
\<close>

named_theorems fills_intros

section \<open>Cells\<close>

text \<open>
  The word under a key, the word as a truth value, the word under the second key if the reply has the
  first, \<^verbatim>\<open>0xdeaddead\<close> otherwise, and a constant.
\<close>

datatype source = Get_word string | Get_flag string | Get_link string string | Put_word u32

definition reply_word :: "('m, 's) rpc_lib \<Rightarrow> 'm \<Rightarrow> string \<Rightarrow> u32 option" where
  "reply_word L r k = (case RPCMsg_get_word L r k of Inr w \<Rightarrow> Some w | Inl e \<Rightarrow> None)"

fun source_value :: "('m, 's) rpc_lib \<Rightarrow> 'm \<Rightarrow> source \<Rightarrow> u32 option" where
  "source_value L r (Get_word k) = reply_word L r k"
| "source_value L r (Get_flag k) = map_option (\<lambda>w. of_bool (w \<noteq> 0)) (reply_word L r k)"
| "source_value L r (Get_link g k) = (if RPCMsg_get_key_exists L r g then reply_word L r k else Some 0xdeaddead)"
| "source_value L r (Put_word w) = Some w"

definition cell_word :: "('m, 's) rpc_lib \<Rightarrow> 'm \<Rightarrow> source \<Rightarrow> u32" where
  "cell_word L r src = (case source_value L r src of Some w \<Rightarrow> w | None \<Rightarrow> 0)"

definition put_cell :: "ptr \<Rightarrow> u32 \<Rightarrow> heap \<Rightarrow> heap" where
  "put_cell q w h = h(fst q := (h (fst q))[snd q := w])"

fun put_cells :: "('m, 's) rpc_lib \<Rightarrow> 'm \<Rightarrow> (ptr \<times> source) list \<Rightarrow> heap \<Rightarrow> heap" where
  "put_cells L r [] h = h"
| "put_cells L r ((q, src) # cells) h = put_cells L r cells (put_cell q (cell_word L r src) h)"

text \<open>The reply has a value for every cell, and the cell is in the caller's memory.\<close>

definition cells_ready :: "('m, 's) rpc_lib \<Rightarrow> 'm \<Rightarrow> (ptr \<times> source) list \<Rightarrow> heap \<Rightarrow> bool" where
  "cells_ready L r cells h \<longleftrightarrow>
     (\<forall>(q, src) \<in> set cells. source_value L r src \<noteq> None \<and> snd q < length (h (fst q)))"

lemma length_put_cell [simp]: "length (put_cell q w h b) = length (h b)"
  by (simp add: put_cell_def)

lemma put_cell_nth:
  "snd q < length (h (fst q)) \<Longrightarrow> put_cell q' w h (fst q) ! snd q = (if q = q' then w else h (fst q) ! snd q)"
  by (auto simp: put_cell_def nth_list_update prod_eq_iff)

lemma length_put_cells [simp]: "length (put_cells L r cells h b) = length (h b)"
  by (induction L r cells h rule: put_cells.induct) simp_all

lemma put_cells_append: "put_cells L r (xs @ ys) h = put_cells L r ys (put_cells L r xs h)"
  by (induction L r xs h rule: put_cells.induct) simp_all

lemma put_cells_other: "q \<notin> fst ` set cells \<Longrightarrow> put_cells L r cells h (fst q) ! snd q = h (fst q) ! snd q"
proof (induction L r cells h rule: put_cells.induct)
  case (2 L r q' src cells h)
  then have "put_cell q' w h (fst q) ! snd q = h (fst q) ! snd q" for w
    by (cases "snd q < length (h (fst q))") (auto simp: put_cell_nth put_cell_def prod_eq_iff)
  with 2 show ?case by simp
qed simp

lemma put_cells_value:
  assumes "single_valued (set cells)" and "(q, src) \<in> set cells" and "snd q < length (h (fst q))"
  shows "put_cells L r cells h (fst q) ! snd q = cell_word L r src"
  using assms
proof (induction L r cells h rule: put_cells.induct)
  case (2 L r q' src' cells h)
  have sv: "single_valued (set cells)" using "2.prems"(1) by (simp add: single_valued_def)
  show ?case
  proof (cases "q \<in> fst ` set cells")
    case True
    then obtain x where "(q, x) \<in> set cells" by force
    moreover from this "2.prems"(1,2) have "x = src" unfolding single_valued_def by (metis list.set_intros(2))
    ultimately show ?thesis using "2.IH" [OF sv] "2.prems"(3) by simp
  next
    case False
    then have "(q', src') = (q, src)" using "2.prems"(2) by force
    with put_cells_other [OF False, of L r] "2.prems"(3) show ?thesis by (simp add: put_cell_nth)
  qed
qed simp

text \<open>The promise: every cell has its value, and all other memory is as before.\<close>

definition cells_filled :: "('m, 's) rpc_lib \<Rightarrow> 'm \<Rightarrow> (ptr \<times> source) list \<Rightarrow> heap \<Rightarrow> heap \<Rightarrow> bool" where
  "cells_filled L r cells h0 h \<longleftrightarrow>
     (\<forall>(q, src) \<in> set cells. source_value L r src = Some (h (fst q) ! snd q)) \<and>
     (\<forall>b. length (h b) = length (h0 b)) \<and>
     (\<forall>q. q \<notin> fst ` set cells \<longrightarrow> h (fst q) ! snd q = h0 (fst q) ! snd q)"

lemma cells_filled_put:
  assumes "single_valued (set cells)" and "cells_ready L r cells h"
  shows "cells_filled L r cells h (put_cells L r cells h)"
proof -
  have "source_value L r src = Some (put_cells L r cells h (fst q) ! snd q)" if "(q, src) \<in> set cells" for q src
  proof -
    from assms(2) that have "source_value L r src \<noteq> None" "snd q < length (h (fst q))" by (auto simp: cells_ready_def)
    with put_cells_value [OF assms(1) that, of h L r] show ?thesis by (auto simp: cell_word_def)
  qed
  then show ?thesis by (auto simp: cells_filled_def put_cells_other)
qed

section \<open>Statements that fill cells\<close>

definition fills :: "('m, 's) rpc_lib \<Rightarrow> (ptr \<times> source) list \<Rightarrow> ('m, 's, 'x) rpc_stmt \<Rightarrow> bool" where
  "fills L cells c \<longleftrightarrow>
     (\<forall>s. cells_ready L (rsp s) cells (heap s) \<longrightarrow> c s = Next (s\<lparr>heap := put_cells L (rsp s) cells (heap s)\<rparr>))"

lemma fills_nil [fills_intros]: "fills L [] (block [])"
  by (simp add: fills_def)

lemma fills_append:
  fixes c :: "('m, 's, 'x) rpc_stmt"
  assumes "fills L xs c" and "fills L ys (block cs)"
  shows "fills L (xs @ ys) (block (c # cs))"
  unfolding fills_def
proof (intro allI impI)
  fix s :: "('m, 's, 'x) rpc_state_scheme"
  assume ready: "cells_ready L (rsp s) (xs @ ys) (heap s)"
  let ?t = "s\<lparr>heap := put_cells L (rsp s) xs (heap s)\<rparr>"
  have "cells_ready L (rsp s) xs (heap s)" "cells_ready L (rsp ?t) ys (heap ?t)"
    using ready by (auto simp: cells_ready_def)
  with assms have "c s = Next ?t" "block cs ?t = Next (?t\<lparr>heap := put_cells L (rsp ?t) ys (heap ?t)\<rparr>)"
    unfolding fills_def by blast+
  then show "block (c # cs) s = Next (s\<lparr>heap := put_cells L (rsp s) (xs @ ys) (heap s)\<rparr>)"
    by (simp add: put_cells_append)
qed

lemma fills_Cons [fills_intros]: "fills L [x] c \<Longrightarrow> fills L xs (block cs) \<Longrightarrow> fills L (x # xs) (block (c # cs))"
  using fills_append [of L "[x]" c xs cs] by simp

lemma fills_TRY: "fills L xs c \<Longrightarrow> fills L xs (TRY c h)"
  by (simp add: fills_def TRY_def)

lemma fills_block_map:
  "(\<And>j. j \<in> set js \<Longrightarrow> fills L (cells j) (body j)) \<Longrightarrow> fills L (concat (map cells js)) (block (map body js))"
  by (induction js) (auto simp del: block.simps intro: fills_nil fills_append)

lemma fills_FOR: "(\<And>j. j < n \<Longrightarrow> fills L (cells j) (body j)) \<Longrightarrow> fills L (concat (map cells [0..<n])) (FOR n body)"
  unfolding FOR_def by (rule fills_block_map) simp

text \<open>The loop over the optohybrids whose bit is set.\<close>

lemma concat_map_if: "concat (map (\<lambda>x. if P x then f x else []) xs) = concat (map f (filter P xs))"
  by (induction xs) auto

definition enabled_ohs :: "u32 \<Rightarrow> u32 \<Rightarrow> nat list" where
  "enabled_ohs noh ohMask = filter (bit ohMask) [0..<unat noh]"

lemma fills_FOR_OH:
  assumes "unat noh \<le> 32" and "\<And>ohN. ohN < unat noh \<Longrightarrow> fills L (cells ohN) (body ohN)"
  shows "fills L (concat (map cells (enabled_ohs noh ohMask))) (FOR_OH noh ohMask body)"
proof -
  have "concat (map cells (enabled_ohs noh ohMask)) =
      concat (map (\<lambda>ohN. if bit ohMask ohN then cells ohN else []) [0..<unat noh])"
    by (simp add: enabled_ohs_def concat_map_if)
  moreover have "fills L (if bit ohMask ohN then cells ohN else []) (IF_opt (bit_set ohMask ohN) (body ohN) SKIP)"
    if "ohN < unat noh" for ohN
    using assms that by (auto simp: fills_def bit_set_bit IF_opt_def SKIP_def)
  ultimately show ?thesis unfolding FOR_OH_def by (simp only: fills_FOR)
qed

text \<open>Single assignments.\<close>

lemma store_word: "snd q < length (heap s (fst q)) \<Longrightarrow>
    store_words q [w] s = Next (s\<lparr>heap := put_cell q w (heap s)\<rparr>)"
  by (simp add: store_words_def in_bounds_def overwrite_def put_cell_def upd_conv_take_nth_drop)

lemma fills_word [fills_intros]: "fills L [(ptr_add p i, Get_word k)] (assign_word L p i k)"
  by (auto simp: fills_def cells_ready_def assign_word_def assign_conv_def store_word cell_word_def reply_word_def
      split: sum.splits)

lemma fills_flag: "fills L [(ptr_add p i, Get_flag k)] (assign_conv L (\<lambda>w. of_bool (w \<noteq> 0)) p i k)"
  by (auto simp: fills_def cells_ready_def assign_conv_def store_word cell_word_def reply_word_def split: sum.splits)

section \<open>Tables\<close>

text \<open>Cells from a pointer on.\<close>

definition cells_at :: "ptr \<Rightarrow> (nat \<times> source) list \<Rightarrow> (ptr \<times> source) list" where
  "cells_at p cells = map (\<lambda>(i, src). (ptr_add p i, src)) cells"

lemma cells_at_simps [simp]:
  "cells_at p [] = []" "cells_at p ((i, src) # cells) = (ptr_add p i, src) # cells_at p cells"
  "cells_at p (xs @ ys) = cells_at p xs @ cells_at p ys"
  by (simp_all add: cells_at_def)

lemma cells_at_concat: "cells_at p (concat (map f xs)) = concat (map (\<lambda>x. cells_at p (f x)) xs)"
  by (simp add: cells_at_def map_concat comp_def)

text \<open>
  A table with a column per name and a row per optohybrid, and an array with a structure of \<open>sz\<close> cells per
  optohybrid; a member is its place in the structure and what it is of the reply, for each optohybrid.
\<close>

definition table_cells :: "nat \<Rightarrow> string list \<Rightarrow> nat \<Rightarrow> (nat \<times> source) list" where
  "table_cells noh names ohN = map (\<lambda>c. (ohN + c * noh, Get_word (oh_key ohN (names ! c)))) [0..<length names]"

definition struct_cells :: "nat \<Rightarrow> (nat \<times> (nat \<Rightarrow> source)) list \<Rightarrow> nat \<Rightarrow> (nat \<times> source) list" where
  "struct_cells sz members ohN = map (\<lambda>(j, src). (ohN * sz + j, src ohN)) members"

definition oh_table :: "string list \<Rightarrow> u32 \<Rightarrow> u32 \<Rightarrow> (nat \<times> source) list" where
  "oh_table names noh ohMask = concat (map (table_cells (unat noh) names) (enabled_ohs noh ohMask))"

definition struct_table :: "nat \<Rightarrow> (nat \<times> (nat \<Rightarrow> source)) list \<Rightarrow> u32 \<Rightarrow> u32 \<Rightarrow> (nat \<times> source) list" where
  "struct_table sz members noh ohMask = concat (map (struct_cells sz members) (enabled_ohs noh ohMask))"

text \<open>Every cell is in its table, and no two values go to one cell.\<close>

lemma table_index_inject:
  assumes "i < (n :: nat)" and "j < n" and "i + c * n = j + d * n"
  shows "i = j \<and> c = d"
proof -
  from assms(3) have "(i + c * n) mod n = (j + d * n) mod n" "(i + c * n) div n = (j + d * n) div n"
    by simp_all
  with assms(1,2) show ?thesis by simp
qed

lemma table_index_room:
  assumes "ohN < n" and "c < k"
  shows "ohN + c * n < k * (n :: nat)"
proof -
  have "ohN + c * n < Suc c * n" using assms(1) by simp
  also have "\<dots> \<le> k * n" using assms(2) by (intro mult_le_mono) auto
  finally show ?thesis .
qed

lemma oh_table_cells:
  "(i, src) \<in> set (oh_table names noh ohMask) \<longleftrightarrow>
    (\<exists>ohN c. i = ohN + c * unat noh \<and> src = Get_word (oh_key ohN (names ! c)) \<and> c < length names \<and> ohN < unat noh \<and> bit ohMask ohN)"
  by (auto simp: oh_table_def table_cells_def enabled_ohs_def) blast

lemma struct_table_cells:
  "(i, src) \<in> set (struct_table sz members noh ohMask) \<longleftrightarrow>
    (\<exists>ohN j f. i = ohN * sz + j \<and> src = f ohN \<and> (j, f) \<in> set members \<and> ohN < unat noh \<and> bit ohMask ohN)"
  by (fastforce simp: struct_table_def struct_cells_def enabled_ohs_def)

lemma oh_table_less: "(i, src) \<in> set (oh_table names noh ohMask) \<Longrightarrow> i < length names * unat noh"
  by (auto simp: oh_table_cells intro: table_index_room)

lemma oh_table_single: "single_valued (set (oh_table names noh ohMask))"
  unfolding single_valued_def oh_table_cells using table_index_inject by blast

lemma struct_table_less:
  assumes "(i, src) \<in> set (struct_table sz members noh ohMask)" and "\<forall>j \<in> fst ` set members. j < sz"
  shows "i < sz * unat noh"
proof -
  obtain ohN j f where "ohN < unat noh" "(j, f) \<in> set members" "i = ohN * sz + j"
    using assms(1) by (auto simp: struct_table_cells)
  then show ?thesis using assms(2) table_index_room [of j sz ohN "unat noh"] by (force simp: ac_simps)
qed

lemma struct_table_single:
  assumes "distinct (map fst members)" and "\<forall>j \<in> fst ` set members. j < sz"
  shows "single_valued (set (struct_table sz members noh ohMask))"
proof -
  have "src = src'" if "i = ohN * sz + j" "src = f ohN" "(j, f) \<in> set members" "i = ohM * sz + k" "src' = g ohM"
    "(k, g) \<in> set members" for i src src' ohN ohM j k f g
  proof -
    have "j < sz" "k < sz" using assms(2) that by force+
    then have "j = k \<and> ohN = ohM" using table_index_inject [of j sz k ohN ohM] that(1,4) by (simp add: add.commute)
    moreover from this have "f = g" using assms(1) that(3,6) by (auto dest: eq_key_imp_eq_value)
    ultimately show ?thesis using that by simp
  qed
  then show ?thesis unfolding single_valued_def struct_table_cells by blast
qed

section \<open>The functions and their cells\<close>

definition word_at :: "string \<Rightarrow> nat \<Rightarrow> source" where
  "word_at name ohN = Get_word (oh_key ohN name)"

definition flag_at :: "string \<Rightarrow> nat \<Rightarrow> source" where
  "flag_at name ohN = Get_flag (oh_key ohN name)"

definition vfat_at :: "nat \<Rightarrow> string \<Rightarrow> nat \<Rightarrow> source" where
  "vfat_at vfatN name ohN = Get_word (oh_vfat_key ohN vfatN name)"

text \<open>The members of a VFAT are read when the reply has its CRC error count.\<close>

definition link_at :: "nat \<Rightarrow> string \<Rightarrow> nat \<Rightarrow> source" where
  "link_at vfatN name ohN = Get_link (oh_vfat_key ohN vfatN ''DAQ_CRC_ERROR_CNT'') (oh_vfat_key ohN vfatN name)"

lemmas source_defs = word_at_def flag_at_def vfat_at_def link_at_def

text \<open>The columns of the three tables and the members of the structures.\<close>

definition TRIGGEROH_columns :: "string list" where
  "TRIGGEROH_columns =
     [''LINK0_MISSED_COMMA_CNT'', ''LINK1_MISSED_COMMA_CNT'', ''LINK0_OVERFLOW_CNT'', ''LINK1_OVERFLOW_CNT'',
      ''LINK0_UNDERFLOW_CNT'', ''LINK1_UNDERFLOW_CNT'', ''LINK0_SBIT_OVERFLOW_CNT'', ''LINK1_SBIT_OVERFLOW_CNT'']"

definition DAQOH_columns :: "string list" where
  "DAQOH_columns =
     [''STATUS.EVT_SIZE_ERR'', ''STATUS.EVENT_FIFO_HAD_OFLOW'', ''STATUS.INPUT_FIFO_HAD_OFLOW'',
      ''STATUS.INPUT_FIFO_HAD_UFLOW'', ''STATUS.VFAT_TOO_MANY'', ''STATUS.VFAT_NO_MARKER'']"

definition OHmain_columns :: "string list" where
  "OHmain_columns =
     [''FW_VERSION'', ''EVENT_COUNTER'', ''EVENT_RATE'', ''GTX.TRK_ERR'', ''GTX.TRG_ERR'', ''GBT.TRK_ERR'',
      ''CORR_VFAT_BLK_CNT'']"

lemmas columns_defs = TRIGGEROH_columns_def DAQOH_columns_def OHmain_columns_def

definition gbt_members :: "nat \<Rightarrow> (nat \<times> (nat \<Rightarrow> source)) list" where
  "gbt_members gbtN = map (\<lambda>(j, name). (j + gbtN, word_at (''GBT'' @ to_string gbtN @ ''.'' @ name)))
     [(0, ''READY''), (3, ''WAS_NOT_READY''), (6, ''RX_HAD_OVERFLOW''), (9, ''RX_HAD_UNDERFLOW'')]"

definition SCA_members :: "(nat \<times> (nat \<Rightarrow> source)) list" where
  "SCA_members = (9, word_at ''SCA_TEMP'') # map (\<lambda>j. (j, word_at (''BOARD_TEMP'' @ to_string (j + 1)))) [0..<9] @
     [(10, word_at ''AVCCN''), (11, word_at ''AVTTN''), (12, word_at ''1V0_INT''), (13, word_at ''1V8F''),
      (14, word_at ''1V5''), (15, word_at ''2V5_IO''), (16, word_at ''3V0''), (17, word_at ''1V8''),
      (18, word_at ''VTRX_RSSI2''), (19, word_at ''VTRX_RSSI1'')]"

definition Sysmon_members :: "(nat \<times> (nat \<Rightarrow> source)) list" where
  "Sysmon_members =
     [(0, flag_at ''OVERTEMP''), (3, word_at ''CNT_OVERTEMP''), (1, flag_at ''VCCAUX_ALARM''),
      (4, word_at ''CNT_VCCAUX_ALARM''), (2, flag_at ''VCCINT_ALARM''), (5, word_at ''CNT_VCCINT_ALARM''),
      (6, word_at ''FPGA_CORE_TEMP''), (7, word_at ''FPGA_CORE_1V0''), (8, word_at ''FPGA_CORE_2V5_IO'')]"

definition VFATLink_members :: "nat \<Rightarrow> (nat \<times> (nat \<Rightarrow> source)) list" where
  "VFATLink_members vfatN =
     [(vfatN, link_at vfatN ''DAQ_CRC_ERROR_CNT''), (24 + vfatN, link_at vfatN ''DAQ_EVENT_CNT''),
      (48 + vfatN, link_at vfatN ''SYNC_ERR_CNT'')]"

text \<open>\<^verbatim>\<open>getmonOHLink\<close> has the synchronisation and the CRC error count in each other's place.\<close>

definition OHLink_members :: "nat \<Rightarrow> (nat \<times> (nat \<Rightarrow> source)) list" where
  "OHLink_members vfatN =
     [(vfatN, vfat_at vfatN ''SYNC_ERR_CNT''), (24 + vfatN, vfat_at vfatN ''DAQ_EVENT_CNT''),
      (48 + vfatN, vfat_at vfatN ''DAQ_CRC_ERROR_CNT'')]"

lemmas members_defs = gbt_members_def SCA_members_def Sysmon_members_def VFATLink_members_def OHLink_members_def

text \<open>
  The monitoring functions with the arguments only they have; the setters of their requests; the buffers
  they write to; and the cells they promise.
\<close>

datatype monitor =
    Mon_TTC | Mon_TRIGGER | Mon_TRIGGEROH | Mon_DAQ | Mon_DAQOH | Mon_OH | Mon_SCA
  | Mon_GBT bool u32 | Mon_Sysmon bool | Mon_VFATLink bool | Mon_OHLink bool ptr

fun run_monitor :: "('m, 's) rpc_lib \<Rightarrow> monitor \<Rightarrow> ptr \<Rightarrow> u32 \<Rightarrow> u32 \<Rightarrow> ('m, 's, 'x) rpc_stmt" where
  "run_monitor L Mon_TTC result noh ohMask = getmonTTCmain L result"
| "run_monitor L Mon_TRIGGER result noh ohMask = getmonTRIGGERmain L result noh ohMask"
| "run_monitor L Mon_TRIGGEROH result noh ohMask = getmonTRIGGEROHmain L result noh ohMask"
| "run_monitor L Mon_DAQ result noh ohMask = getmonDAQmain L result"
| "run_monitor L Mon_DAQOH result noh ohMask = getmonDAQOHmain L result noh ohMask"
| "run_monitor L Mon_OH result noh ohMask = getmonOHmain L result noh ohMask"
| "run_monitor L Mon_SCA result noh ohMask = getmonOHSCAmain L result noh ohMask"
| "run_monitor L (Mon_GBT doReset NGBT) result noh ohMask = getmonGBTLink L result noh ohMask doReset NGBT"
| "run_monitor L (Mon_Sysmon doReset) result noh ohMask = getmonOHSysmon L result noh ohMask doReset"
| "run_monitor L (Mon_VFATLink doReset) result noh ohMask = getmonVFATLink L result noh ohMask doReset"
| "run_monitor L (Mon_OHLink doReset vfatLinkMon) result noh ohMask = getmonOHLink L result vfatLinkMon noh ohMask doReset"

fun monitor_args :: "('m, 's) rpc_lib \<Rightarrow> monitor \<Rightarrow> u32 \<Rightarrow> u32 \<Rightarrow> ('m, 's, 'x) rpc_stmt list" where
  "monitor_args L Mon_TTC noh ohMask = []"
| "monitor_args L Mon_DAQ noh ohMask = []"
| "monitor_args L (Mon_GBT doReset NGBT) noh ohMask = [set_word L ''NOH'' noh, set_bool L ''doReset'' doReset]"
| "monitor_args L (Mon_VFATLink doReset) noh ohMask = [set_word L ''NOH'' noh, set_bool L ''doReset'' doReset]"
| "monitor_args L (Mon_OHLink doReset q) noh ohMask = [set_word L ''NOH'' noh, set_bool L ''doReset'' doReset]"
| "monitor_args L (Mon_Sysmon doReset) noh ohMask =
     [set_word L ''NOH'' noh, set_word L ''ohMask'' ohMask, set_bool L ''doReset'' doReset]"
| "monitor_args L mon noh ohMask = [set_word L ''NOH'' noh, set_word L ''ohMask'' ohMask]"

fun monitor_size :: "monitor \<Rightarrow> nat \<Rightarrow> nat" where
  "monitor_size Mon_TTC n = 5"
| "monitor_size Mon_TRIGGER n = n + 1"
| "monitor_size Mon_TRIGGEROH n = 8 * n"
| "monitor_size Mon_DAQ n = 9"
| "monitor_size Mon_DAQOH n = 6 * n"
| "monitor_size Mon_OH n = 7 * n"
| "monitor_size Mon_SCA n = 20 * n"
| "monitor_size (Mon_GBT doReset NGBT) n = 12 * n"
| "monitor_size (Mon_Sysmon doReset) n = 9 * n"
| "monitor_size (Mon_VFATLink doReset) n = 72 * n"
| "monitor_size (Mon_OHLink doReset q) n = 12 * n"

text \<open>Cells of the buffer \<^verbatim>\<open>result\<close>, and those of the second buffer of \<^verbatim>\<open>getmonOHLink\<close>.\<close>

fun result_cells :: "monitor \<Rightarrow> u32 \<Rightarrow> u32 \<Rightarrow> (nat \<times> source) list" where
  "result_cells Mon_TTC noh ohMask =
     [(0, Get_word ''MMCM_LOCKED''), (1, Get_word ''TTC_SINGLE_ERROR_CNT''), (2, Get_word ''BC0_LOCKED''),
      (3, Get_word ''L1A_ID''), (4, Get_word ''L1A_RATE'')]"
| "result_cells Mon_TRIGGER noh ohMask =
     (0, Get_word ''OR_TRIGGER_RATE'') #
     map (\<lambda>ohN. (ohN + 1, Get_word (oh_key ohN ''TRIGGER_RATE''))) (enabled_ohs noh ohMask)"
| "result_cells Mon_TRIGGEROH noh ohMask = oh_table TRIGGEROH_columns noh ohMask"
| "result_cells Mon_DAQ noh ohMask =
     [(0, Get_word ''DAQ_ENABLE''), (1, Get_word ''DAQ_LINK_READY''), (2, Get_word ''DAQ_LINK_AFULL''),
      (3, Get_word ''DAQ_OFIFO_HAD_OFLOW''), (4, Get_word ''L1A_FIFO_HAD_OFLOW''), (5, Get_word ''L1A_FIFO_DATA_COUNT''),
      (6, Get_word ''DAQ_FIFO_DATA_COUNT''), (7, Get_word ''EVENT_SENT''), (8, Get_word ''TTS_STATE'')]"
| "result_cells Mon_DAQOH noh ohMask = oh_table DAQOH_columns noh ohMask"
| "result_cells Mon_OH noh ohMask = oh_table OHmain_columns noh ohMask"
| "result_cells Mon_SCA noh ohMask = struct_table 20 SCA_members noh ohMask"
| "result_cells (Mon_GBT doReset NGBT) noh ohMask = struct_table 12 (concat (map gbt_members [0..<unat NGBT])) noh ohMask"
| "result_cells (Mon_Sysmon doReset) noh ohMask = struct_table 9 Sysmon_members noh ohMask"
| "result_cells (Mon_VFATLink doReset) noh ohMask = struct_table 72 (concat (map VFATLink_members [0..<24])) noh ohMask"
| "result_cells (Mon_OHLink doReset q) noh ohMask = struct_table 12 (concat (map gbt_members [0..<3])) noh ohMask"

fun second_cells :: "monitor \<Rightarrow> u32 \<Rightarrow> u32 \<Rightarrow> (ptr \<times> source) list" where
  "second_cells (Mon_OHLink doReset q) noh ohMask =
     cells_at q (struct_table 72 (concat (map OHLink_members [0..<24])) noh ohMask)"
| "second_cells mon noh ohMask = []"

definition monitor_cells :: "monitor \<Rightarrow> ptr \<Rightarrow> u32 \<Rightarrow> u32 \<Rightarrow> (ptr \<times> source) list" where
  "monitor_cells mon result noh ohMask = cells_at result (result_cells mon noh ohMask) @ second_cells mon noh ohMask"

text \<open>The buffers have room, at most three GBTs are asked for, and the two buffers of \<^verbatim>\<open>getmonOHLink\<close> do not overlap.\<close>

fun args_ok :: "monitor \<Rightarrow> ptr \<Rightarrow> nat \<Rightarrow> heap \<Rightarrow> bool" where
  "args_ok (Mon_GBT doReset NGBT) result n h \<longleftrightarrow> unat NGBT \<le> 3"
| "args_ok (Mon_OHLink doReset q) result n h \<longleftrightarrow> in_bounds h q (72 * n) \<and>
     (fst result \<noteq> fst q \<or> snd result + 12 * n \<le> snd q \<or> snd q + 72 * n \<le> snd result)"
| "args_ok mon result n h \<longleftrightarrow> True"

definition monitor_ok :: "monitor \<Rightarrow> ptr \<Rightarrow> u32 \<Rightarrow> heap \<Rightarrow> bool" where
  "monitor_ok mon result noh h \<longleftrightarrow>
     in_bounds h result (monitor_size mon (unat noh)) \<and> args_ok mon result (unat noh) h"

section \<open>The cells are in the buffers and apart\<close>

lemma distinct_rows:
  assumes "distinct xs" and "\<And>x. x \<in> set xs \<Longrightarrow> distinct (f x)"
    and "\<And>x y i. x \<in> set xs \<Longrightarrow> y \<in> set xs \<Longrightarrow> i \<in> set (f x) \<Longrightarrow> i \<in> set (f y) \<Longrightarrow> x = y"
  shows "distinct (concat (map f xs))"
  using assms
proof (induction xs)
  case (Cons x xs)
  then have "distinct (concat (map f xs))" by (intro Cons.IH) auto
  moreover have "set (f x) \<inter> (\<Union>y\<in>set xs. set (f y)) = {}" using Cons.prems(1,3) by fastforce
  ultimately show ?case using Cons.prems(2) by simp
qed simp

text \<open>The offsets of members that are arrays: lane \<open>x\<close> of every array.\<close>

lemma distinct_lanes:
  assumes "\<And>x. map fst (f x) = map (\<lambda>b. b + x) bases" and "distinct bases"
    and "\<And>a b. a \<in> set bases \<Longrightarrow> b \<in> set bases \<Longrightarrow> a < b \<Longrightarrow> a + n \<le> b"
  shows "distinct (map fst (concat (map f [0..<n])))"
proof -
  have "distinct (concat (map (\<lambda>x. map (\<lambda>b. b + x) bases) [0..<n]))"
  proof (rule distinct_rows)
    fix x y i
    assume "x \<in> set [0..<n]" "y \<in> set [0..<n]" "i \<in> set (map (\<lambda>b. b + x) bases)" "i \<in> set (map (\<lambda>b. b + y) bases)"
    then obtain a b where "x < n" "y < n" "a \<in> set bases" "b \<in> set bases" "a + x = b + y" by auto
    with assms(3) [of a b] assms(3) [of b a] show "x = y" by (cases a b rule: linorder_cases) auto
  qed (simp_all add: distinct_map assms(2))
  then show ?thesis by (simp add: map_concat comp_def assms(1))
qed

lemma members_distinct:
  "n \<le> 3 \<Longrightarrow> distinct (map fst (concat (map gbt_members [0..<n])))"
  "distinct (map fst (concat (map VFATLink_members [0..<24])))"
  "distinct (map fst (concat (map OHLink_members [0..<24])))"
  "distinct (map fst SCA_members)" "distinct (map fst Sysmon_members)"
  subgoal by (rule distinct_lanes [where bases = "[0, 3, 6, 9]"]) (auto simp: gbt_members_def)
  subgoal by (rule distinct_lanes [where bases = "[0, 24, 48]"]) (auto simp: VFATLink_members_def)
  subgoal by (rule distinct_lanes [where bases = "[0, 24, 48]"]) (auto simp: OHLink_members_def)
  by (auto simp: SCA_members_def Sysmon_members_def comp_def)

lemma members_less:
  "n \<le> 3 \<Longrightarrow> \<forall>j \<in> fst ` set (concat (map gbt_members [0..<n])). j < 12"
  "\<forall>j \<in> fst ` set (concat (map VFATLink_members [0..<24])). j < 72"
  "\<forall>j \<in> fst ` set (concat (map OHLink_members [0..<24])). j < 72"
  "\<forall>j \<in> fst ` set SCA_members. j < 20" "\<forall>j \<in> fst ` set Sysmon_members. j < 9"
  by (auto simp: members_defs)

lemmas tables_less = oh_table_less struct_table_less [OF _ members_less(1)] struct_table_less [OF _ members_less(2)]
  struct_table_less [OF _ members_less(3)] struct_table_less [OF _ members_less(4)] struct_table_less [OF _ members_less(5)]

lemmas tables_single = oh_table_single
  struct_table_single [OF members_distinct(1) members_less(1)] struct_table_single [OF members_distinct(2) members_less(2)]
  struct_table_single [OF members_distinct(3) members_less(3)] struct_table_single [OF members_distinct(4) members_less(4)]
  struct_table_single [OF members_distinct(5) members_less(5)]

lemma result_cells_less:
  assumes "(i, src) \<in> set (result_cells mon noh ohMask)" and "args_ok mon result (unat noh) h"
  shows "i < monitor_size mon (unat noh)"
proof -
  have "length TRIGGEROH_columns = 8" "length DAQOH_columns = 6" "length OHmain_columns = 7"
    by (simp_all add: columns_defs)
  with assms show ?thesis by (cases mon) (auto simp: enabled_ohs_def dest: tables_less)
qed

lemma result_cells_single: "args_ok mon result (unat noh) h \<Longrightarrow> single_valued (set (result_cells mon noh ohMask))"
  by (cases mon) (simp_all add: tables_single, auto simp: single_valued_def)

lemma cells_at_single: "single_valued (set cells) \<Longrightarrow> single_valued (set (cells_at p cells))"
  by (auto simp: cells_at_def single_valued_def ptr_add_def)

lemma monitor_cells_single:
  assumes "monitor_ok mon result noh h"
  shows "single_valued (set (monitor_cells mon result noh ohMask))"
proof -
  have ok: "args_ok mon result (unat noh) h" using assms by (simp add: monitor_ok_def)
  note result = cells_at_single [OF result_cells_single [OF ok], of result]
  show ?thesis
  proof (cases mon)
    case (Mon_OHLink doReset q)
    have "q1 \<noteq> q2" if x: "(q1, x) \<in> set (cells_at result (result_cells mon noh ohMask))"
      and y: "(q2, y) \<in> set (second_cells mon noh ohMask)" for q1 q2 x y
    proof -
      obtain i where i: "(i, x) \<in> set (result_cells mon noh ohMask)" "q1 = ptr_add result i"
        using x by (auto simp: cells_at_def)
      obtain j where j: "(j, y) \<in> set (struct_table 72 (concat (map OHLink_members [0..<24])) noh ohMask)" "q2 = ptr_add q j"
        using y Mon_OHLink by (auto simp: cells_at_def)
      show ?thesis
        using result_cells_less [OF i(1) ok] struct_table_less [OF j(1) members_less(3)] ok Mon_OHLink
        by (auto simp: i(2) j(2) ptr_add_def)
    qed
    moreover have "single_valued (set (second_cells mon noh ohMask))"
      by (simp add: Mon_OHLink cells_at_single tables_single)
    ultimately show ?thesis
      using result unfolding monitor_cells_def single_valued_def by (metis Un_iff set_append)
  qed (use result in \<open>simp_all add: monitor_cells_def\<close>)
qed

lemma monitor_cells_room:
  assumes "monitor_ok mon result noh h" and "(q, src) \<in> set (monitor_cells mon result noh ohMask)"
  shows "snd q < length (h (fst q))"
proof -
  have ok: "in_bounds h result (monitor_size mon (unat noh))" "args_ok mon result (unat noh) h"
    using assms(1) by (simp_all add: monitor_ok_def)
  show ?thesis
  proof (cases "(q, src) \<in> set (cells_at result (result_cells mon noh ohMask))")
    case True
    with result_cells_less [OF _ ok(2)] ok(1) show ?thesis
      by (fastforce simp: cells_at_def ptr_add_def in_bounds_def)
  next
    case False
    with assms(2) have "(q, src) \<in> set (second_cells mon noh ohMask)" by (simp add: monitor_cells_def)
    with ok(2) show ?thesis
      by (cases mon) (auto simp: cells_at_def ptr_add_def in_bounds_def dest!: struct_table_less [OF _ members_less(3)])
  qed
qed

section \<open>The functions fill their cells\<close>

lemma fills_member:
  "j = n * sz + fst m + i \<Longrightarrow> i < snd m \<Longrightarrow> fills L [(ptr_add p j, Get_word k)] (set_member L p sz n m i k)"
  "j = n * sz + fst m + i \<Longrightarrow> i < snd m \<Longrightarrow> fills L [(ptr_add p j, Get_flag k)] (set_member_bool L p sz n m i k)"
  by (simp_all add: set_member_def set_member_bool_def cell_def LET_opt_Some fills_word fills_flag)

lemma fills_put:
  "j = n * sz + fst m + i \<Longrightarrow> i < snd m \<Longrightarrow> fills L [(ptr_add p j, Put_word w)] (put_member p sz n m i w)"
  by (auto simp: put_member_def cell_def LET_opt_Some fills_def cells_ready_def store_word cell_word_def)

text \<open>A branch on a key of the reply.\<close>

lemma put_cells_cong:
  "(\<And>x. source_value L r (f x) = source_value L r (g x)) \<Longrightarrow>
    put_cells L r (map (\<lambda>(q, x). (q, f x)) qs) h = put_cells L r (map (\<lambda>(q, x). (q, g x)) qs) h"
  by (induction qs arbitrary: h) (auto simp: cell_word_def)

lemma fills_link:
  assumes "fills L (map (\<lambda>(q, k). (q, Get_word k)) qs) c" and "fills L (map (\<lambda>(q, k). (q, Put_word 0xdeaddead)) qs) d"
  shows "fills L (map (\<lambda>(q, k). (q, Get_link g k)) qs) (IF (key_exists L g) c d)"
  unfolding fills_def
proof (intro allI impI)
  fix s :: "('a, 'b, 'c) rpc_state_scheme"
  let ?src = "if RPCMsg_get_key_exists L (rsp s) g then Get_word else (\<lambda>k. Put_word 0xdeaddead)"
  have same: "source_value L (rsp s) (Get_link g k) = source_value L (rsp s) (?src k)" for k by simp
  assume "cells_ready L (rsp s) (map (\<lambda>(q, k). (q, Get_link g k)) qs) (heap s)"
  then have "cells_ready L (rsp s) (map (\<lambda>(q, k). (q, ?src k)) qs) (heap s)"
    unfolding cells_ready_def using same by fastforce
  with assms have "IF (key_exists L g) c d s = Next (s\<lparr>heap := put_cells L (rsp s) (map (\<lambda>(q, k). (q, ?src k)) qs) (heap s)\<rparr>)"
    by (auto simp: fills_def IF_def key_exists_def)
  with put_cells_cong [of L "rsp s" "Get_link g" ?src qs] same
  show "IF (key_exists L g) c d s = Next (s\<lparr>heap := put_cells L (rsp s) (map (\<lambda>(q, k). (q, Get_link g k)) qs) (heap s)\<rparr>)"
    by simp
qed

text \<open>The bodies of the loops.\<close>

lemma fills_gbt:
  "gbtN < 3 \<Longrightarrow> fills L (cells_at p (struct_cells 12 (gbt_members gbtN) ohN)) (read_gbt L p ohN gbtN)"
  unfolding read_gbt_def struct_cells_def gbt_members_def word_at_def oh_gbt_key_def list.map prod.case cells_at_simps
  by (intro fills_intros fills_member) (simp_all add: member_defs)

lemma fills_vfat_ohlink:
  "vfatN < 24 \<Longrightarrow> fills L (cells_at p (struct_cells 72 (OHLink_members vfatN) ohN)) (read_vfat_ohlink L p ohN vfatN)"
  unfolding read_vfat_ohlink_def struct_cells_def OHLink_members_def vfat_at_def list.map prod.case cells_at_simps
  by (intro fills_intros fills_member) (simp_all add: member_defs)

lemma fills_vfat_link:
  assumes "vfatN < 24"
  shows "fills L (cells_at p (struct_cells 72 (VFATLink_members vfatN) ohN)) (read_vfat_link L p ohN vfatN)"
proof -
  let ?qs = "[(ptr_add p (ohN * 72 + vfatN), oh_vfat_key ohN vfatN ''DAQ_CRC_ERROR_CNT''),
    (ptr_add p (ohN * 72 + (24 + vfatN)), oh_vfat_key ohN vfatN ''DAQ_EVENT_CNT''),
    (ptr_add p (ohN * 72 + (48 + vfatN)), oh_vfat_key ohN vfatN ''SYNC_ERR_CNT'')]"
  have "cells_at p (struct_cells 72 (VFATLink_members vfatN) ohN) =
      map (\<lambda>(q, k). (q, Get_link (oh_vfat_key ohN vfatN ''DAQ_CRC_ERROR_CNT'') k)) ?qs"
    by (simp add: struct_cells_def VFATLink_members_def link_at_def)
  then show ?thesis
    unfolding read_vfat_link_def using assms
    by (simp only:) (rule fills_link; unfold list.map prod.case; intro fills_intros fills_member fills_put; simp add: member_defs)
qed

lemma fills_sysmon:
  "fills L (cells_at p (struct_cells 9 Sysmon_members ohN)) (block
    [TRY (block
      [set_member_bool L p SysmonMonitor_size ohN isOverTemp 0 (oh_key ohN ''OVERTEMP''),
       set_member L p SysmonMonitor_size ohN cntOverTemp 0 (oh_key ohN ''CNT_OVERTEMP'')]) h,
     TRY (block
      [set_member_bool L p SysmonMonitor_size ohN isInVCCAuxAlarm 0 (oh_key ohN ''VCCAUX_ALARM''),
       set_member L p SysmonMonitor_size ohN cntVCCAuxAlarm 0 (oh_key ohN ''CNT_VCCAUX_ALARM'')]) h,
     TRY (block
      [set_member_bool L p SysmonMonitor_size ohN isInVCCIntAlarm 0 (oh_key ohN ''VCCINT_ALARM''),
       set_member L p SysmonMonitor_size ohN cntVCCIntAlarm 0 (oh_key ohN ''CNT_VCCINT_ALARM'')]) h,
     TRY (block
      [set_member L p SysmonMonitor_size ohN fpgaCoreTemp 0 (oh_key ohN ''FPGA_CORE_TEMP''),
       set_member L p SysmonMonitor_size ohN fpgaCore1V0 0 (oh_key ohN ''FPGA_CORE_1V0''),
       set_member L p SysmonMonitor_size ohN fpgaCore2V5_IO 0 (oh_key ohN ''FPGA_CORE_2V5_IO'')]) h])"
  (is "fills L _ (block [TRY ?a h, TRY ?b h, TRY ?c h, TRY ?d h])")
proof -
  let ?cell = "\<lambda>j src. (ptr_add p (ohN * 9 + j), src)"
  have parts: "fills L [?cell 0 (flag_at ''OVERTEMP'' ohN), ?cell 3 (word_at ''CNT_OVERTEMP'' ohN)] (TRY ?a h)"
    "fills L [?cell 1 (flag_at ''VCCAUX_ALARM'' ohN), ?cell 4 (word_at ''CNT_VCCAUX_ALARM'' ohN)] (TRY ?b h)"
    "fills L [?cell 2 (flag_at ''VCCINT_ALARM'' ohN), ?cell 5 (word_at ''CNT_VCCINT_ALARM'' ohN)] (TRY ?c h)"
    "fills L [?cell 6 (word_at ''FPGA_CORE_TEMP'' ohN), ?cell 7 (word_at ''FPGA_CORE_1V0'' ohN),
      ?cell 8 (word_at ''FPGA_CORE_2V5_IO'' ohN)] (TRY ?d h)"
    unfolding source_defs by (intro fills_TRY fills_intros fills_member; simp add: member_defs)+
  from fills_append [OF parts(1) fills_append [OF parts(2) fills_append [OF parts(3) fills_append [OF parts(4) fills_nil]]]]
  show ?thesis by (simp add: struct_cells_def Sysmon_members_def del: block.simps)
qed

lemma fills_sca:
  "fills L (cells_at p (struct_cells 20 SCA_members ohN)) (block
     [set_member L p SCAMonitor_size ohN scaTemp 0 (oh_key ohN ''SCA_TEMP''),
      FOR 9 (\<lambda>j. set_member L p SCAMonitor_size ohN ohBoardTemp j (oh_key ohN (''BOARD_TEMP'' @ to_string (j + 1)))),
      set_member L p SCAMonitor_size ohN AVCCN 0 (oh_key ohN ''AVCCN''),
      set_member L p SCAMonitor_size ohN AVTTN 0 (oh_key ohN ''AVTTN''),
      set_member L p SCAMonitor_size ohN voltage1V0_INT 0 (oh_key ohN ''1V0_INT''),
      set_member L p SCAMonitor_size ohN voltage1V8F 0 (oh_key ohN ''1V8F''),
      set_member L p SCAMonitor_size ohN voltage1V5 0 (oh_key ohN ''1V5''),
      set_member L p SCAMonitor_size ohN voltage2V5_IO 0 (oh_key ohN ''2V5_IO''),
      set_member L p SCAMonitor_size ohN voltage3V0 0 (oh_key ohN ''3V0''),
      set_member L p SCAMonitor_size ohN voltage1V8 0 (oh_key ohN ''1V8''),
      set_member L p SCAMonitor_size ohN VTRX_RSSI2 0 (oh_key ohN ''VTRX_RSSI2''),
      set_member L p SCAMonitor_size ohN VTRX_RSSI1 0 (oh_key ohN ''VTRX_RSSI1'')])"
proof -
  have temps: "fills L (concat (map (\<lambda>j. [(ptr_add p (ohN * 20 + j), Get_word (oh_key ohN (''BOARD_TEMP'' @ to_string (j + 1))))]) [0..<9]))
      (FOR 9 (\<lambda>j. set_member L p SCAMonitor_size ohN ohBoardTemp j (oh_key ohN (''BOARD_TEMP'' @ to_string (j + 1)))))"
    by (intro fills_FOR fills_member) (simp_all add: member_defs)
  have "concat (map (\<lambda>j. [(ptr_add p (ohN * 20 + j), Get_word (oh_key ohN (''BOARD_TEMP'' @ to_string (j + 1))))]) [0..<9]) =
      cells_at p (map (\<lambda>(j, src). (ohN * 20 + j, src ohN)) (map (\<lambda>j. (j, word_at (''BOARD_TEMP'' @ to_string (j + 1)))) [0..<9]))"
    by (simp add: cells_at_def word_at_def concat_map_singleton comp_def)
  note temps = temps [unfolded this]
  show ?thesis
    unfolding struct_cells_def SCA_members_def list.map map_append prod.case cells_at_simps
    by (intro fills_Cons fills_append [OF temps] fills_nil; unfold word_at_def; rule fills_member) (simp_all add: member_defs)
qed

text \<open>The loops.\<close>

lemma fills_lanes:
  assumes "\<And>x. x < n \<Longrightarrow> fills L (cells_at p (struct_cells sz (f x) ohN)) (body x)"
  shows "fills L (cells_at p (struct_cells sz (concat (map f [0..<n])) ohN)) (FOR n body)"
proof -
  have "cells_at p (struct_cells sz (concat (map f [0..<n])) ohN) = concat (map (\<lambda>x. cells_at p (struct_cells sz (f x) ohN)) [0..<n])"
    by (simp add: cells_at_def struct_cells_def map_concat comp_def)
  then show ?thesis using fills_FOR [OF assms] by simp
qed

lemma fills_tables:
  assumes "unat noh \<le> 32"
  shows "(\<And>ohN. ohN < unat noh \<Longrightarrow> fills L (cells_at p (table_cells (unat noh) names ohN)) (body ohN)) \<Longrightarrow>
      fills L (cells_at p (oh_table names noh ohMask)) (FOR_OH noh ohMask body)"
    and "(\<And>ohN. ohN < unat noh \<Longrightarrow> fills L (cells_at p (struct_cells sz members ohN)) (body ohN)) \<Longrightarrow>
      fills L (cells_at p (struct_table sz members noh ohMask)) (FOR_OH noh ohMask body)"
  unfolding oh_table_def struct_table_def cells_at_concat by (blast intro: fills_FOR_OH [OF assms])+

lemma fills_columns:
  assumes "unat noh \<le> 32" and "ohN < unat noh" and "length names \<le> 8"
  shows "fills L (cells_at p (table_cells (unat noh) names ohN))
    (block (map (\<lambda>c. assign_word L p (oh_index noh ohN c) (oh_key ohN (names ! c))) [0..<length names]))"
proof -
  have "fills L (concat (map (\<lambda>c. [(ptr_add p (ohN + c * unat noh), Get_word (oh_key ohN (names ! c)))]) [0..<length names]))
    (block (map (\<lambda>c. assign_word L p (oh_index noh ohN c) (oh_key ohN (names ! c))) [0..<length names]))"
    using assms by (intro fills_block_map) (simp add: oh_index_eq fills_word)
  then show ?thesis by (simp add: cells_at_def table_cells_def concat_map_singleton comp_def)
qed

lemma fills_trigger:
  assumes "unat noh \<le> 32"
  shows "fills L (cells_at p (result_cells Mon_TRIGGER noh ohMask)) (block
    [assign_word L p 0 ''OR_TRIGGER_RATE'',
     FOR_OH noh ohMask (\<lambda>ohN. assign_word L p (unat (of_nat ohN + 1 :: u32)) (oh_key ohN ''TRIGGER_RATE''))])"
proof -
  have "fills L (concat (map (\<lambda>ohN. [(ptr_add p (ohN + 1), Get_word (oh_key ohN ''TRIGGER_RATE''))]) (enabled_ohs noh ohMask)))
      (FOR_OH noh ohMask (\<lambda>ohN. assign_word L p (unat (of_nat ohN + 1 :: u32)) (oh_key ohN ''TRIGGER_RATE'')))"
  proof (rule fills_FOR_OH [OF assms])
    fix ohN
    assume "ohN < unat noh"
    then have "unat (of_nat ohN + 1 :: u32) = ohN + 1" using assms by (simp add: unat_word_ariths unat_of_nat)
    then show "fills L [(ptr_add p (ohN + 1), Get_word (oh_key ohN ''TRIGGER_RATE''))]
        (assign_word L p (unat (of_nat ohN + 1 :: u32)) (oh_key ohN ''TRIGGER_RATE''))"
      by (simp only: fills_word)
  qed
  from fills_Cons [OF fills_word [of L p 0 "''OR_TRIGGER_RATE''"] fills_append [OF this fills_nil]] show ?thesis
    by (simp add: cells_at_def concat_map_singleton comp_def del: block.simps)
qed

lemma fills_ohlink:
  assumes "unat noh \<le> 32"
  shows "\<exists>cells. set cells = set (monitor_cells (Mon_OHLink doReset q) p noh ohMask) \<and>
    fills L cells (FOR_OH noh ohMask (\<lambda>ohN. block
      [FOR 3 (\<lambda>gbtN. read_gbt L p ohN gbtN), FOR 24 (\<lambda>vfatN. read_vfat_ohlink L q ohN vfatN)]))"
proof (intro exI conjI)
  let ?cells = "\<lambda>ohN. cells_at p (struct_cells 12 (concat (map gbt_members [0..<3])) ohN) @
    cells_at q (struct_cells 72 (concat (map OHLink_members [0..<24])) ohN)"
  show "fills L (concat (map ?cells (enabled_ohs noh ohMask))) (FOR_OH noh ohMask (\<lambda>ohN. block
      [FOR 3 (\<lambda>gbtN. read_gbt L p ohN gbtN), FOR 24 (\<lambda>vfatN. read_vfat_ohlink L q ohN vfatN)]))"
  proof (rule fills_FOR_OH [OF assms])
    fix ohN
    have "fills L (cells_at p (struct_cells 12 (concat (map gbt_members [0..<3])) ohN)) (FOR 3 (\<lambda>gbtN. read_gbt L p ohN gbtN))"
      by (rule fills_lanes) (simp add: fills_gbt)
    moreover have "fills L (cells_at q (struct_cells 72 (concat (map OHLink_members [0..<24])) ohN))
        (FOR 24 (\<lambda>vfatN. read_vfat_ohlink L q ohN vfatN))"
      by (rule fills_lanes) (simp add: fills_vfat_ohlink)
    ultimately show "fills L (?cells ohN)
        (block [FOR 3 (\<lambda>gbtN. read_gbt L p ohN gbtN), FOR 24 (\<lambda>vfatN. read_vfat_ohlink L q ohN vfatN)])"
      using fills_append [OF _ fills_append [OF _ fills_nil]] by fastforce
  qed
  show "set (concat (map ?cells (enabled_ohs noh ohMask))) = set (monitor_cells (Mon_OHLink doReset q) p noh ohMask)"
    by (simp add: monitor_cells_def struct_table_def cells_at_concat UN_Un_distrib)
qed

text \<open>Every function is a request, the call, and a body that fills its cells.\<close>

definition has_shape :: "('m, 's) rpc_lib \<Rightarrow> monitor \<Rightarrow> ptr \<Rightarrow> u32 \<Rightarrow> u32 \<Rightarrow> string \<Rightarrow> (ptr \<times> source) list \<Rightarrow>
    ('m, 's, 'x) rpc_stmt \<Rightarrow> bool" where
  "has_shape L mon p noh ohMask name cells body \<longleftrightarrow>
     run_monitor L mon p noh ohMask = block ((req_new L name # monitor_args L mon noh ohMask) @
       [TRY (call_method L) STANDARD_CATCH, monitor_reply L body, RETURN 0]) \<and>
     set cells = set (monitor_cells mon p noh ohMask) \<and> fills L cells body"

lemma has_shapeI:
  fixes body :: "('m, 's, 'x) rpc_stmt"
  shows "run_monitor L mon p noh ohMask = block ((req_new L name # monitor_args L mon noh ohMask) @
      [TRY (call_method L) STANDARD_CATCH, monitor_reply L body, RETURN 0]) \<Longrightarrow>
    second_cells mon noh ohMask = [] \<Longrightarrow> fills L (cells_at p (result_cells mon noh ohMask)) body \<Longrightarrow>
    \<exists>name cells (body :: ('m, 's, 'x) rpc_stmt). has_shape L mon p noh ohMask name cells body"
  unfolding has_shape_def monitor_cells_def
  by (intro exI [of _ name] exI [of _ "cells_at p (result_cells mon noh ohMask)"] exI [of _ body]) simp

text \<open>The functions with a table, their columns in a list.\<close>

lemma table_shape:
  fixes L :: "('m, 's) rpc_lib"
  assumes "unat noh \<le> 32" and "length names \<le> 8"
    and "run_monitor L mon p noh ohMask = (block ((req_new L name # monitor_args L mon noh ohMask) @
      [TRY (call_method L) STANDARD_CATCH, monitor_reply L (FOR_OH noh ohMask (\<lambda>ohN. block
        (map (\<lambda>c. assign_word L p (oh_index noh ohN c) (oh_key ohN (names ! c))) [0..<length names]))), RETURN 0]) ::
          ('m, 's, 'x) rpc_stmt)"
    and "result_cells mon noh ohMask = oh_table names noh ohMask" and "second_cells mon noh ohMask = []"
  shows "\<exists>name cells (body :: ('m, 's, 'x) rpc_stmt). has_shape L mon p noh ohMask name cells body"
  by (rule has_shapeI [OF assms(3,5)], unfold assms(4)) (intro fills_tables(1) fills_columns assms)

lemma table_monitors_shape:
  assumes noh: "unat noh \<le> 32" and "mon \<in> {Mon_TRIGGEROH, Mon_DAQOH, Mon_OH}"
  shows "\<exists>name cells body. has_shape L mon p noh ohMask name cells body"
proof (cases mon)
  case Mon_TRIGGEROH
  show ?thesis
    by (rule table_shape [OF noh, where names = TRIGGEROH_columns and name = "''daq_monitor.getmonTRIGGEROHmain''"])
      (simp_all add: Mon_TRIGGEROH getmonTRIGGEROHmain_def columns_defs eval_nat_numeral del: block.simps)
next
  case Mon_DAQOH
  show ?thesis
    by (rule table_shape [OF noh, where names = DAQOH_columns and name = "''daq_monitor.getmonDAQOHmain''"])
      (simp_all add: Mon_DAQOH getmonDAQOHmain_def columns_defs eval_nat_numeral del: block.simps)
next
  case Mon_OH
  show ?thesis
    by (rule table_shape [OF noh, where names = OHmain_columns and name = "''daq_monitor.getmonOHmain''"])
      (simp_all add: Mon_OH getmonOHmain_def columns_defs eval_nat_numeral del: block.simps)
qed (use assms(2) in simp_all)

lemma struct_monitors_shape:
  assumes noh: "unat noh \<le> 32" and ok: "args_ok mon p (unat noh) h"
    and "mon \<notin> {Mon_TTC, Mon_DAQ, Mon_TRIGGER, Mon_TRIGGEROH, Mon_DAQOH, Mon_OH}"
  shows "\<exists>name cells body. has_shape L mon p noh ohMask name cells body"
proof (cases mon)
  case Mon_SCA
  note loop = fills_tables(2) [OF noh fills_sca, of L p ohMask, folded result_cells.simps(7), folded Mon_SCA]
  show ?thesis
    by (rule has_shapeI [OF _ _ loop, where name = "''daq_monitor.getmonOHSCAmain''"])
      (simp_all add: Mon_SCA getmonOHSCAmain_def del: block.simps)
next
  case (Mon_GBT doReset NGBT)
  have "fills L (cells_at p (result_cells mon noh ohMask)) (FOR_OH noh ohMask (\<lambda>ohN. FOR (unat NGBT) (\<lambda>gbtN. read_gbt L p ohN gbtN)))"
    using ok unfolding Mon_GBT result_cells.simps by (intro fills_tables(2) [OF noh] fills_lanes fills_gbt) simp
  then show ?thesis
    by (rule has_shapeI [where name = "''daq_monitor.getmonGBTLink''", rotated 2])
      (simp_all add: Mon_GBT getmonGBTLink_def del: block.simps)
next
  case (Mon_Sysmon doReset)
  show ?thesis
    by (rule has_shapeI [where name = "''daq_monitor.getmonOHSysmon''"], simp add: Mon_Sysmon getmonOHSysmon_def del: block.simps)
      (simp_all add: Mon_Sysmon fills_tables(2) [OF noh] fills_sysmon del: block.simps)
next
  case (Mon_VFATLink doReset)
  have "fills L (cells_at p (result_cells mon noh ohMask)) (FOR_OH noh ohMask (\<lambda>ohN. FOR 24 (\<lambda>vfatN. read_vfat_link L p ohN vfatN)))"
    unfolding Mon_VFATLink result_cells.simps by (intro fills_tables(2) [OF noh] fills_lanes fills_vfat_link)
  then show ?thesis
    by (rule has_shapeI [where name = "''daq_monitor.getmonVFATLink''", rotated 2])
      (simp_all add: Mon_VFATLink getmonVFATLink_def del: block.simps)
next
  case (Mon_OHLink doReset q)
  with fills_ohlink [OF noh, of doReset q p ohMask L] show ?thesis
    by (fastforce simp: has_shape_def getmonOHLink_def simp del: block.simps)
qed (use assms(3) in simp_all)

lemma monitor_shape:
  assumes noh: "unat noh \<le> 32" and ok: "args_ok mon p (unat noh) h"
  shows "\<exists>name cells body. has_shape L mon p noh ohMask name cells body"
proof (cases mon)
  case Mon_TTC
  show ?thesis
    by (rule has_shapeI [where name = "''daq_monitor.getmonTTCmain''"], simp add: Mon_TTC getmonTTCmain_def del: block.simps One_nat_def)
      (simp add: Mon_TTC, unfold Mon_TTC result_cells.simps cells_at_simps, intro fills_intros)
next
  case Mon_DAQ
  show ?thesis
    by (rule has_shapeI [where name = "''daq_monitor.getmonDAQmain''"], simp add: Mon_DAQ getmonDAQmain_def del: block.simps One_nat_def)
      (simp add: Mon_DAQ, unfold Mon_DAQ result_cells.simps cells_at_simps, intro fills_intros)
next
  case Mon_TRIGGER
  show ?thesis
    by (rule has_shapeI [OF _ _ fills_trigger [OF noh, folded Mon_TRIGGER], where name = "''daq_monitor.getmonTRIGGERmain''"])
      (simp_all add: Mon_TRIGGER getmonTRIGGERmain_def del: block.simps)
qed (rule table_monitors_shape [OF noh] struct_monitors_shape [OF noh ok]; simp)+

lemma monitor_args_set: "\<forall>c \<in> set (monitor_args L mon noh ohMask). \<exists>k w. valid_key k \<and> c = set_word L k w"
  by (cases mon) (auto simp: set_bool_def intro!: exI conjI [OF _ refl])

lemma setters_run:
  assumes "rpc_msg_store L" and "\<forall>c \<in> set cs. \<exists>k w. valid_key k \<and> c = set_word L k w"
  shows "\<exists>m'. block cs (s\<lparr>req := m\<rparr>) = Next (s\<lparr>req := m'\<rparr>)"
  using assms(2)
proof (induction cs arbitrary: m)
  case (Cons c cs)
  then obtain k w where k: "valid_key k" and c: "c = set_word L k w" by auto
  obtain m' where "RPCMsg_set_word L m k w = Inr m'" using rpc_msg_store.set_word_ok [OF assms(1) k] by blast
  with Cons.IH [of m'] Cons.prems show ?case by (simp add: c stmt_simps)
qed auto

lemma monitor_request:
  assumes "rpc_msg_store L"
  shows "\<exists>m. block (req_new L name # monitor_args L mon noh ohMask) s = Next (s\<lparr>req := m\<rparr>)"
  using setters_run [OF assms monitor_args_set] by (simp add: stmt_simps)

lemma monitor_reply_path:
  assumes "RPCSvc_call_method L (svc s) (req s) = (Inr r, v)" and "\<not> RPCMsg_get_key_exists L r ''error''"
    and "body (s\<lparr>svc := v, rsp := r\<rparr>) = Next t"
  shows "block [TRY (call_method L) STANDARD_CATCH, monitor_reply L body, RETURN 0] s = Return 0 t"
  using assms by (simp add: stmt_simps)

text \<open>
  On the same reply \<^verbatim>\<open>getmonVFATLink\<close> and \<^verbatim>\<open>getmonOHLink\<close> fill the members of a VFAT differently: the
  latter stores the synchronisation error count in \<^verbatim>\<open>daqCRCErrCnt\<close>, the former in \<^verbatim>\<open>syncErrCnt\<close>, as
  the names say.
\<close>

lemma vfat_link_members:
  assumes "vfatN < 24"
  shows "fills L (cells_at p (struct_cells 72 (VFATLink_members vfatN) ohN)) (read_vfat_link L p ohN vfatN)"
    and "fills L (cells_at p (struct_cells 72 (OHLink_members vfatN) ohN)) (read_vfat_ohlink L p ohN vfatN)"
    and "VFATLink_members vfatN ! 0 = (vfatN, link_at vfatN ''DAQ_CRC_ERROR_CNT'')"
    and "OHLink_members vfatN ! 0 = (vfatN, vfat_at vfatN ''SYNC_ERR_CNT'')"
  by (rule fills_vfat_link fills_vfat_ohlink, rule assms)+ (simp_all add: VFATLink_members_def OHLink_members_def)

section \<open>Properties\<close>

text \<open>
  C9: when the reply has a value for every cell of its buffers, each of the eleven monitoring functions
  returns 0 with the value of the reply in every cell: the flags and counters of the TTC and DAQ modules,
  the trigger rates, for the three tables of optohybrids word \<open>c\<close> of a selected optohybrid \<open>n\<close> at
  \<open>n + c * noh\<close>, and for the SCA and Sysmon values, the GBT links and the VFAT links the members of structure
  \<open>n\<close>, with \<^verbatim>\<open>0xdeaddead\<close> for a VFAT \<^verbatim>\<open>getmonVFATLink\<close> has no count of. All other memory, the rows and
  structures of the optohybrids not selected among it, is unchanged.
\<close>

theorem monitor_fills_cells:
  fixes s :: "('m, 's, 'x) rpc_state_scheme"
  assumes "rpc_msg_store L" and call: "\<And>m. RPCSvc_call_method L (svc s) m = (Inr r, v)"
    and error: "\<not> RPCMsg_get_key_exists L r ''error''"
    and words: "\<And>q src. (q, src) \<in> set (monitor_cells mon result noh ohMask) \<Longrightarrow> \<exists>w. source_value L r src = Some w"
    and noh: "unat noh \<le> 32" and ok: "monitor_ok mon result noh (heap s)"
  shows "\<exists>t. run_monitor L mon result noh ohMask s = Return 0 t \<and>
    cells_filled L r (monitor_cells mon result noh ohMask) (heap s) (heap t)"
proof -
  obtain name cells and body :: "('m, 's, 'x) rpc_stmt" where shape: "has_shape L mon result noh ohMask name cells body"
    using monitor_shape [OF noh] ok unfolding monitor_ok_def by blast
  then have same: "set cells = set (monitor_cells mon result noh ohMask)" by (simp add: has_shape_def)
  have "source_value L r src \<noteq> None \<and> snd q < length (heap s (fst q))"
    if "(q, src) \<in> set (monitor_cells mon result noh ohMask)" for q src
    using words [OF that] monitor_cells_room [OF ok that] by auto
  then have ready: "cells_ready L r cells (heap s)" by (auto simp: cells_ready_def same)
  obtain m where req: "block (req_new L name # monitor_args L mon noh ohMask) s = Next (s\<lparr>req := m\<rparr>)"
    using monitor_request [OF assms(1)] by blast
  let ?t = "s\<lparr>req := m, svc := v, rsp := r, heap := put_cells L r cells (heap s)\<rparr>"
  have "body (s\<lparr>req := m, svc := v, rsp := r\<rparr>) = Next ?t"
    using shape ready by (simp add: has_shape_def fills_def)
  then have "block [TRY (call_method L) STANDARD_CATCH, monitor_reply L body, RETURN 0] (s\<lparr>req := m\<rparr>) = Return 0 ?t"
    using call error by (intro monitor_reply_path) simp_all
  then have "run_monitor L mon result noh ohMask s = Return 0 ?t"
    using shape req unfolding has_shape_def by (simp only: block_append) simp
  moreover have "cells_filled L r cells (heap s) (heap ?t)"
    using cells_filled_put [OF _ ready] monitor_cells_single [OF ok] by (simp add: same)
  ultimately show ?thesis by (auto simp: cells_filled_def same)
qed

text \<open>A reply of the reference library with the value \<open>w\<close> in every column of optohybrid 1.\<close>

definition ref_table :: "string list \<Rightarrow> u32 \<Rightarrow> rmsg" where
  "ref_table names w = ([], map (\<lambda>name. (oh_key 1 name, MWord w)) names)"

lemma map_of_const: "name \<in> set names \<Longrightarrow> map_of (map (\<lambda>n. (f n, x)) names) (f name) = Some x"
  by (induction names) auto

lemma ref_table_no_error: "map_of (map (\<lambda>name. (oh_key n name, x)) names) ''error'' = None"
  by (induction names) (auto simp: oh_key_def)

lemma ref_table_call:
  "RPCSvc_call_method ref_lib (svc (ref_state (Answering (\<lambda>m. Inr r)) h)) m = (Inr r, Answering (\<lambda>m. Inr r))"
  by (simp add: ref_lib_def ref_call_def ref_state_def)

theorem monitor_fills_cells_witness:
  "\<exists>t. run_monitor ref_lib Mon_OH (0, 0) 2 2
      (ref_state (Answering (\<lambda>m. Inr (ref_table OHmain_columns 7))) (\<lambda>b. replicate 14 0)) = Return 0 t \<and>
    cells_filled ref_lib (ref_table OHmain_columns 7) (cells_at (0, 0) (oh_table OHmain_columns 2 2))
      (\<lambda>b. replicate 14 0) (heap t)"
proof -
  have "enabled_ohs 2 2 = [1]"
    by (simp add: enabled_ohs_def upt_rec bit_numeral_rec bit_1_iff)
  then have cells: "\<exists>w. source_value ref_lib (ref_table OHmain_columns 7) src = Some w"
    if "(q, src) \<in> set (monitor_cells Mon_OH (0, 0) 2 2)" for q src
    using that by (auto simp: monitor_cells_def cells_at_def oh_table_def table_cells_def reply_word_def ref_table_def
        ref_defs map_of_const)
  have "\<not> RPCMsg_get_key_exists ref_lib (ref_table OHmain_columns 7) ''error''"
    by (simp add: ref_table_def ref_defs ref_table_no_error)
  with monitor_fills_cells [where mon = Mon_OH and noh = 2 and ohMask = 2 and result = "(0, 0)",
      OF ref.rpc_msg_store_axioms ref_table_call [where h = "\<lambda>b. replicate 14 0"] _ cells]
  show ?thesis by (simp add: monitor_ok_def monitor_cells_def in_bounds_def ref_state_def)
qed

end
