(* ===== verification/Rpc_Amc.thy ===== *)
theory Rpc_Amc
  imports Rpc_Sca
begin

text \<open>
  \<^verbatim>\<open>xhalcore/src/common/rpc_manager/amc.cc\<close>: VFAT masks, repeated register reads, and the trigger
  data readout, which acquires in a loop and writes one file per acquisition.
\<close>

section \<open>Masks and repeated reads\<close>

text \<open>\<^verbatim>\<open>return rsp.get_word(k);\<close>\<close>

definition return_word :: "('m, 's) rpc_lib \<Rightarrow> string \<Rightarrow> ('m, 's, 'x) rpc_stmt" where
  "return_word L k s = (case RPCMsg_get_word L (rsp s) k of Inl e \<Rightarrow> raise e s | Inr w \<Rightarrow> Return w s)"

definition getOHVFATMask :: "('m, 's) rpc_lib \<Rightarrow> u32 \<Rightarrow> ('m, 's, 'x) rpc_stmt" where
  "getOHVFATMask L ohN = block
     [req_new L ''amc.getOHVFATMask'',
      set_word L ''ohN'' ohN,
      TRY (call_method L) STANDARD_CATCH,
      check_error L 0xffffffff,
      return_word L ''vfatMask'']"

definition getOHVFATMaskMultiLink :: "('m, 's) rpc_lib \<Rightarrow> u32 \<Rightarrow> ptr \<Rightarrow> ('m, 's, 'x) rpc_stmt" where
  "getOHVFATMaskMultiLink L ohMask ohVfatMaskArray = block
     [req_new L ''amc.getOHVFATMaskMultiLink'',
      set_word L ''ohMask'' ohMask,
      TRY (call_method L) STANDARD_CATCH,
      check_error L 1,
      fetch_data L ''ohVfatMaskArray'' 12 ohVfatMaskArray,
      RETURN 0]"

definition repeatedRegRead :: "('m, 's) rpc_lib \<Rightarrow> string \<Rightarrow> u32 \<Rightarrow> bool \<Rightarrow> ('m, 's, 'x) rpc_stmt" where
  "repeatedRegRead L regName nReads breakOnFailure = block
     [req_new L ''amc.repeatedRegRead'',
      set_string_array L ''regList'' [regName],
      set_word L ''nReads'' nReads,
      set_bool L ''breakOnFailure'' breakOnFailure,
      TRY (call_method L) STANDARD_CATCH,
      check_error L 0xffffffff,
      return_word L ''SUM'']"

section \<open>Trigger data readout\<close>

text \<open>The text written for one acquisition: a header line, then eight clusters per line.\<close>

definition sbit_header :: string where
  "sbit_header =
     ''evtNum/I:'' @ concat (map (\<lambda>c. ''sbitClusterData'' @ to_string c @ ''/I:'') [0..<8]) @ [CHR 0x0A]"

text \<open>
  The loop over the stored words. The first word opens event 0 whatever the position counter is;
  the counters are 32-bit.
\<close>

fun sbit_rows :: "bool \<Rightarrow> u32 \<Rightarrow> u32 \<Rightarrow> u32 list \<Rightarrow> string" where
  "sbit_rows first sbitPos evtNum [] = []"
| "sbit_rows first sbitPos evtNum (w # ws) =
     (if first \<or> (0 \<noteq> sbitPos mod 8 \<and> 1 = sbitPos mod 8)
      then to_string (unat evtNum) @ [CHR 0x09] @ to_string (unat w) @ [CHR 0x09]
           @ sbit_rows False (sbitPos + 1) (evtNum + 1) ws
      else if 0 = sbitPos mod 8
      then to_string (unat w) @ [CHR 0x0A] @ sbit_rows False (sbitPos + 1) evtNum ws
      else to_string (unat w) @ [CHR 0x09] @ sbit_rows False (sbitPos + 1) evtNum ws)"

definition sbit_text :: "u32 list \<Rightarrow> string" where
  "sbit_text ws = sbit_header @ sbit_rows True 1 0 ws"

record ('m, 's) sbit_state = "('m, 's) rpc_state" +
  netTime :: u32
  runNum :: nat

definition sbit_file :: "string \<Rightarrow> nat \<Rightarrow> string" where
  "sbit_file outFilePath run = outFilePath @ ''/sbitReadOut_run'' @ to_string run @ ''.dat''"

definition EIO :: u32 where "EIO = 5"

text \<open>Opening the output file of the current run truncates it; whether it opens is up to the system.\<close>

definition open_file :: "(string \<Rightarrow> bool) \<Rightarrow> string \<Rightarrow> (cxx_exn, u32, ('m, 's) sbit_state) stmt" where
  "open_file can_open path s =
     (let f = sbit_file path (runNum s)
      in if can_open f then Next (s\<lparr>files := (files s)(f \<mapsto> [])\<rparr>) else Return EIO s)"

definition add_live_time :: "('m, 's) rpc_lib \<Rightarrow> (cxx_exn, u32, ('m, 's) sbit_state) stmt" where
  "add_live_time L s =
     (case RPCMsg_get_word L (rsp s) ''approxLiveTime'' of
        Inl e \<Rightarrow> raise e s
      | Inr w \<Rightarrow> Next (s\<lparr>netTime := netTime s + w\<rparr>))"

definition write_sbits :: "('m, 's) rpc_lib \<Rightarrow> string \<Rightarrow> (cxx_exn, u32, ('m, 's) sbit_state) stmt" where
  "write_sbits L path s =
     (case RPCMsg_get_word_array L (rsp s) ''storedSbits'' of
        Inl e \<Rightarrow> raise e s
      | Inr ws \<Rightarrow> Next (s\<lparr>files := (files s)(sbit_file path (runNum s) \<mapsto> sbit_text ws)\<rparr>))"

text \<open>\<^verbatim>\<open>runNum++\<close> on an \<^verbatim>\<open>int\<close>: overflow is undefined.\<close>

definition next_run :: "(cxx_exn, u32, ('m, 's) sbit_state) stmt" where
  "next_run s = (if runNum s < 2 ^ 31 - 1 then Next (s\<lparr>runNum := runNum s + 1\<rparr>) else Undefined)"

definition sbit_iteration ::
  "('m, 's) rpc_lib \<Rightarrow> (string \<Rightarrow> bool) \<Rightarrow> u32 \<Rightarrow> string \<Rightarrow> (cxx_exn, u32, ('m, 's) sbit_state) stmt" where
  "sbit_iteration L can_open acquireTime outFilePath = block
     [open_file can_open outFilePath,
      TRY (call_method L) STANDARD_CATCH,
      check_error L 1,
      IF (key_exists L ''maxNetworkSizeReached'')
        (add_live_time L)
        (UPD (\<lambda>s. s\<lparr>netTime := netTime s + acquireTime\<rparr>)),
      IF (key_exists L ''storedSbits'') (write_sbits L outFilePath) (RETURN 1),
      next_run]"

text \<open>
  \<^verbatim>\<open>while (netTime < acquireTime)\<close>: nothing bounds the number of acquisitions (each may report a
  live time of 0), so the loop takes fuel and \<open>None\<close> means that the fuel ran out.
\<close>

fun sbit_loop ::
  "nat \<Rightarrow> ('m, 's) rpc_lib \<Rightarrow> (string \<Rightarrow> bool) \<Rightarrow> u32 \<Rightarrow> string \<Rightarrow> ('m, 's) sbit_state \<Rightarrow>
   (cxx_exn, u32, ('m, 's) sbit_state) ctl option" where
  "sbit_loop 0 L can_open acquireTime outFilePath s = None"
| "sbit_loop (Suc fuel) L can_open acquireTime outFilePath s =
     (if netTime s < acquireTime
      then case sbit_iteration L can_open acquireTime outFilePath s of
          Next t \<Rightarrow> sbit_loop fuel L can_open acquireTime outFilePath t
        | r \<Rightarrow> Some r
      else Some (Return 0 s))"

definition sbitReadOut ::
  "nat \<Rightarrow> ('m, 's) rpc_lib \<Rightarrow> (string \<Rightarrow> bool) \<Rightarrow> u32 \<Rightarrow> u32 \<Rightarrow> string \<Rightarrow> ('m, 's) sbit_state \<Rightarrow>
   (cxx_exn, u32, ('m, 's) sbit_state) ctl option" where
  "sbitReadOut fuel L can_open ohN acquireTime outFilePath s =
     (case block
        [req_new L ''amc.sbitReadOut'',
         set_word L ''ohN'' ohN,
         set_word L ''acquireTime'' acquireTime,
         UPD (\<lambda>s. s\<lparr>netTime := 0, runNum := 1\<rparr>)] s of
        Next t \<Rightarrow> sbit_loop fuel L can_open acquireTime outFilePath t
      | r \<Rightarrow> Some r)"

lemmas amc_stmt_defs [stmt_simps] = return_word_def open_file_def add_live_time_def write_sbits_def
  next_run_def

section \<open>Contracts\<close>

lemma safe_return_word [safe_intros]: "safe (framed h0 W) (return_word L k)"
  by (auto simp: safe_def return_word_def split: sum.splits)

lemma amc_safe:
  "safe (framed h0 W) (getOHVFATMask L ohN)"
  "safe (framed h0 W) (repeatedRegRead L regName nReads breakOnFailure)"
  unfolding getOHVFATMask_def repeatedRegRead_def by (intro safe_intros)+

context rpc_msg
begin

lemma safe_getOHVFATMaskMultiLink:
  "fits h0 [(masks, 12)] \<Longrightarrow> safe (framed h0 [(masks, 12)]) (getOHVFATMaskMultiLink L ohMask masks)"
  unfolding getOHVFATMaskMultiLink_def by (intro safe_intros safe_fetch_data; simp)

end

end
