(* ===== verification/Rpc_Sbit_Readout.thy ===== *)
theory Rpc_Sbit_Readout
  imports Rpc_Amc Rpc_Reference
begin

text \<open>
  The trigger data readout of \<^verbatim>\<open>amc.cc\<close>: the acquisition loop ends within a computable number of
  acquisitions, and the files it writes have one line per event of eight clusters.
\<close>

section \<open>Termination\<close>

text \<open>
  What the loop needs of the replies: whenever an acquisition reports that it stopped early, the live
  time it adds is at least one second and not more than what was asked for.
\<close>

definition progressing :: "('m, 's) rpc_lib \<Rightarrow> u32 \<Rightarrow> bool" where
  "progressing L acquireTime \<longleftrightarrow>
     (\<forall>v m m' v' w. RPCSvc_call_method L v m = (Inr m', v') \<longrightarrow>
        RPCMsg_get_key_exists L m' ''maxNetworkSizeReached'' \<longrightarrow>
        RPCMsg_get_word L m' ''approxLiveTime'' = Inr w \<longrightarrow> 1 \<le> w \<and> w \<le> acquireTime)"

lemma unat_add_small: "unat (a :: u32) < 2 ^ 31 \<Longrightarrow> unat b < 2 ^ 31 \<Longrightarrow> unat (a + b) = unat a + unat b"
  by (simp add: unat_word_ariths(1))

lemma netTime_advances:
  assumes "netTime s < acquireTime" and "unat acquireTime < 2 ^ 31" and "1 \<le> w" and "w \<le> acquireTime"
  shows "unat (netTime s) < unat (netTime s + w)"
proof -
  have "unat (netTime s) < 2 ^ 31" "unat w < 2 ^ 31" "0 < unat w"
    using assms by (simp_all add: word_less_nat_alt word_le_nat_alt)
  then show ?thesis by (simp add: unat_add_small)
qed

lemma block_Cons_NextE:
  assumes "block (c # cs) s = Next t"
  obtains u where "c s = Next u" and "block cs u = Next t"
  using assms by (cases "c s") auto

lemma TRY_call_NextD:
  assumes "TRY (call_method L) STANDARD_CATCH s = Next u"
  shows "\<exists>m v. RPCSvc_call_method L (svc s) (req s) = (Inr m, v) \<and> u = s\<lparr>svc := v, rsp := m\<rparr>"
proof (cases "RPCSvc_call_method L (svc s) (req s)")
  case (Pair r v)
  show ?thesis
  proof (cases r)
    case (Inl e)
    with assms Pair show ?thesis by (cases e) (simp_all add: stmt_simps)
  next
    case (Inr m)
    with assms Pair show ?thesis by (simp add: stmt_simps)
  qed
qed

lemma check_error_NextD: "check_error L r s = Next u \<Longrightarrow> u = s"
  by (auto simp: check_error_def IF_def SKIP_def print_string_def RETURN_def split: if_splits sum.splits ctl.splits)

lemma sbit_iteration_advances:
  assumes "progressing L acquireTime" and "netTime s < acquireTime" and "unat acquireTime < 2 ^ 31"
    and "sbit_iteration L can_open acquireTime path s = Next t"
  shows "unat (netTime s) < unat (netTime t)"
proof -
  have step: "unat (netTime s) < unat (netTime s + w)" if "1 \<le> w" "w \<le> acquireTime" for w
    using netTime_advances [OF assms(2,3) that] .
  have pos: "1 \<le> acquireTime" using assms(2) by (metis inc_le le_less_trans word_zero_le add_0)
  from assms(4) obtain s1 s2 s3 s4 s5 where
      s1: "open_file can_open path s = Next s1" and s2: "TRY (call_method L) STANDARD_CATCH s1 = Next s2"
      and s3: "check_error L 1 s2 = Next s3"
      and s4: "IF (key_exists L ''maxNetworkSizeReached'') (add_live_time L)
        (UPD (\<lambda>s. s\<lparr>netTime := netTime s + acquireTime\<rparr>)) s3 = Next s4"
      and s5: "IF (key_exists L ''storedSbits'') (write_sbits L path) (RETURN 1) s4 = Next s5"
      and t: "next_run s5 = Next t"
    unfolding sbit_iteration_def
    by (elim block_Cons_NextE) (simp split: ctl.splits)
  have "netTime s1 = netTime s"
    using s1 by (auto simp: open_file_def Let_def split: if_splits)
  moreover obtain m v where call: "RPCSvc_call_method L (svc s1) (req s1) = (Inr m, v)" "s2 = s1\<lparr>svc := v, rsp := m\<rparr>"
    using TRY_call_NextD [OF s2] by blast
  moreover have "s3 = s2" using check_error_NextD [OF s3] .
  moreover have "netTime t = netTime s4"
    using s5 t by (auto simp: IF_def write_sbits_def RETURN_def next_run_def split: if_splits sum.splits)
  moreover have "\<exists>w. 1 \<le> w \<and> w \<le> acquireTime \<and> netTime s4 = netTime s3 + w"
  proof (cases "key_exists L ''maxNetworkSizeReached'' s3")
    case True
    with s4 obtain w where "RPCMsg_get_word L (rsp s3) ''approxLiveTime'' = Inr w" "netTime s4 = netTime s3 + w"
      by (auto simp: IF_def add_live_time_def split: sum.splits)
    with True call \<open>s3 = s2\<close> assms(1) show ?thesis
      by (auto simp: progressing_def key_exists_def)
  next
    case False
    with s4 pos show ?thesis by (auto simp: IF_def UPD_def)
  qed
  ultimately show ?thesis using step by auto
qed

lemma sbit_loop_terminates:
  assumes "progressing L acquireTime" and "unat acquireTime < 2 ^ 31"
    and "unat acquireTime - unat (netTime s) < fuel"
  shows "\<exists>r. sbit_loop fuel L can_open acquireTime path s = Some r"
  using assms(3)
proof (induction fuel arbitrary: s)
  case 0
  then show ?case by simp
next
  case (Suc fuel)
  show ?case
  proof (cases "netTime s < acquireTime")
    case True
    show ?thesis
    proof (cases "sbit_iteration L can_open acquireTime path s")
      case (Next t)
      have "unat (netTime s) < unat (netTime t)"
        using sbit_iteration_advances [OF assms(1) True assms(2) Next] .
      with Suc.prems True have "unat acquireTime - unat (netTime t) < fuel"
        by (simp add: word_less_nat_alt)
      with Suc.IH [of t] True Next show ?thesis by simp
    qed (use True in simp_all)
  qed simp
qed

section \<open>Safety\<close>

text \<open>
  An acquisition leaves the caller's memory alone and counts one run; below the largest \<^verbatim>\<open>int\<close> the count is
  defined. However the loop ends, it does not run off its end.
\<close>

definition at_run :: "heap \<Rightarrow> nat \<Rightarrow> ('m, 's) sbit_state \<Rightarrow> bool" where
  "at_run h n s \<longleftrightarrow> heap s = h \<and> runNum s = n"

lemma at_run_safe:
  "safe (at_run h n) (open_file can_open path)"
  "safe (at_run h n) (call_method L)"
  "safe (at_run h n) (print_string L k)"
  "safe (at_run h n) (add_live_time L)"
  "safe (at_run h n) (write_sbits L path)"
  by (auto simp: safe_def at_run_def stmt_simps Let_def split: sum.splits prod.splits)

lemma at_run_iteration:
  "safe (at_run h n) (block
    [open_file can_open path, TRY (call_method L) STANDARD_CATCH, check_error L 1,
     IF (key_exists L ''maxNetworkSizeReached'') (add_live_time L) (UPD (\<lambda>s. s\<lparr>netTime := netTime s + acquireTime\<rparr>)),
     IF (key_exists L ''storedSbits'') (write_sbits L path) (RETURN 1)])"
  unfolding check_error_def by (intro safe_intros at_run_safe) (simp add: at_run_def)

lemma sbit_iteration_safe:
  assumes "runNum s < 2 ^ 31 - 1"
  shows "\<exists>t. ctl_state (sbit_iteration L can_open acquireTime path s) = Some t \<and> heap t = heap s \<and>
    (sbit_iteration L can_open acquireTime path s = Next t \<longrightarrow> runNum t = Suc (runNum s))"
proof -
  let ?cs = "[open_file can_open path, TRY (call_method L) STANDARD_CATCH, check_error L 1,
     IF (key_exists L ''maxNetworkSizeReached'') (add_live_time L) (UPD (\<lambda>s. s\<lparr>netTime := netTime s + acquireTime\<rparr>)),
     IF (key_exists L ''storedSbits'') (write_sbits L path) (RETURN 1)]"
  have run: "sbit_iteration L can_open acquireTime path s = (case block ?cs s of Next t \<Rightarrow> block [next_run] t | r \<Rightarrow> r)"
    unfolding sbit_iteration_def using block_append [of ?cs "[next_run]" s] by simp
  obtain t where t: "ctl_state (block ?cs s) = Some t" "at_run (heap s) (runNum s) t"
    using safeD [OF at_run_iteration [of "heap s" "runNum s" can_open path L acquireTime], of s]
    by (auto simp: at_run_def simp del: block.simps)
  with assms show ?thesis unfolding run
    by (cases "block ?cs s") (auto simp: next_run_def at_run_def simp del: block.simps(2), auto simp: next_run_def at_run_def)
qed

lemma sbit_loop_safe:
  assumes "sbit_loop fuel L can_open acquireTime path s = Some r" and "runNum s + fuel < 2 ^ 31"
  shows "\<exists>t. ctl_state r = Some t \<and> heap t = heap s \<and> r \<noteq> Next t"
  using assms
proof (induction fuel arbitrary: s)
  case (Suc fuel)
  obtain t where t: "ctl_state (sbit_iteration L can_open acquireTime path s) = Some t" "heap t = heap s"
      "sbit_iteration L can_open acquireTime path s = Next t \<longrightarrow> runNum t = Suc (runNum s)"
    using sbit_iteration_safe [of s L can_open acquireTime path] Suc.prems(2) by auto
  show ?case
  proof (cases "netTime s < acquireTime")
    case True
    with Suc.prems t Suc.IH [of t] show ?thesis by (cases "sbit_iteration L can_open acquireTime path s") auto
  qed (use Suc.prems(1) in auto)
qed simp

lemma raise_first:
  "(case raise e s of Next t \<Rightarrow> f t | Return r t \<Rightarrow> Return r t | Throw e' t \<Rightarrow> Throw e' t | Aborted t \<Rightarrow> Aborted t |
    Undefined \<Rightarrow> Undefined) = raise e s"
  by (cases e) simp_all

lemma sbitReadOut_safe:
  assumes "progressing L acquireTime" and "unat acquireTime < fuel" and "fuel < 2 ^ 31 - 1"
  shows "\<exists>r t. sbitReadOut fuel L can_open ohN acquireTime path s = Some r \<and>
    ctl_state r = Some t \<and> heap t = heap s \<and> r \<noteq> Next t"
proof -
  let ?pre = "block [req_new L ''amc.sbitReadOut'', set_word L ''ohN'' ohN, set_word L ''acquireTime'' acquireTime,
    UPD (\<lambda>s. s\<lparr>netTime := 0, runNum := 1\<rparr>)]"
  have pre: "\<exists>t. ctl_state (?pre s) = Some t \<and> heap t = heap s \<and> (?pre s = Next t \<longrightarrow> netTime t = 0 \<and> runNum t = 1)"
    by (auto simp: stmt_simps raise_first split: sum.splits)
  show ?thesis
  proof (cases "?pre s")
    case (Next t)
    have "unat acquireTime < 2 ^ 31" "unat acquireTime - unat (netTime t) < fuel" using assms(2,3) by linarith+
    then obtain r where "sbit_loop fuel L can_open acquireTime path t = Some r"
      using sbit_loop_terminates [OF assms(1)] by blast
    with Next pre assms(3) sbit_loop_safe [of fuel L can_open acquireTime path t r]
    show ?thesis by (auto simp: sbitReadOut_def simp del: block.simps)
  qed (use pre in \<open>auto simp: sbitReadOut_def simp del: block.simps\<close>)
qed

section \<open>File format\<close>

text \<open>The line of event \<open>e\<close> with its eight clusters.\<close>

definition event_line :: "nat \<Rightarrow> u32 list \<Rightarrow> string" where
  "event_line e ws = to_string e @ [CHR 0x09] @
     concat (map (\<lambda>w. to_string (unat w) @ [CHR 0x09]) (butlast ws)) @ to_string (unat (last ws)) @ [CHR 0x0A]"

fun event_lines :: "nat \<Rightarrow> u32 list list \<Rightarrow> string" where
  "event_lines e [] = []"
| "event_lines e (ws # wss) = event_line e ws @ event_lines (Suc e) wss"

lemma mod8_eq: "(k = (p :: u32) mod 8) = (unat p mod 8 = unat k)"
  by (auto simp: word_unat_eq_iff unat_mod)

lemma mod8_add: "unat ((p :: u32) + k) mod 8 = (unat p mod 8 + unat k) mod 8"
proof -
  have "unat (p + k) mod 8 = ((unat p + unat k) mod 2 ^ 32) mod 8" by (simp add: unat_word_ariths(1))
  also have "\<dots> = (unat p + unat k) mod 8" by (rule mod_mod_cancel) simp
  finally show ?thesis by (simp add: mod_add_left_eq)
qed

lemma sbit_rows_event:
  assumes "unat pos mod 8 = 1" and "length ws = 8"
  shows "sbit_rows first pos evt (ws @ rest) = event_line (unat evt) ws @ sbit_rows False (pos + 8) (evt + 1) rest"
proof -
  from assms(2) obtain w1 w2 w3 w4 w5 w6 w7 w8 where ws: "ws = [w1, w2, w3, w4, w5, w6, w7, w8]"
    by (auto simp: length_Suc_conv eval_nat_numeral)
  show ?thesis
    using assms(1) by (simp add: ws event_line_def mod8_eq mod8_add add.assoc)
qed

lemma sbit_rows_events:
  assumes "list_all (\<lambda>ws. length ws = 8) wss" and "unat pos mod 8 = 1" and "e + length wss \<le> 2 ^ 32"
  shows "sbit_rows first pos (of_nat e) (concat wss) = event_lines e wss"
  using assms
proof (induction wss arbitrary: first pos e)
  case Nil
  then show ?case by simp
next
  case (Cons ws wss)
  have "unat (pos + 8) mod 8 = 1"
    using Cons.prems(2) by (simp add: mod8_add)
  then have "sbit_rows False (pos + 8) (of_nat (Suc e)) (concat wss) = event_lines (Suc e) wss"
    using Cons.prems by (intro Cons.IH) simp_all
  moreover have "unat (of_nat e :: u32) = e"
    using Cons.prems(3) by (simp add: unat_of_nat)
  ultimately show ?case
    using Cons.prems(1,2) by (simp add: sbit_rows_event add.commute)
qed

section \<open>Properties\<close>

text \<open>
  C13: if every acquisition that stops early reports a live time of at least one second and at most the
  requested time, and that time is below \<open>2 ^ 31\<close> seconds, \<^verbatim>\<open>sbitReadOut\<close> ends: one acquisition per
  requested second and one more test of the loop condition are enough.
\<close>

theorem sbitReadOut_terminates:
  assumes "progressing L acquireTime" and "unat acquireTime < 2 ^ 31" and "unat acquireTime < fuel"
  shows "\<exists>r. sbitReadOut fuel L can_open ohN acquireTime outFilePath s = Some r"
proof (cases "block [req_new L ''amc.sbitReadOut'', set_word L ''ohN'' ohN, set_word L ''acquireTime'' acquireTime,
    UPD (\<lambda>s. s\<lparr>netTime := 0, runNum := 1\<rparr>)] s")
  case (Next t)
  moreover have "\<exists>r. sbit_loop fuel L can_open acquireTime outFilePath t = Some r"
    by (rule sbit_loop_terminates [OF assms(1,2)]) (use assms(3) in simp)
  ultimately show ?thesis by (simp add: sbitReadOut_def)
qed (simp_all add: sbitReadOut_def)

text \<open>A reference card whose acquisitions last one second and return one event.\<close>

definition one_second :: rmsg where
  "one_second = ([], [(''maxNetworkSizeReached'', MWord 1), (''approxLiveTime'', MWord 1),
     (''storedSbits'', MWordArray [1, 2, 3, 4, 5, 6, 7, 8])])"

definition one_second_lib :: "(rmsg, rsvc) rpc_lib" where
  "one_second_lib = ref_lib\<lparr>RPCSvc_call_method := (\<lambda>v m. (Inr one_second, v))\<rparr>"

theorem sbitReadOut_terminates_witness:
  "\<exists>r. sbitReadOut 4 one_second_lib (\<lambda>f. True) 0 3 ''out''
    (rpc_state.extend (ref_state Offline (\<lambda>b. [])) (sbit_state.fields 0 0)) = Some r"
  by (rule sbitReadOut_terminates)
    (simp_all add: progressing_def one_second_lib_def one_second_def ref_defs word_le_nat_alt)

text \<open>
  C14: the file of an acquisition that returned whole events of eight clusters has the header line and
  one line per event: its number and its eight clusters, tab-separated.
\<close>

theorem sbit_file_format:
  assumes "list_all (\<lambda>ws. length ws = 8) wss" and "length wss \<le> 2 ^ 32"
  shows "sbit_text (concat wss) = sbit_header @ event_lines 0 wss"
  using sbit_rows_events [OF assms(1), of 1 0 True] assms(2) by (simp add: sbit_text_def)

theorem sbit_file_format_witness:
  "sbit_text [1, 2, 3, 4, 5, 6, 7, 8] = sbit_header @ event_line 0 [1, 2, 3, 4, 5, 6, 7, 8]"
  using sbit_file_format [of "[[1, 2, 3, 4, 5, 6, 7, 8]]"] by simp

end
