(* ===== verification/Rpc_Gbt.thy ===== *)
theory Rpc_Gbt
  imports Rpc_Sca
begin

text \<open>
  \<^verbatim>\<open>xhalcore/src/common/rpc_manager/gbt.cc\<close>: phase scan and configuration of the GBT links.
\<close>

definition gbt_results_key :: "u32 \<Rightarrow> nat \<Rightarrow> string" where
  "gbt_results_key ohN vfatN = ''OH'' @ to_string (unat ohN) @ ''.VFAT'' @ to_string vfatN"

definition scanGBTPhases ::
  "('m, 's) rpc_lib \<Rightarrow> ptr \<Rightarrow> u32 \<Rightarrow> u32 \<Rightarrow> u32 \<Rightarrow> u32 \<Rightarrow> u32 \<Rightarrow> u32 \<Rightarrow> u32 \<Rightarrow> ('m, 's, 'x) rpc_stmt" where
  "scanGBTPhases L results ohN nScans phaseMin phaseMax phaseStep nVFAT nVerificationReads = block
     [req_new L ''gbt.scanGBTPhases'',
      set_word L ''ohN'' ohN,
      set_word L ''nScans'' nScans,
      set_word L ''phaseMin'' phaseMin,
      set_word L ''phaseMax'' phaseMax,
      set_word L ''phaseStep'' phaseStep,
      set_word L ''nVerificationReads'' nVerificationReads,
      TRY (call_method L) STANDARD_CATCH,
      check_error L 1,
      FOR (unat nVFAT) (\<lambda>vfatN.
        IF (key_exists L (gbt_results_key ohN vfatN))
          (ASSERT_get_word_array L (gbt_results_key ohN vfatN) (\<lambda>n. n = 16)
             (ptr_add results (unat (16 * of_nat vfatN :: u32))))
          (RETURN 1)),
      RETURN 0]"

definition writeGBTConfig ::
  "('m, 's) rpc_lib \<Rightarrow> u32 \<Rightarrow> u32 \<Rightarrow> u32 \<Rightarrow> ptr \<Rightarrow> ('m, 's, 'x) rpc_stmt" where
  "writeGBTConfig L ohN gbtN configSize config = block
     [req_new L ''gbt.writeGBTConfig'',
      set_word L ''ohN'' ohN,
      set_word L ''gbtN'' gbtN,
      set_binarydata L ''config'' config configSize,
      TRY (call_method L) STANDARD_CATCH,
      check_error L 1,
      RETURN 0]"

definition writeGBTPhase :: "('m, 's) rpc_lib \<Rightarrow> u32 \<Rightarrow> u32 \<Rightarrow> u8 \<Rightarrow> ('m, 's, 'x) rpc_stmt" where
  "writeGBTPhase L ohN vfatN phase = block
     [req_new L ''gbt.writeGBTPhase'',
      set_word L ''ohN'' ohN,
      set_word L ''vfatN'' vfatN,
      set_word L ''phase'' (ucast phase),
      TRY (call_method L) STANDARD_CATCH,
      check_error L 1,
      RETURN 0]"

section \<open>Contracts\<close>

lemma gbt_offset: "vfatN < n \<Longrightarrow> unat (16 * of_nat vfatN :: u32) + 16 \<le> 16 * n"
proof -
  assume "vfatN < n"
  moreover have "unat (16 * of_nat vfatN :: u32) \<le> 16 * vfatN"
    by (simp add: unat_word_ariths unat_of_nat mod_mult_right_eq)
  ultimately show ?thesis by linarith
qed

lemma gbt_safe:
  "in_bounds h0 config (unat configSize) \<Longrightarrow>
    safe (framed h0 W) (writeGBTConfig L ohN gbtN configSize config)"
  "safe (framed h0 W) (writeGBTPhase L ohN vfatN phase)"
  unfolding writeGBTConfig_def writeGBTPhase_def by (intro safe_intros; assumption)+

context rpc_msg
begin

lemma safe_scanGBTPhases:
  "fits h0 [(results, 16 * unat nVFAT)] \<Longrightarrow> safe (framed h0 [(results, 16 * unat nVFAT)])
    (scanGBTPhases L results ohN nScans phaseMin phaseMax phaseStep nVFAT nVerificationReads)"
  unfolding scanGBTPhases_def
  by (intro safe_intros safe_fetch_at; auto intro: gbt_offset)

end

end
