(* ===== verification/Rpc_Vfat3.thy ===== *)
theory Rpc_Vfat3
  imports Rpc_Sca
begin

text \<open>
  \<^verbatim>\<open>xhalcore/src/common/rpc_manager/vfat3.cc\<close>: configuration and readout of the VFAT3 chips.
\<close>

definition configureVFAT3s :: "('m, 's) rpc_lib \<Rightarrow> u32 \<Rightarrow> u32 \<Rightarrow> ('m, 's, 'x) rpc_stmt" where
  "configureVFAT3s L ohN vfatMask = block
     [req_new L ''vfat3.configureVFAT3s'',
      set_word L ''vfatMask'' vfatMask,
      set_word L ''ohN'' ohN,
      TRY (call_method L) STANDARD_CATCH,
      check_error L 1,
      RETURN 0]"

definition configureVFAT3DacMonitor ::
  "('m, 's) rpc_lib \<Rightarrow> u32 \<Rightarrow> u32 \<Rightarrow> u32 \<Rightarrow> ('m, 's, 'x) rpc_stmt" where
  "configureVFAT3DacMonitor L ohN vfatMask dacSelect = block
     [req_new L ''vfat3.configureVFAT3DacMonitor'',
      set_word L ''ohN'' ohN,
      set_word L ''vfatMask'' vfatMask,
      set_word L ''dacSelect'' dacSelect,
      TRY (call_method L) STANDARD_CATCH,
      check_error L 1,
      RETURN 0]"

definition configureVFAT3DacMonitorMultiLink ::
  "('m, 's) rpc_lib \<Rightarrow> u32 \<Rightarrow> ptr \<Rightarrow> u32 \<Rightarrow> ('m, 's, 'x) rpc_stmt" where
  "configureVFAT3DacMonitorMultiLink L ohMask ohVfatMaskArray dacSelect = block
     [req_new L ''vfat3.configureVFAT3DacMonitorMultiLink'',
      set_word L ''ohMask'' ohMask,
      set_word_array L ''ohVfatMaskArray'' ohVfatMaskArray 12,
      set_word L ''dacSelect'' dacSelect,
      TRY (call_method L) STANDARD_CATCH,
      check_error L 1,
      RETURN 0]"

definition getChannelRegistersVFAT3 ::
  "('m, 's) rpc_lib \<Rightarrow> u32 \<Rightarrow> u32 \<Rightarrow> ptr \<Rightarrow> u32 \<Rightarrow> ('m, 's, 'x) rpc_stmt" where
  "getChannelRegistersVFAT3 L ohN vfatMask chanRegData nvfats = block
     [req_new L ''vfat3.getChannelRegistersVFAT3'',
      set_word L ''ohN'' ohN,
      set_word L ''vfatMask'' vfatMask,
      TRY (call_method L) STANDARD_CATCH,
      check_error L 1,
      fetch_data L ''chanRegData'' (128 * nvfats) chanRegData,
      RETURN 0]"

definition chip_id_key :: "u32 \<Rightarrow> nat \<Rightarrow> string" where
  "chip_id_key ohN vfat =
     ''GEM_AMC.OH.OH'' @ to_string (unat ohN) @ ''.GEB.VFAT'' @ to_string vfat @ ''.HW_CHIP_ID''"

definition getVFAT3ChipIDs ::
  "('m, 's) rpc_lib \<Rightarrow> ptr \<Rightarrow> u32 \<Rightarrow> u32 \<Rightarrow> bool \<Rightarrow> u32 \<Rightarrow> ('m, 's, 'x) rpc_stmt" where
  "getVFAT3ChipIDs L chipIDData ohN vfatMask rawID nvfats = block
     [req_new L ''vfat3.getVFAT3ChipIDs'',
      set_word L ''ohN'' ohN,
      set_word L ''vfatMask'' vfatMask,
      set_bool L ''rawID'' rawID,
      TRY (call_method L) STANDARD_CATCH,
      check_error L 1,
      FOR (unat nvfats) (\<lambda>vfat.
        IF_opt (bit_set vfatMask vfat)
          SKIP
          (assign_word L chipIDData vfat (chip_id_key ohN vfat))),
      RETURN 0]"

definition readVFAT3ADC ::
  "('m, 's) rpc_lib \<Rightarrow> u32 \<Rightarrow> ptr \<Rightarrow> bool \<Rightarrow> u32 \<Rightarrow> u32 \<Rightarrow> ('m, 's, 'x) rpc_stmt" where
  "readVFAT3ADC L ohN adcData useExtRefADC vfatMask nvfats = block
     [req_new L ''vfat3.readVFAT3ADC'',
      set_word L ''ohN'' ohN,
      set_bool L ''useExtRefADC'' useExtRefADC,
      set_word L ''vfatMask'' vfatMask,
      TRY (call_method L) STANDARD_CATCH,
      check_error L 1,
      fetch_data L ''adcData'' nvfats adcData,
      RETURN 0]"

definition readVFAT3ADCMultiLink ::
  "('m, 's) rpc_lib \<Rightarrow> u32 \<Rightarrow> ptr \<Rightarrow> ptr \<Rightarrow> bool \<Rightarrow> u32 \<Rightarrow> ('m, 's, 'x) rpc_stmt" where
  "readVFAT3ADCMultiLink L ohMask ohVfatMaskArray adcDataAll useExtRefADC nvfats = block
     [req_new L ''vfat3.readVFAT3ADCMultiLink'',
      set_word L ''ohMask'' ohMask,
      set_word_array L ''ohVfatMaskArray'' ohVfatMaskArray 12,
      set_bool L ''useExtRefADC'' useExtRefADC,
      TRY (call_method L) STANDARD_CATCH,
      check_error L 1,
      fetch_data L ''adcDataAll'' (12 * nvfats) adcDataAll,
      RETURN 0]"

definition setChannelRegistersVFAT3 ::
  "('m, 's) rpc_lib \<Rightarrow> u32 \<Rightarrow> u32 \<Rightarrow> ptr \<Rightarrow> ptr \<Rightarrow> ptr \<Rightarrow> ptr \<Rightarrow> ptr \<Rightarrow> ptr \<Rightarrow> u32 \<Rightarrow> ('m, 's, 'x) rpc_stmt" where
  "setChannelRegistersVFAT3 L ohN vfatMask calEnable masks trimARM trimARMPol trimZCC trimZCCPol nvfats =
    block
     [req_new L ''vfat3.setChannelRegistersVFAT3'',
      set_word L ''ohN'' ohN,
      set_word L ''vfatMask'' vfatMask,
      set_word_array L ''calEnable'' calEnable (128 * nvfats),
      set_word_array L ''masks'' masks (128 * nvfats),
      set_word_array L ''trimARM'' trimARM (128 * nvfats),
      set_word_array L ''trimARMPol'' trimARMPol (128 * nvfats),
      set_word_array L ''trimZCC'' trimZCC (128 * nvfats),
      set_word_array L ''trimZCCPol'' trimZCCPol (128 * nvfats),
      TRY (call_method L) STANDARD_CATCH,
      check_error L 1,
      RETURN 0]"

definition setChannelRegistersVFAT3Simple ::
  "('m, 's) rpc_lib \<Rightarrow> u32 \<Rightarrow> u32 \<Rightarrow> ptr \<Rightarrow> u32 \<Rightarrow> ('m, 's, 'x) rpc_stmt" where
  "setChannelRegistersVFAT3Simple L ohN vfatMask chanRegData nvfats = block
     [req_new L ''vfat3.setChannelRegistersVFAT3'',
      set_word L ''ohN'' ohN,
      set_word L ''vfatMask'' vfatMask,
      set_bool L ''simple'' True,
      set_word_array L ''chanRegData'' chanRegData (128 * nvfats),
      TRY (call_method L) STANDARD_CATCH,
      check_error L 1,
      RETURN 0]"

section \<open>Contracts\<close>

lemma vfat3_config_safe:
  "safe (framed h0 W) (configureVFAT3s L ohN vfatMask)"
  "safe (framed h0 W) (configureVFAT3DacMonitor L ohN vfatMask dacSelect)"
  "in_bounds h0 masks 12 \<Longrightarrow>
    safe (framed h0 W) (configureVFAT3DacMonitorMultiLink L ohMask masks dacSelect)"
  unfolding configureVFAT3s_def configureVFAT3DacMonitor_def configureVFAT3DacMonitorMultiLink_def
  by (intro safe_intros; simp)+

lemma safe_setChannelRegistersVFAT3:
  assumes "unat (128 * nvfats) < 2 ^ 31"
    and "\<And>p. p \<in> {calEnable, masks, trimARM, trimARMPol, trimZCC, trimZCCPol} \<Longrightarrow>
      in_bounds h0 p (unat (128 * nvfats))"
  shows "safe (framed h0 W)
    (setChannelRegistersVFAT3 L ohN vfatMask calEnable masks trimARM trimARMPol trimZCC trimZCCPol nvfats)"
  unfolding setChannelRegistersVFAT3_def using assms by (intro safe_intros; simp)

lemma safe_setChannelRegistersVFAT3Simple:
  "in_bounds h0 chanRegData (unat (128 * nvfats)) \<Longrightarrow> unat (128 * nvfats) < 2 ^ 31 \<Longrightarrow>
    safe (framed h0 W) (setChannelRegistersVFAT3Simple L ohN vfatMask chanRegData nvfats)"
  unfolding setChannelRegistersVFAT3Simple_def by (intro safe_intros; assumption)

lemma safe_getVFAT3ChipIDs:
  "fits h0 [(chipIDData, unat nvfats)] \<Longrightarrow> unat nvfats \<le> 32 \<Longrightarrow>
    safe (framed h0 [(chipIDData, unat nvfats)]) (getVFAT3ChipIDs L chipIDData ohN vfatMask rawID nvfats)"
  unfolding getVFAT3ChipIDs_def by (intro safe_intros; simp add: bit_set_bit)

context rpc_msg
begin

lemma vfat3_read_safe:
  "fits h0 [(chanRegData, unat (128 * nvfats))] \<Longrightarrow> safe (framed h0 [(chanRegData, unat (128 * nvfats))])
    (getChannelRegistersVFAT3 L ohN vfatMask chanRegData nvfats)"
  "fits h0 [(adcData, unat nvfats)] \<Longrightarrow> safe (framed h0 [(adcData, unat nvfats)])
    (readVFAT3ADC L ohN adcData useExtRefADC vfatMask nvfats)"
  "fits h0 [(adcDataAll, unat (12 * nvfats))] \<Longrightarrow> in_bounds h0 masks 12 \<Longrightarrow>
    safe (framed h0 [(adcDataAll, unat (12 * nvfats))])
    (readVFAT3ADCMultiLink L ohMask masks adcDataAll useExtRefADC nvfats)"
  unfolding getChannelRegistersVFAT3_def readVFAT3ADC_def readVFAT3ADCMultiLink_def
  by (intro safe_intros safe_fetch_data; simp)+

end

end
