(* ===== verification/Rpc_Optohybrid.thy ===== *)
theory Rpc_Optohybrid
  imports Rpc_Sca
begin

text \<open>
  \<^verbatim>\<open>xhalcore/src/common/rpc_manager/optohybrid.cc\<close>: broadcast accesses and the scan modules of the
  optohybrid firmware.
\<close>

definition broadcastRead ::
  "('m, 's) rpc_lib \<Rightarrow> u32 \<Rightarrow> string \<Rightarrow> u32 \<Rightarrow> ptr \<Rightarrow> u32 \<Rightarrow> ('m, 's, 'x) rpc_stmt" where
  "broadcastRead L ohN regName vfatMask result sz = block
     [req_new L ''optohybrid.broadcastRead'',
      set_string L ''reg_name'' regName,
      set_word L ''ohN'' ohN,
      set_word L ''mask'' vfatMask,
      TRY (call_method L) STANDARD_CATCH,
      IF (key_exists L ''error'')
        (block [print_string L ''error'', RETURN 1])
        (fetch_data L ''data'' sz result),
      RETURN 0]"

definition broadcastWrite ::
  "('m, 's) rpc_lib \<Rightarrow> u32 \<Rightarrow> string \<Rightarrow> u32 \<Rightarrow> u32 \<Rightarrow> ('m, 's, 'x) rpc_stmt" where
  "broadcastWrite L ohN regName value vfatMask = block
     [req_new L ''optohybrid.broadcastWrite'',
      set_string L ''reg_name'' regName,
      set_word L ''ohN'' ohN,
      set_word L ''value'' value,
      set_word L ''mask'' vfatMask,
      TRY (call_method L) STANDARD_CATCH,
      check_error L 1,
      RETURN 0]"

definition configureScanModule ::
  "('m, 's) rpc_lib \<Rightarrow> u32 \<Rightarrow> u32 \<Rightarrow> u32 \<Rightarrow> bool \<Rightarrow> u32 \<Rightarrow> u32 \<Rightarrow> u32 \<Rightarrow> u32 \<Rightarrow> u32 \<Rightarrow> u32 \<Rightarrow>
   ('m, 's, 'x) rpc_stmt" where
  "configureScanModule L ohN vfatN scanmode useUltra vfatMask ch nevts dacMin dacMax dacStep = block
     [req_new L ''optohybrid.configureScanModule'',
      set_word L ''ohN'' ohN,
      set_word L ''scanmode'' scanmode,
      (if useUltra
       then block [set_bool L ''useUltra'' useUltra, set_word L ''mask'' vfatMask]
       else set_word L ''vfatN'' vfatN),
      set_word L ''ch'' ch,
      set_word L ''nevts'' nevts,
      set_word L ''dacMin'' dacMin,
      set_word L ''dacMax'' dacMax,
      set_word L ''dacStep'' dacStep,
      TRY (call_method L) STANDARD_CATCH,
      check_error L 1,
      RETURN 0]"

definition printScanConfiguration :: "('m, 's) rpc_lib \<Rightarrow> u32 \<Rightarrow> bool \<Rightarrow> ('m, 's, 'x) rpc_stmt" where
  "printScanConfiguration L ohN useUltra = block
     [req_new L ''optohybrid.printScanConfiguration'',
      set_word L ''ohN'' ohN,
      (if useUltra then set_bool L ''useUltra'' useUltra else SKIP),
      TRY (call_method L) STANDARD_CATCH,
      check_error L 1,
      RETURN 0]"

definition startScanModule :: "('m, 's) rpc_lib \<Rightarrow> u32 \<Rightarrow> bool \<Rightarrow> ('m, 's, 'x) rpc_stmt" where
  "startScanModule L ohN useUltra = block
     [req_new L ''optohybrid.startScanModule'',
      set_word L ''ohN'' ohN,
      (if useUltra then set_bool L ''useUltra'' useUltra else SKIP),
      TRY (call_method L) STANDARD_CATCH,
      check_error L 1,
      RETURN 0]"

definition getUltraScanResults ::
  "('m, 's) rpc_lib \<Rightarrow> u32 \<Rightarrow> u32 \<Rightarrow> u32 \<Rightarrow> u32 \<Rightarrow> u32 \<Rightarrow> ptr \<Rightarrow> u32 \<Rightarrow> ('m, 's, 'x) rpc_stmt" where
  "getUltraScanResults L ohN nevts dacMin dacMax dacStep result nvfats = block
     [req_new L ''optohybrid.getUltraScanResults'',
      set_word L ''ohN'' ohN,
      set_word L ''nevts'' nevts,
      set_word L ''dacMin'' dacMin,
      set_word L ''dacMax'' dacMax,
      set_word L ''dacStep'' dacStep,
      TRY (call_method L) STANDARD_CATCH,
      check_error L 1,
      LET_opt (div32 ((dacMax - dacMin + 1) * nvfats) dacStep) (\<lambda>sz.
        fetch_data L ''data'' sz result),
      RETURN 0]"

definition stopCalPulse2AllChannels ::
  "('m, 's) rpc_lib \<Rightarrow> u32 \<Rightarrow> u32 \<Rightarrow> u32 \<Rightarrow> u32 \<Rightarrow> ('m, 's, 'x) rpc_stmt" where
  "stopCalPulse2AllChannels L ohN vmask ch_min ch_max = block
     [req_new L ''optohybrid.stopCalPulse2AllChannels'',
      set_word L ''ohN'' ohN,
      set_word L ''mask'' vmask,
      set_word L ''ch_min'' ch_min,
      set_word L ''ch_max'' ch_max,
      TRY (call_method L) STANDARD_CATCH,
      check_error L 1,
      RETURN 0]"

section \<open>Contracts\<close>

lemma optohybrid_safe:
  "safe (framed h0 W) (broadcastWrite L ohN regName value vfatMask)"
  "safe (framed h0 W)
    (configureScanModule L ohN vfatN scanmode useUltra vfatMask ch nevts dacMin dacMax dacStep)"
  "safe (framed h0 W) (printScanConfiguration L ohN useUltra)"
  "safe (framed h0 W) (startScanModule L ohN useUltra)"
  "safe (framed h0 W) (stopCalPulse2AllChannels L ohN vmask ch_min ch_max)"
  unfolding broadcastWrite_def configureScanModule_def printScanConfiguration_def startScanModule_def
    stopCalPulse2AllChannels_def
  by (intro safe_intros)+

context rpc_msg
begin

lemma optohybrid_read_safe:
  "fits h0 [(result, unat sz)] \<Longrightarrow>
    safe (framed h0 [(result, unat sz)]) (broadcastRead L ohN regName vfatMask result sz)"
  "fits h0 [(result, unat ((dacMax - dacMin + 1) * nvfats div dacStep))] \<Longrightarrow> dacStep \<noteq> 0 \<Longrightarrow>
    safe (framed h0 [(result, unat ((dacMax - dacMin + 1) * nvfats div dacStep))])
    (getUltraScanResults L ohN nevts dacMin dacMax dacStep result nvfats)"
  unfolding broadcastRead_def getUltraScanResults_def div32_def
  by (intro safe_intros safe_fetch_data; simp split: if_splits)+

end

end
