(* ===== verification/Rpc_Calibration.thy ===== *)
theory Rpc_Calibration
  imports Rpc_Sca
begin

text \<open>
  \<^verbatim>\<open>xhalcore/src/common/rpc_manager/calibration_routines.cc\<close> and the DAC range table of its header:
  calibration pulses, DAC scans, threshold scans and trigger rate scans.
\<close>

section \<open>The DAC range table\<close>

text \<open>
  \<^verbatim>\<open>struct vfat3DACSize { uint32_t max[41]; ... }\<close>: the constructor assigns some elements; the others
  keep an indeterminate value (\<open>None\<close>), and reading one is undefined behaviour, as is an index of 41
  or more.
\<close>

definition vfat3DACSize :: "u32 option list" where
  "vfat3DACSize = (replicate 41 None)
     [1 := Some 0xff, 2 := Some 0xff, 3 := Some 0x3f, 4 := Some 0x3f, 5 := Some 0xff, 6 := Some 0xff,
      7 := Some 0xff, 8 := Some 0xff, 9 := Some 0x3f, 10 := Some 0x3f, 11 := Some 0x3f, 12 := Some 0x3f,
      14 := Some 0xff, 15 := Some 0xff,
      33 := Some 0xff, 34 := Some 0xff, 35 := Some 0xff, 36 := Some 0xff, 39 := Some 0x3]"

definition dac_max :: "u32 \<Rightarrow> u32 option" where
  "dac_max dacSelect =
     (if unat dacSelect < length vfat3DACSize then vfat3DACSize ! unat dacSelect else None)"

section \<open>Calibration pulse checks\<close>

definition checkSbitMappingWithCalPulse ::
  "('m, 's) rpc_lib \<Rightarrow> u32 \<Rightarrow> u32 \<Rightarrow> u32 \<Rightarrow> bool \<Rightarrow> bool \<Rightarrow> u32 \<Rightarrow> u32 \<Rightarrow> u32 \<Rightarrow> u32 \<Rightarrow> ptr \<Rightarrow>
   ('m, 's, 'x) rpc_stmt" where
  "checkSbitMappingWithCalPulse L ohN vfatN vmask useCalPulse currentPulse calScaleFactor nevts
     L1Ainterval pulseDelay data = block
     [req_new L ''calibration_routines.checkSbitMappingWithCalPulse'',
      set_word L ''ohN'' ohN,
      set_word L ''vfatN'' vfatN,
      set_word L ''mask'' vmask,
      set_bool L ''useCalPulse'' useCalPulse,
      set_bool L ''currentPulse'' currentPulse,
      set_word L ''calScaleFactor'' calScaleFactor,
      set_word L ''nevts'' nevts,
      set_word L ''L1Ainterval'' L1Ainterval,
      set_word L ''pulseDelay'' pulseDelay,
      TRY (call_method L) STANDARD_CATCH,
      check_error L 1,
      fetch_data L ''data'' (128 * 8 * nevts) data,
      RETURN 0]"

definition checkSbitRateWithCalPulse ::
  "('m, 's) rpc_lib \<Rightarrow> u32 \<Rightarrow> u32 \<Rightarrow> u32 \<Rightarrow> bool \<Rightarrow> bool \<Rightarrow> u32 \<Rightarrow> u32 \<Rightarrow> u32 \<Rightarrow> u32 \<Rightarrow> ptr \<Rightarrow> ptr \<Rightarrow> ptr \<Rightarrow>
   ('m, 's, 'x) rpc_stmt" where
  "checkSbitRateWithCalPulse L ohN vfatN vmask useCalPulse currentPulse calScaleFactor waitTime
     pulseRate pulseDelay outDataCTP7Rate outDataFPGAClusterCntRate outDataVFATSBits = block
     [req_new L ''calibration_routines.checkSbitRateWithCalPulse'',
      set_word L ''ohN'' ohN,
      set_word L ''vfatN'' vfatN,
      set_word L ''mask'' vmask,
      set_bool L ''useCalPulse'' useCalPulse,
      set_bool L ''currentPulse'' currentPulse,
      set_word L ''calScaleFactor'' calScaleFactor,
      set_word L ''waitTime'' waitTime,
      set_word L ''pulseRate'' pulseRate,
      set_word L ''pulseDelay'' pulseDelay,
      TRY (call_method L) STANDARD_CATCH,
      check_error L 1,
      fetch_data L ''outDataCTP7Rate'' 128 outDataCTP7Rate,
      fetch_data L ''outDataFPGAClusterCntRate'' 128 outDataFPGAClusterCntRate,
      fetch_data L ''outDataVFATSBits'' 128 outDataVFATSBits,
      RETURN 0]"

section \<open>Scans\<close>

definition dacScan ::
  "('m, 's) rpc_lib \<Rightarrow> u32 \<Rightarrow> u32 \<Rightarrow> u32 \<Rightarrow> u32 \<Rightarrow> bool \<Rightarrow> ptr \<Rightarrow> u32 \<Rightarrow> ('m, 's, 'x) rpc_stmt" where
  "dacScan L ohN dacSelect dacStep vmask useExtRefADC results nvfats = block
     [req_new L ''calibration_routines.dacScan'',
      set_word L ''ohN'' ohN,
      set_word L ''dacSelect'' dacSelect,
      set_word L ''dacStep'' dacStep,
      set_word L ''mask'' vmask,
      set_bool L ''useExtRefADC'' useExtRefADC,
      TRY (call_method L) STANDARD_CATCH,
      check_error L 1,
      LET_opt (Option.bind (dac_max dacSelect) (\<lambda>mx. div32 ((mx + 1) * nvfats) dacStep)) (\<lambda>sz.
        fetch_data L ''dacScanResults'' sz results),
      RETURN 0]"

definition dacScanMultiLink ::
  "('m, 's) rpc_lib \<Rightarrow> u32 \<Rightarrow> u32 \<Rightarrow> u32 \<Rightarrow> u32 \<Rightarrow> bool \<Rightarrow> ptr \<Rightarrow> u32 \<Rightarrow> ('m, 's, 'x) rpc_stmt" where
  "dacScanMultiLink L ohMask NOH dacSelect dacStep useExtRefADC results nvfats = block
     [req_new L ''calibration_routines.dacScanMultiLink'',
      set_word L ''ohMask'' ohMask,
      set_word L ''NOH'' NOH,
      set_word L ''dacSelect'' dacSelect,
      set_word L ''dacStep'' dacStep,
      set_bool L ''useExtRefADC'' useExtRefADC,
      TRY (call_method L) STANDARD_CATCH,
      check_error L 1,
      LET_opt (Option.bind (dac_max dacSelect) (\<lambda>mx. div32 (NOH * (mx + 1) * nvfats) dacStep)) (\<lambda>sz.
        fetch_data L ''dacScanResultsAll'' sz results),
      RETURN 0]"

definition genScan ::
  "('m, 's) rpc_lib \<Rightarrow> u32 \<Rightarrow> u32 \<Rightarrow> u32 \<Rightarrow> u32 \<Rightarrow> u32 \<Rightarrow> u32 \<Rightarrow> bool \<Rightarrow> bool \<Rightarrow> u32 \<Rightarrow> u32 \<Rightarrow> string \<Rightarrow>
   bool \<Rightarrow> bool \<Rightarrow> ptr \<Rightarrow> u32 \<Rightarrow> ('m, 's, 'x) rpc_stmt" where
  "genScan L nevts ohN dacMin dacMax dacStep ch useCalPulse currentPulse calScaleFactor vmask scanReg
     useUltra useExtTrig result nvfats = block
     [req_new L ''calibration_routines.genScan'',
      set_word L ''nevts'' nevts,
      set_word L ''ohN'' ohN,
      set_word L ''dacMin'' dacMin,
      set_word L ''dacMax'' dacMax,
      set_word L ''dacStep'' dacStep,
      set_word L ''ch'' ch,
      set_bool L ''useCalPulse'' useCalPulse,
      set_bool L ''currentPulse'' currentPulse,
      set_word L ''calScaleFactor'' calScaleFactor,
      set_word L ''mask'' vmask,
      (if useUltra then set_bool L ''useUltra'' useUltra else SKIP),
      set_bool L ''useExtTrig'' useExtTrig,
      set_string L ''scanReg'' scanReg,
      TRY (call_method L) STANDARD_CATCH,
      check_error L 1,
      LET_opt (div32 ((dacMax - dacMin + 1) * nvfats) dacStep) (\<lambda>sz.
        fetch_data L ''data'' sz result),
      RETURN 0]"

definition genChannelScan ::
  "('m, 's) rpc_lib \<Rightarrow> u32 \<Rightarrow> u32 \<Rightarrow> u32 \<Rightarrow> u32 \<Rightarrow> u32 \<Rightarrow> u32 \<Rightarrow> bool \<Rightarrow> bool \<Rightarrow> u32 \<Rightarrow> bool \<Rightarrow> string \<Rightarrow>
   bool \<Rightarrow> ptr \<Rightarrow> u32 \<Rightarrow> ('m, 's, 'x) rpc_stmt" where
  "genChannelScan L nevts ohN vmask dacMin dacMax dacStep useCalPulse currentPulse calScaleFactor
     useExtTrig scanReg useUltra result nvfats = block
     [req_new L ''calibration_routines.genChannelScan'',
      set_word L ''nevts'' nevts,
      set_word L ''ohN'' ohN,
      set_word L ''mask'' vmask,
      set_word L ''dacMin'' dacMin,
      set_word L ''dacMax'' dacMax,
      set_word L ''dacStep'' dacStep,
      set_bool L ''useCalPulse'' useCalPulse,
      set_bool L ''currentPulse'' currentPulse,
      set_word L ''calScaleFactor'' calScaleFactor,
      set_bool L ''useExtTrig'' useExtTrig,
      (if useUltra then set_bool L ''useUltra'' useUltra else SKIP),
      set_string L ''scanReg'' scanReg,
      TRY (call_method L) STANDARD_CATCH,
      check_error L 1,
      LET_opt (div32 (nvfats * 128 * (dacMax - dacMin + 1)) dacStep) (\<lambda>sz.
        fetch_data L ''data'' sz result),
      RETURN 0]"

definition sbitRateScan ::
  "('m, 's) rpc_lib \<Rightarrow> u32 \<Rightarrow> u32 \<Rightarrow> u32 \<Rightarrow> u32 \<Rightarrow> u32 \<Rightarrow> string \<Rightarrow> ptr \<Rightarrow> ptr \<Rightarrow> ptr \<Rightarrow> u32 \<Rightarrow> u32 \<Rightarrow>
   ('m, 's, 'x) rpc_stmt" where
  "sbitRateScan L ohMask dacMin dacMax dacStep ch scanReg resultDacVal resultTrigRate
     resultTrigRatePerVFAT nvfats waitTime = block
     [req_new L ''calibration_routines.sbitRateScan'',
      set_word L ''dacMin'' dacMin,
      set_word L ''dacMax'' dacMax,
      set_word L ''dacStep'' dacStep,
      set_word L ''ch'' ch,
      set_word L ''ohMask'' ohMask,
      set_word L ''waitTime'' waitTime,
      set_string L ''scanReg'' scanReg,
      LET_opt (mod32 (dacMax - dacMin + 1) dacStep) (\<lambda>r. if 0 \<noteq> r then RETURN 1 else SKIP),
      LET_opt (div32 (12 * (dacMax - dacMin + 1)) dacStep) (\<lambda>sz. block
        [TRY (call_method L) STANDARD_CATCH,
         check_error L 1,
         fetch_data L ''outDataDacValue'' sz resultDacVal,
         fetch_data L ''outDataCTP7Rate'' sz resultTrigRate,
         fetch_data L ''outDataVFATRate'' (sz * nvfats) resultTrigRatePerVFAT,
         RETURN 0])]"

section \<open>TTC generator and calibration pulse\<close>

definition ttcGenConf ::
  "('m, 's) rpc_lib \<Rightarrow> u32 \<Rightarrow> u32 \<Rightarrow> u32 \<Rightarrow> u32 \<Rightarrow> u32 \<Rightarrow> u32 \<Rightarrow> bool \<Rightarrow> ('m, 's, 'x) rpc_stmt" where
  "ttcGenConf L ohN mode type pulseDelay L1Ainterval nPulses enable = block
     [req_new L ''calibration_routines.ttcGenConf'',
      set_word L ''ohN'' ohN,
      set_word L ''mode'' mode,
      set_word L ''type'' type,
      set_word L ''pulseDelay'' pulseDelay,
      set_word L ''L1Ainterval'' L1Ainterval,
      set_word L ''nPulses'' nPulses,
      set_bool L ''enable'' enable,
      TRY (call_method L) STANDARD_CATCH,
      IF (key_exists L ''error'') (RETURN 1) SKIP,
      RETURN 0]"

definition ttcGenToggle :: "('m, 's) rpc_lib \<Rightarrow> u32 \<Rightarrow> bool \<Rightarrow> ('m, 's, 'x) rpc_stmt" where
  "ttcGenToggle L ohN enable = block
     [req_new L ''calibration_routines.ttcGenToggle'',
      set_word L ''ohN'' ohN,
      set_bool L ''enable'' enable,
      TRY (call_method L) STANDARD_CATCH,
      IF (key_exists L ''error'') (RETURN 1) SKIP,
      RETURN 0]"

definition confCalPulse ::
  "('m, 's) rpc_lib \<Rightarrow> u32 \<Rightarrow> u32 \<Rightarrow> u32 \<Rightarrow> bool \<Rightarrow> bool \<Rightarrow> u32 \<Rightarrow> ('m, 's, 'x) rpc_stmt" where
  "confCalPulse L ohN vmask ch toggleOn currentPulse calScaleFactor = block
     [req_new L ''calibration_routines.confCalPulse'',
      set_word L ''ohN'' ohN,
      set_word L ''ch'' ch,
      set_word L ''mask'' vmask,
      set_bool L ''toggleOn'' toggleOn,
      set_bool L ''currentPulse'' currentPulse,
      set_word L ''calScaleFactor'' calScaleFactor,
      TRY (call_method L) STANDARD_CATCH,
      check_error L 1,
      RETURN 0]"

section \<open>Contracts\<close>

lemma calibration_config_safe:
  "safe (framed h0 W) (ttcGenConf L ohN mode type pulseDelay L1Ainterval nPulses enable)"
  "safe (framed h0 W) (ttcGenToggle L ohN enable)"
  "safe (framed h0 W) (confCalPulse L ohN vmask ch toggleOn currentPulse calScaleFactor)"
  unfolding ttcGenConf_def ttcGenToggle_def confCalPulse_def by (intro safe_intros)+

context rpc_msg
begin

lemma calibration_check_safe:
  "fits h0 [(data, unat (128 * 8 * nevts))] \<Longrightarrow> safe (framed h0 [(data, unat (128 * 8 * nevts))])
    (checkSbitMappingWithCalPulse L ohN vfatN vmask useCalPulse currentPulse calScaleFactor nevts
      L1Ainterval pulseDelay data)"
  "fits h0 [(rate, 128), (clusterRate, 128), (sbits, 128)] \<Longrightarrow>
    safe (framed h0 [(rate, 128), (clusterRate, 128), (sbits, 128)])
    (checkSbitRateWithCalPulse L ohN vfatN vmask useCalPulse currentPulse calScaleFactor waitTime
      pulseRate pulseDelay rate clusterRate sbits)"
  unfolding checkSbitMappingWithCalPulse_def checkSbitRateWithCalPulse_def
  by (intro safe_intros safe_fetch_data; simp)+

lemma dac_scan_safe:
  "fits h0 [(results, unat ((mx + 1) * nvfats div dacStep))] \<Longrightarrow> dac_max dacSelect = Some mx \<Longrightarrow>
    dacStep \<noteq> 0 \<Longrightarrow> safe (framed h0 [(results, unat ((mx + 1) * nvfats div dacStep))])
    (dacScan L ohN dacSelect dacStep vmask useExtRefADC results nvfats)"
  "fits h0 [(results, unat (NOH * (mx + 1) * nvfats div dacStep))] \<Longrightarrow> dac_max dacSelect = Some mx \<Longrightarrow>
    dacStep \<noteq> 0 \<Longrightarrow> safe (framed h0 [(results, unat (NOH * (mx + 1) * nvfats div dacStep))])
    (dacScanMultiLink L ohMask NOH dacSelect dacStep useExtRefADC results nvfats)"
  unfolding dacScan_def dacScanMultiLink_def div32_def
  by (intro safe_intros safe_fetch_data; simp)+

lemma gen_scan_safe:
  "fits h0 [(result, unat ((dacMax - dacMin + 1) * nvfats div dacStep))] \<Longrightarrow> dacStep \<noteq> 0 \<Longrightarrow>
    safe (framed h0 [(result, unat ((dacMax - dacMin + 1) * nvfats div dacStep))])
    (genScan L nevts ohN dacMin dacMax dacStep ch useCalPulse currentPulse calScaleFactor vmask scanReg
      useUltra useExtTrig result nvfats)"
  "fits h0 [(result, unat (nvfats * 128 * (dacMax - dacMin + 1) div dacStep))] \<Longrightarrow> dacStep \<noteq> 0 \<Longrightarrow>
    safe (framed h0 [(result, unat (nvfats * 128 * (dacMax - dacMin + 1) div dacStep))])
    (genChannelScan L nevts ohN vmask dacMin dacMax dacStep useCalPulse currentPulse calScaleFactor
      useExtTrig scanReg useUltra result nvfats)"
  unfolding genScan_def genChannelScan_def div32_def
  by (intro safe_intros safe_fetch_data; simp split: if_splits)+

lemma safe_sbitRateScan:
  assumes "dacStep \<noteq> 0" and "sz = 12 * (dacMax - dacMin + 1) div dacStep"
    and "fits h0 [(dacVal, unat sz), (rate, unat sz), (vfatRate, unat (sz * nvfats))]"
  shows "safe (framed h0 [(dacVal, unat sz), (rate, unat sz), (vfatRate, unat (sz * nvfats))])
    (sbitRateScan L ohMask dacMin dacMax dacStep ch scanReg dacVal rate vfatRate nvfats waitTime)"
  unfolding sbitRateScan_def div32_def mod32_def using assms
  by (intro safe_intros safe_fetch_data; simp)

end

end
