(* ===== verification/Rpc_Exports.thy ===== *)
theory Rpc_Exports
  imports Rpc_Sbit_Readout Rpc_Gbt Rpc_Vfat3 Rpc_Optohybrid Rpc_Calibration Rpc_Daq_Monitor
begin

text \<open>
  The 57 functions the client library exports (\<^verbatim>\<open>DLLEXPORT\<close>), as declared in the headers under
  \<^verbatim>\<open>xhalcore/include/xhal/rpc\<close>, with their contracts, and the properties that hold of all of them.

  \<open>rpc_entry L R W r c\<close>: \<open>c\<close> is the body of one of the 54 entry points that send one request and evaluate its
  reply, called with arguments its documentation
  allows; it reads the runs \<open>R\<close> and may write the runs \<open>W\<close> of the caller's memory, and \<open>r\<close> is the
  value it returns when the reply carries an \<^verbatim>\<open>error\<close> key. The sizes are the
  ones the functions compute for the reply, in 32-bit arithmetic: for \<^verbatim>\<open>readSCAADCTemperatureSensors\<close> five
  words for an optohybrid, although its documentation names four sensors. The other three functions, \<^verbatim>\<open>init\<close>,
  \<^verbatim>\<open>deinit\<close> and \<^verbatim>\<open>sbitReadOut\<close>, join them in \<open>rpc_export\<close>.
\<close>

inductive rpc_entry ::
  "('m, 's) rpc_lib \<Rightarrow> footprint \<Rightarrow> footprint \<Rightarrow> u32 \<Rightarrow> ('m, 's, 'x) rpc_stmt \<Rightarrow> bool"
  for L :: "('m, 's) rpc_lib"
where
  update_atdb: "rpc_entry L [] [] 1 (update_atdb L xmlfilename)"
| getRegInfoDB: "rpc_entry L [] [] 1 (getRegInfoDB L regName)"
| getReg: "rpc_entry L [] [] 0xdeaddead (getReg L address)"
| putReg: "rpc_entry L [] [] 0xdeaddead (putReg L address value)"
| getBlock: "rpc_entry L [] [(result, nat (sint sz))] 1 (getBlock L address result sz)"
| getList: "0 \<le> sint sz \<Longrightarrow> sint sz < 2 ^ 31 \<Longrightarrow>
    rpc_entry L [(addresses, nat (sint sz))] [(result, nat (sint sz))] 1 (getList L addresses result sz)"
| getOHVFATMask: "rpc_entry L [] [] 0xffffffff (getOHVFATMask L ohN)"
| getOHVFATMaskMultiLink: "rpc_entry L [] [(masks, 12)] 1 (getOHVFATMaskMultiLink L ohMask masks)"
| repeatedRegRead: "rpc_entry L [] [] 0xffffffff (repeatedRegRead L regName nReads breakOnFailure)"
| scanGBTPhases: "rpc_entry L [] [(result, 16 * unat nVFAT)] 1
    (scanGBTPhases L result ohN nScans phaseMin phaseMax phaseStep nVFAT nVerificationReads)"
| writeGBTConfig: "rpc_entry L [(config, unat configSize)] [] 1 (writeGBTConfig L ohN gbtN configSize config)"
| writeGBTPhase: "rpc_entry L [] [] 1 (writeGBTPhase L ohN vfatN phase)"
| readSCAADCSensor: "rpc_entry L [] [(result, unat (count_1bits ohMask))] 1 (readSCAADCSensor L ohMask ch result)"
| readSCAADCTemperatureSensors: "rpc_entry L [] [(result, unat (count_1bits ohMask * 5))] 1
    (readSCAADCTemperatureSensors L ohMask result)"
| readSCAADCVoltageSensors: "rpc_entry L [] [(result, unat (count_1bits ohMask * 6))] 1
    (readSCAADCVoltageSensors L ohMask result)"
| readSCAADCSignalStrengthSensors: "rpc_entry L [] [(result, unat (count_1bits ohMask * 3))] 1
    (readSCAADCSignalStrengthSensors L ohMask result)"
| readAllSCAADCSensors: "rpc_entry L [] [(result, unat (count_1bits ohMask * 14))] 1
    (readAllSCAADCSensors L ohMask result)"
| configureVFAT3s: "rpc_entry L [] [] 1 (configureVFAT3s L ohN vfatMask)"
| configureVFAT3DacMonitor: "rpc_entry L [] [] 1 (configureVFAT3DacMonitor L ohN vfatMask dacSelect)"
| configureVFAT3DacMonitorMultiLink: "rpc_entry L [(masks, 12)] [] 1
    (configureVFAT3DacMonitorMultiLink L ohMask masks dacSelect)"
| getChannelRegistersVFAT3: "rpc_entry L [] [(chanRegData, unat (128 * nvfats))] 1
    (getChannelRegistersVFAT3 L ohN vfatMask chanRegData nvfats)"
| getVFAT3ChipIDs: "unat nvfats \<le> 32 \<Longrightarrow> rpc_entry L [] [(chipIDData, unat nvfats)] 1
    (getVFAT3ChipIDs L chipIDData ohN vfatMask rawID nvfats)"
| readVFAT3ADC: "rpc_entry L [] [(adcData, unat nvfats)] 1
    (readVFAT3ADC L ohN adcData useExtRefADC vfatMask nvfats)"
| readVFAT3ADCMultiLink: "rpc_entry L [(masks, 12)] [(adcDataAll, unat (12 * nvfats))] 1
    (readVFAT3ADCMultiLink L ohMask masks adcDataAll useExtRefADC nvfats)"
| setChannelRegistersVFAT3: "unat (128 * nvfats) < 2 ^ 31 \<Longrightarrow> rpc_entry L
    [(calEnable, unat (128 * nvfats)), (masks, unat (128 * nvfats)), (trimARM, unat (128 * nvfats)),
     (trimARMPol, unat (128 * nvfats)), (trimZCC, unat (128 * nvfats)), (trimZCCPol, unat (128 * nvfats))] [] 1
    (setChannelRegistersVFAT3 L ohN vfatMask calEnable masks trimARM trimARMPol trimZCC trimZCCPol nvfats)"
| setChannelRegistersVFAT3Simple: "unat (128 * nvfats) < 2 ^ 31 \<Longrightarrow>
    rpc_entry L [(chanRegData, unat (128 * nvfats))] [] 1
    (setChannelRegistersVFAT3Simple L ohN vfatMask chanRegData nvfats)"
| broadcastRead: "rpc_entry L [] [(result, unat sz)] 1 (broadcastRead L ohN regName vfatMask result sz)"
| broadcastWrite: "rpc_entry L [] [] 1 (broadcastWrite L ohN regName value vfatMask)"
| configureScanModule: "rpc_entry L [] [] 1
    (configureScanModule L ohN vfatN scanmode useUltra vfatMask ch nevts dacMin dacMax dacStep)"
| printScanConfiguration: "rpc_entry L [] [] 1 (printScanConfiguration L ohN useUltra)"
| startScanModule: "rpc_entry L [] [] 1 (startScanModule L ohN useUltra)"
| getUltraScanResults: "dacStep \<noteq> 0 \<Longrightarrow>
    rpc_entry L [] [(result, unat ((dacMax - dacMin + 1) * nvfats div dacStep))] 1
    (getUltraScanResults L ohN nevts dacMin dacMax dacStep result nvfats)"
| stopCalPulse2AllChannels: "rpc_entry L [] [] 1 (stopCalPulse2AllChannels L ohN vmask ch_min ch_max)"
| checkSbitMappingWithCalPulse: "rpc_entry L [] [(data, unat (128 * 8 * nevts))] 1
    (checkSbitMappingWithCalPulse L ohN vfatN vmask useCalPulse currentPulse calScaleFactor nevts
      L1Ainterval pulseDelay data)"
| checkSbitRateWithCalPulse: "rpc_entry L [] [(rate, 128), (clusterRate, 128), (sbits, 128)] 1
    (checkSbitRateWithCalPulse L ohN vfatN vmask useCalPulse currentPulse calScaleFactor waitTime
      pulseRate pulseDelay rate clusterRate sbits)"
| dacScan: "dac_max dacSelect = Some mx \<Longrightarrow> dacStep \<noteq> 0 \<Longrightarrow>
    rpc_entry L [] [(results, unat ((mx + 1) * nvfats div dacStep))] 1
    (dacScan L ohN dacSelect dacStep vmask useExtRefADC results nvfats)"
| dacScanMultiLink: "dac_max dacSelect = Some mx \<Longrightarrow> dacStep \<noteq> 0 \<Longrightarrow>
    rpc_entry L [] [(results, unat (NOH * (mx + 1) * nvfats div dacStep))] 1
    (dacScanMultiLink L ohMask NOH dacSelect dacStep useExtRefADC results nvfats)"
| genScan: "dacStep \<noteq> 0 \<Longrightarrow>
    rpc_entry L [] [(result, unat ((dacMax - dacMin + 1) * nvfats div dacStep))] 1
    (genScan L nevts ohN dacMin dacMax dacStep ch useCalPulse currentPulse calScaleFactor vmask scanReg
      useUltra useExtTrig result nvfats)"
| genChannelScan: "dacStep \<noteq> 0 \<Longrightarrow>
    rpc_entry L [] [(result, unat (nvfats * 128 * (dacMax - dacMin + 1) div dacStep))] 1
    (genChannelScan L nevts ohN vmask dacMin dacMax dacStep useCalPulse currentPulse calScaleFactor
      useExtTrig scanReg useUltra result nvfats)"
| sbitRateScan: "dacStep \<noteq> 0 \<Longrightarrow> sz = 12 * (dacMax - dacMin + 1) div dacStep \<Longrightarrow>
    rpc_entry L [] [(dacVal, unat sz), (rate, unat sz), (vfatRate, unat (sz * nvfats))] 1
    (sbitRateScan L ohMask dacMin dacMax dacStep ch scanReg dacVal rate vfatRate nvfats waitTime)"
| ttcGenConf: "rpc_entry L [] [] 1 (ttcGenConf L ohN mode type pulseDelay L1Ainterval nPulses enable)"
| ttcGenToggle: "rpc_entry L [] [] 1 (ttcGenToggle L ohN enable)"
| confCalPulse: "rpc_entry L [] [] 1 (confCalPulse L ohN vmask ch toggleOn currentPulse calScaleFactor)"
| getmonTTCmain: "rpc_entry L [] [(result, 5)] 1 (getmonTTCmain L result)"
| getmonTRIGGERmain: "unat noh \<le> 32 \<Longrightarrow> rpc_entry L [] [(result, unat noh + 1)] 1
    (getmonTRIGGERmain L result noh ohMask)"
| getmonTRIGGEROHmain: "unat noh \<le> 32 \<Longrightarrow> rpc_entry L [] [(result, 8 * unat noh)] 1
    (getmonTRIGGEROHmain L result noh ohMask)"
| getmonDAQmain: "rpc_entry L [] [(result, 9)] 1 (getmonDAQmain L result)"
| getmonDAQOHmain: "unat noh \<le> 32 \<Longrightarrow> rpc_entry L [] [(result, 6 * unat noh)] 1
    (getmonDAQOHmain L result noh ohMask)"
| getmonGBTLink: "unat noh \<le> 32 \<Longrightarrow> unat NGBT \<le> 3 \<Longrightarrow>
    rpc_entry L [] [(ohLinkMon, OHLinkMonitor_size * unat noh)] 1
    (getmonGBTLink L ohLinkMon noh ohMask doReset NGBT)"
| getmonOHLink: "unat noh \<le> 32 \<Longrightarrow>
    rpc_entry L [] [(ohLinkMon, OHLinkMonitor_size * unat noh), (vfatLinkMon, VFATLinkMonitor_size * unat noh)] 1
    (getmonOHLink L ohLinkMon vfatLinkMon noh ohMask doReset)"
| getmonOHmain: "unat noh \<le> 32 \<Longrightarrow> rpc_entry L [] [(result, 7 * unat noh)] 1
    (getmonOHmain L result noh ohMask)"
| getmonOHSCAmain: "unat noh \<le> 32 \<Longrightarrow> rpc_entry L [] [(scaMon, SCAMonitor_size * unat noh)] 1
    (getmonOHSCAmain L scaMon noh ohMask)"
| getmonOHSysmon: "unat noh \<le> 32 \<Longrightarrow> rpc_entry L [] [(sysmon, SysmonMonitor_size * unat noh)] 1
    (getmonOHSysmon L sysmon noh ohMask doReset)"
| getmonVFATLink: "unat noh \<le> 32 \<Longrightarrow> rpc_entry L [] [(vfatLinkMon, VFATLinkMonitor_size * unat noh)] 1
    (getmonVFATLink L vfatLinkMon noh ohMask doReset)"

text \<open>
  \<open>rpc_export L can_open R W down err f\<close>: \<open>f\<close> is any of the exported functions, with the footprint \<open>R\<close> and \<open>W\<close>
  as above. \<open>down v\<close> is the value it returns when the transport fails with the service in state \<open>v\<close>, and \<open>err\<close>
  the value on an error reply, if it evaluates replies. \<^verbatim>\<open>deinit\<close> takes it for success when there is no connection
  to close. \<^verbatim>\<open>sbitReadOut\<close> returns 0 when it is asked for no time, and \<^verbatim>\<open>EIO\<close> when its first output file cannot
  be opened; it is given a time below \<open>2 ^ 31 - 2\<close> seconds and a card whose acquisitions make progress, so that
  it ends before its run counter overflows.
\<close>

definition deinit_code :: "('m, 's) rpc_lib \<Rightarrow> 's \<Rightarrow> u32" where
  "deinit_code L v = (case fst (RPCSvc_disconnect L v) of
     None \<Rightarrow> 0 | Some (NotConnectedException m) \<Rightarrow> 0 | Some e \<Rightarrow> 1)"

definition sbit_code :: "(string \<Rightarrow> bool) \<Rightarrow> u32 \<Rightarrow> string \<Rightarrow> u32" where
  "sbit_code can_open acquireTime outFilePath =
     (if acquireTime = 0 then 0 else if can_open (sbit_file outFilePath 1) then 1 else EIO)"

type_synonym ('m, 's) rpc_function = "('m, 's) sbit_state \<Rightarrow> (cxx_exn, u32, ('m, 's) sbit_state) ctl option"

inductive rpc_export ::
  "('m, 's) rpc_lib \<Rightarrow> (string \<Rightarrow> bool) \<Rightarrow> footprint \<Rightarrow> footprint \<Rightarrow> ('s \<Rightarrow> u32) \<Rightarrow> u32 option \<Rightarrow> ('m, 's) rpc_function \<Rightarrow> bool"
  for L :: "('m, 's) rpc_lib" and can_open :: "string \<Rightarrow> bool"
where
  request: "rpc_entry L R W r c \<Longrightarrow> rpc_export L can_open R W (\<lambda>v. 1) (Some r) (\<lambda>s. Some (c s))"
| init: "rpc_export L can_open [] [] (\<lambda>v. 1) None (\<lambda>s. Some (init L hostname s))"
| deinit: "rpc_export L can_open [] [] (deinit_code L) None (\<lambda>s. Some (deinit L s))"
| sbitReadOut: "progressing L acquireTime \<Longrightarrow> unat acquireTime < fuel \<Longrightarrow> fuel < 2 ^ 31 - 1 \<Longrightarrow>
    rpc_export L can_open [] [] (\<lambda>v. sbit_code can_open acquireTime outFilePath)
      (Some (sbit_code can_open acquireTime outFilePath)) (sbitReadOut fuel L can_open ohN acquireTime outFilePath)"

section \<open>Memory safety of the whole client library\<close>

lemmas entry_safe = utils_safe amc_safe gbt_safe vfat3_config_safe safe_setChannelRegistersVFAT3
  safe_setChannelRegistersVFAT3Simple safe_getVFAT3ChipIDs optohybrid_safe calibration_config_safe
  monitor_tables_safe monitor_structs_safe sca_sysmon_safe

context rpc_msg
begin

lemmas entry_read_safe = safe_getReg safe_getBlock safe_getList safe_getOHVFATMaskMultiLink
  safe_scanGBTPhases sca_safe vfat3_read_safe optohybrid_read_safe calibration_check_safe
  dac_scan_safe gen_scan_safe safe_sbitRateScan

lemma entry_point_safe:
  assumes "rpc_entry L R W r c" and "fits h0 R" and "fits h0 W"
  shows "safe (framed h0 W) c"
  using assms
  by (cases rule: rpc_entry.cases)
    (auto simp only: fits_def list.pred_inject prod.case insert_iff empty_iff
       intro!: entry_safe entry_read_safe)

end

end
