(* ===== verification/Rpc_Outcomes.thy ===== *)
theory Rpc_Outcomes
  imports Rpc_Exports Rpc_Reference
begin

text \<open>
  What every entry point does when the remote side fails: when the transport raises an
  \<^verbatim>\<open>RPCException\<close>, and when the reply carries an \<^verbatim>\<open>error\<close> key. Both are proved compositionally:
  \<open>quiet\<close> statements only build the request, \<open>down\<close> bodies return 1 on a failing transport, \<open>stops r\<close>
  bodies return \<open>r\<close> on an error reply. The rules are collected
  in \<open>quiet_intros\<close>, \<open>down_intros\<close> and \<open>errs_intros\<close>, most specific first.
\<close>

named_theorems quiet_intros

section \<open>Failing services\<close>

text \<open>Calls and connecting fail, and disconnecting does not raise anything but an \<^verbatim>\<open>RPCException\<close>.\<close>

definition service_down :: "('m, 's) rpc_lib \<Rightarrow> 's \<Rightarrow> bool" where
  "service_down L v \<longleftrightarrow>
     (\<forall>m. \<exists>e v'. RPCSvc_call_method L v m = (Inl e, v') \<and> is_RPCException e) \<and>
     (\<forall>host. \<exists>e v'. RPCSvc_connect L v host = (Some e, v') \<and> is_RPCException e) \<and>
     (\<forall>e. fst (RPCSvc_disconnect L v) = Some e \<longrightarrow> is_RPCException e)"

text \<open>A reply with a string under the key \<^verbatim>\<open>error\<close>.\<close>

definition error_reply :: "('m, 's) rpc_lib \<Rightarrow> 'm \<Rightarrow> bool" where
  "error_reply L m \<longleftrightarrow> RPCMsg_get_key_exists L m ''error'' \<and> (\<exists>str. RPCMsg_get_string L m ''error'' = Inr str)"

definition service_errs :: "('m, 's) rpc_lib \<Rightarrow> 's \<Rightarrow> bool" where
  "service_errs L v \<longleftrightarrow> (\<forall>m. \<exists>m' v'. RPCSvc_call_method L v m = (Inr m', v') \<and> error_reply L m')"

section \<open>Judgements\<close>

definition quiet :: "heap \<Rightarrow> ('m, 's, 'x) rpc_stmt \<Rightarrow> bool" where
  "quiet h0 c \<longleftrightarrow> (\<forall>s. heap s = h0 \<longrightarrow> (\<exists>m. c s = Next (s\<lparr>req := m\<rparr>)))"

definition down :: "('m, 's) rpc_lib \<Rightarrow> heap \<Rightarrow> ('m, 's, 'x) rpc_stmt \<Rightarrow> bool" where
  "down L h0 c \<longleftrightarrow> (\<forall>s. heap s = h0 \<longrightarrow> service_down L (svc s) \<longrightarrow> (\<exists>t. c s = Return 1 t \<and> heap t = h0))"

definition stops :: "('m, 's) rpc_lib \<Rightarrow> heap \<Rightarrow> u32 \<Rightarrow> ('m, 's, 'x) rpc_stmt \<Rightarrow> bool" where
  "stops L h0 r c \<longleftrightarrow> (\<forall>s. heap s = h0 \<longrightarrow> error_reply L (rsp s) \<longrightarrow> (\<exists>t. c s = Return r t \<and> heap t = h0))"

definition errs :: "('m, 's) rpc_lib \<Rightarrow> heap \<Rightarrow> u32 \<Rightarrow> ('m, 's, 'x) rpc_stmt \<Rightarrow> bool" where
  "errs L h0 r c \<longleftrightarrow> (\<forall>s. heap s = h0 \<longrightarrow> service_errs L (svc s) \<longrightarrow> (\<exists>t. c s = Return r t \<and> heap t = h0))"

subsection \<open>Building the request\<close>

lemma quiet_req_new [quiet_intros]: "quiet h0 (req_new L m)"
  by (auto simp: quiet_def req_new_def UPD_def)

lemma quiet_SKIP [quiet_intros]: "quiet h0 SKIP"
proof -
  have "s = s\<lparr>req := req s\<rparr>" for s :: "('a, 'b, 'c) rpc_state_scheme" by simp
  then show ?thesis by (metis SKIP_def quiet_def)
qed

lemma quiet_if [quiet_intros]: "quiet h0 c \<Longrightarrow> quiet h0 d \<Longrightarrow> quiet h0 (if b then c else d)"
  by simp

lemma quiet_block2 [quiet_intros]:
  assumes "quiet h0 c" and "quiet h0 d"
  shows "quiet h0 (block [c, d])"
  unfolding quiet_def
proof (intro allI impI)
  fix s :: "('a, 'b, 'c) rpc_state_scheme"
  assume "heap s = h0"
  then obtain m where m: "c s = Next (s\<lparr>req := m\<rparr>)" using assms(1) by (auto simp: quiet_def)
  from \<open>heap s = h0\<close> obtain m' where "d (s\<lparr>req := m\<rparr>) = Next (s\<lparr>req := m\<rparr>\<lparr>req := m'\<rparr>)"
    using assms(2) [unfolded quiet_def, rule_format, of "s\<lparr>req := m\<rparr>"] by auto
  with m show "\<exists>m. block [c, d] s = Next (s\<lparr>req := m\<rparr>)" by auto
qed

lemma put_req_next: "\<exists>m. r = Inr m \<Longrightarrow> \<exists>m. put_req r s = Next (s\<lparr>req := m\<rparr>)"
  by (auto simp: put_req_def)

context rpc_msg_store
begin

lemma quiet_setters [quiet_intros]:
  "valid_key k \<Longrightarrow> quiet h0 (set_word L k v)"
  "valid_key k \<Longrightarrow> quiet h0 (set_bool L k b)"
  "valid_key k \<Longrightarrow> quiet h0 (set_string L k str)"
  "valid_key k \<Longrightarrow> quiet h0 (set_string_array L k strs)"
  "valid_key k \<Longrightarrow> quiet h0 (set_word_array_value L k v)"
  unfolding quiet_def set_word_def set_bool_def set_string_def set_string_array_def set_word_array_value_def
  using put_req_next [OF set_word_ok] put_req_next [OF set_string_ok] put_req_next [OF set_string_array_ok]
    put_req_next [OF set_word_array_ok] by blast+

lemma quiet_set_word_array [quiet_intros]:
  assumes "valid_key k" and "in_bounds h0 p (unat n)" and "unat n < 2 ^ 31"
  shows "quiet h0 (set_word_array L k p n)"
  unfolding quiet_def
proof (intro allI impI)
  fix s :: "('m, 's, 'a) rpc_state_scheme"
  assume "heap s = h0"
  moreover obtain m where "RPCMsg_set_word_array L (req s) k (take (unat n) (drop (snd p) (h0 (fst p)))) = Inr m"
    using set_word_array_ok [OF assms(1)] by blast
  ultimately show "\<exists>m. set_word_array L k p n s = Next (s\<lparr>req := m\<rparr>)"
    using assms by (auto simp: set_word_array_def put_req_def load_words_def)
qed

lemma quiet_set_binarydata [quiet_intros]:
  assumes "valid_key k" and "in_bounds h0 p (unat n)"
  shows "quiet h0 (set_binarydata L k p n)"
  unfolding quiet_def
proof (intro allI impI)
  fix s :: "('m, 's, 'a) rpc_state_scheme"
  assume "heap s = h0"
  moreover obtain m where
    "RPCMsg_set_binarydata L (req s) k (map ucast (take (unat n) (drop (snd p) (h0 (fst p))))) = Inr m"
    using set_binarydata_ok [OF assms(1)] by blast
  ultimately show "\<exists>m. set_binarydata L k p n s = Next (s\<lparr>req := m\<rparr>)"
    using assms by (auto simp: set_binarydata_def put_req_def load_words_def)
qed

end

subsection \<open>Transport failure\<close>

lemma down_quiet: "quiet h0 c \<Longrightarrow> down L h0 (block cs) \<Longrightarrow> down L h0 (block (c # cs))"
  by (fastforce simp: quiet_def down_def)

lemma down_call: "down L h0 (block (TRY (call_method L) STANDARD_CATCH # cs))"
  unfolding down_def
proof (intro allI impI)
  fix s :: "('a, 'b, 'c) rpc_state_scheme"
  assume "heap s = h0" and "service_down L (svc s)"
  moreover from this obtain e v' where "RPCSvc_call_method L (svc s) (req s) = (Inl e, v')" "is_RPCException e"
    unfolding service_down_def by blast
  ultimately show "\<exists>t. block (TRY (call_method L) STANDARD_CATCH # cs) s = Return 1 t \<and> heap t = h0"
    by (simp add: stmt_simps)
qed

lemma down_LET_opt:
  "x \<noteq> None \<Longrightarrow> (\<And>v. x = Some v \<Longrightarrow> down L h0 (f v)) \<Longrightarrow> down L h0 (block (LET_opt x f # cs))"
  by (fastforce simp: down_def LET_opt_def)

lemma down_return_1: "down L h0 (block (RETURN 1 # cs))"
  by (simp add: down_def RETURN_def)

lemma down_LET_if:
  "x \<noteq> None \<Longrightarrow> down L h0 (block cs) \<Longrightarrow>
    down L h0 (block (LET_opt x (\<lambda>r. if P r then RETURN 1 else SKIP) # cs))"
  by (fastforce simp: down_def LET_opt_def RETURN_def SKIP_def)

subsection \<open>Error replies\<close>

lemma stops_check_error: "stops L h0 r (block (check_error L r # cs))"
  by (auto simp: stops_def error_reply_def stmt_simps)

lemma stops_IF_error:
  "stops L h0 r (block (IF (key_exists L ''error'') (RETURN r) d # cs))"
  "stops L h0 r (block (TRY (IF (key_exists L ''error'') (RETURN r) d) STANDARD_CATCH # cs))"
  "stops L h0 r (block (IF (key_exists L ''error'') (block [print_string L ''error'', RETURN r]) d # cs))"
  "stops L h0 1 (block (monitor_reply L d # cs))"
  by (auto simp: stops_def error_reply_def stmt_simps)

lemma stops_declare_result:
  "stops L h0 r (block cs) \<Longrightarrow> stops L h0 r (block (declare_result # cs))"
  by (auto simp: stops_def declare_result_def UPD_def)

lemma errs_quiet: "quiet h0 c \<Longrightarrow> errs L h0 r (block cs) \<Longrightarrow> errs L h0 r (block (c # cs))"
  by (fastforce simp: quiet_def errs_def)

lemma errs_call:
  "stops L h0 r (block cs) \<Longrightarrow> errs L h0 r (block (TRY (call_method L) STANDARD_CATCH # cs))"
  unfolding errs_def
proof (intro allI impI)
  fix s :: "('a, 'b, 'c) rpc_state_scheme"
  assume cs: "stops L h0 r (block cs)" and s: "heap s = h0" "service_errs L (svc s)"
  then obtain m v' where m: "RPCSvc_call_method L (svc s) (req s) = (Inr m, v')" "error_reply L m"
    unfolding service_errs_def by blast
  have "\<exists>t. block cs (s\<lparr>svc := v', rsp := m\<rparr>) = Return r t \<and> heap t = h0"
    using cs s(1) m(2) by (simp add: stops_def)
  with m(1) show "\<exists>t. block (TRY (call_method L) STANDARD_CATCH # cs) s = Return r t \<and> heap t = h0"
    by (simp add: TRY_def call_method_def)
qed

lemma errs_LET_if:
  "x \<noteq> None \<Longrightarrow> errs L h0 1 (block cs) \<Longrightarrow>
    errs L h0 1 (block (LET_opt x (\<lambda>r. if P r then RETURN 1 else SKIP) # cs))"
  by (fastforce simp: errs_def LET_opt_def RETURN_def SKIP_def)

lemma errs_LET_opt:
  "x \<noteq> None \<Longrightarrow> (\<And>v. x = Some v \<Longrightarrow> errs L h0 r (f v)) \<Longrightarrow> errs L h0 r (block (LET_opt x f # cs))"
  by (fastforce simp: errs_def LET_opt_def)

section \<open>All entry points\<close>

lemmas entry_defs = update_atdb_def getRegInfoDB_def getReg_def putReg_def getBlock_def getList_def
  getOHVFATMask_def getOHVFATMaskMultiLink_def repeatedRegRead_def scanGBTPhases_def writeGBTConfig_def
  writeGBTPhase_def readSCAADCSensor_def readSCAADCTemperatureSensors_def readSCAADCVoltageSensors_def
  readSCAADCSignalStrengthSensors_def readAllSCAADCSensors_def configureVFAT3s_def
  configureVFAT3DacMonitor_def configureVFAT3DacMonitorMultiLink_def getChannelRegistersVFAT3_def
  getVFAT3ChipIDs_def readVFAT3ADC_def readVFAT3ADCMultiLink_def setChannelRegistersVFAT3_def
  setChannelRegistersVFAT3Simple_def broadcastRead_def broadcastWrite_def configureScanModule_def
  printScanConfiguration_def startScanModule_def getUltraScanResults_def stopCalPulse2AllChannels_def
  checkSbitMappingWithCalPulse_def checkSbitRateWithCalPulse_def dacScan_def dacScanMultiLink_def
  genScan_def genChannelScan_def sbitRateScan_def ttcGenConf_def ttcGenToggle_def confCalPulse_def
  getmonTTCmain_def getmonTRIGGERmain_def getmonTRIGGEROHmain_def getmonDAQmain_def getmonDAQOHmain_def
  getmonGBTLink_def getmonOHLink_def getmonOHmain_def getmonOHSCAmain_def getmonOHSysmon_def
  getmonVFATLink_def

lemmas down_intros = down_call down_return_1 down_LET_if down_LET_opt down_quiet
lemmas errs_intros = errs_call errs_LET_if errs_LET_opt errs_quiet
  stops_check_error stops_IF_error stops_declare_result

context rpc_msg_store
begin

lemma entry_down:
  assumes "rpc_entry L R W r c" and "fits h0 R"
  shows "down L h0 c"
  using assms
  by (cases rule: rpc_entry.cases)
    (simp_all only: entry_defs fits_def list.pred_inject prod.case,
      (rule down_intros quiet_intros | (simp add: unat_ucast_ssize div32_def mod32_def; fail))+)

lemma entry_errs:
  assumes "rpc_entry L R W r c" and "fits h0 R"
  shows "errs L h0 r c"
  using assms
  by (cases rule: rpc_entry.cases)
    (simp_all only: entry_defs fits_def list.pred_inject prod.case,
      (rule errs_intros quiet_intros | (simp add: unat_ucast_ssize div32_def mod32_def; fail))+)

end

subsection \<open>No entry point runs off its end\<close>

definition final :: "('m, 's, 'x) rpc_stmt \<Rightarrow> bool" where
  "final c \<longleftrightarrow> (\<forall>s t. c s \<noteq> Next t)"

lemma final_last:
  "final (block (RETURN r # cs))"
  "final (block (return_result # cs))"
  "final (block (return_word L k # cs))"
  "final (block (IF b (RETURN r) (RETURN r') # cs))"
  by (auto simp: final_def stmt_simps split: option.splits sum.splits ctl.splits)

lemma final_LET: "(\<And>v. final (f v)) \<Longrightarrow> final (block (LET_opt x f # cs))"
  by (auto simp: final_def LET_opt_def split: option.splits ctl.splits)

lemma final_Cons: "final (block cs) \<Longrightarrow> final (block (c # cs))"
  by (auto simp: final_def split: ctl.splits)

lemma entry_final:
  assumes "rpc_entry L R W r c"
  shows "final c"
  using assms
  by (cases rule: rpc_entry.cases) (simp_all only: entry_defs, (rule final_last final_Cons final_LET)+)

section \<open>All exported functions\<close>

text \<open>Opening and closing the connection.\<close>

lemma connection_final: "final (init L hostname)" "final (deinit L)"
  unfolding init_def deinit_def by (rule final_last final_Cons)+

lemma init_down: "down L h0 (init L hostname)"
  unfolding down_def
proof (intro allI impI)
  fix s :: "('a, 'b, 'c) rpc_state_scheme"
  assume s: "heap s = h0" "service_down L (svc s)"
  then obtain e v where "RPCSvc_connect L (svc s) hostname = (Some e, v)" "is_RPCException e"
    unfolding service_down_def by blast
  with s(1) show "\<exists>t. init L hostname s = Return 1 t \<and> heap t = h0"
    by (simp add: init_def init_catch_def stmt_simps)
qed

lemma deinit_down:
  assumes "service_down L (svc s)"
  shows "\<exists>t. deinit L s = Return (deinit_code L (svc s)) t \<and> heap t = heap s"
proof (cases "RPCSvc_disconnect L (svc s)")
  case (Pair x v)
  show ?thesis
  proof (cases x)
    case (Some e)
    with assms Pair have "is_RPCException e" by (simp add: service_down_def)
    with Pair Some show ?thesis by (cases e) (simp_all add: deinit_def deinit_code_def stmt_simps)
  qed (simp add: Pair deinit_def deinit_code_def stmt_simps)
qed

text \<open>The acquisition loop ends in its first round.\<close>

lemma sbitReadOut_start:
  assumes "rpc_msg_store L"
  shows "\<exists>m. sbitReadOut (Suc n) L can_open ohN acquireTime path s =
    (let t = s\<lparr>req := m, netTime := 0, runNum := 1\<rparr>
     in if acquireTime = 0 then Some (Return 0 t)
        else case sbit_iteration L can_open acquireTime path t of
            Next u \<Rightarrow> sbit_loop n L can_open acquireTime path u
          | r \<Rightarrow> Some r)"
proof -
  obtain m1 where m1: "RPCMsg_set_word L (RPCMsg_new L ''amc.sbitReadOut'') ''ohN'' ohN = Inr m1"
    using rpc_msg_store.set_word_ok [OF assms, where k = "''ohN''"] by auto
  obtain m2 where m2: "RPCMsg_set_word L m1 ''acquireTime'' acquireTime = Inr m2"
    using rpc_msg_store.set_word_ok [OF assms, where k = "''acquireTime''"] by auto
  with m1 show ?thesis
    by (intro exI [of _ m2]) (auto simp: sbitReadOut_def stmt_simps Let_def word_neq_0_conv)
qed

lemma sbit_first:
  assumes "service_down L (svc s) \<or> service_errs L (svc s)" and "runNum s = 1"
  shows "\<exists>t. sbit_iteration L can_open acquireTime path s = Return (if can_open (sbit_file path 1) then 1 else EIO) t \<and>
    heap t = heap s"
proof -
  consider e v where "RPCSvc_call_method L (svc s) (req s) = (Inl e, v)" "is_RPCException e"
    | m v str where "RPCSvc_call_method L (svc s) (req s) = (Inr m, v)" "RPCMsg_get_key_exists L m ''error''"
      "RPCMsg_get_string L m ''error'' = Inr str"
    using assms(1) unfolding service_down_def service_errs_def error_reply_def by blast
  then show ?thesis
    using assms(2) by cases (simp_all add: sbit_iteration_def stmt_simps Let_def)
qed

lemma sbitReadOut_fails:
  assumes "rpc_msg_store L" and "0 < fuel" and "service_down L (svc s) \<or> service_errs L (svc s)"
  shows "\<exists>t. sbitReadOut fuel L can_open ohN acquireTime path s = Some (Return (sbit_code can_open acquireTime path) t) \<and>
    heap t = heap s"
proof -
  from assms(2) obtain n where fuel: "fuel = Suc n" by (cases fuel) auto
  obtain m where run: "sbitReadOut (Suc n) L can_open ohN acquireTime path s =
    (let t = s\<lparr>req := m, netTime := 0, runNum := 1\<rparr>
     in if acquireTime = 0 then Some (Return 0 t)
        else case sbit_iteration L can_open acquireTime path t of
            Next u \<Rightarrow> sbit_loop n L can_open acquireTime path u
          | r \<Rightarrow> Some r)"
    using sbitReadOut_start [OF assms(1)] by blast
  obtain t where "sbit_iteration L can_open acquireTime path (s\<lparr>req := m, netTime := 0, runNum := 1\<rparr>) =
      Return (if can_open (sbit_file path 1) then 1 else EIO) t" "heap t = heap s"
    using sbit_first [of L "s\<lparr>req := m, netTime := 0, runNum := 1\<rparr>" can_open acquireTime path] assms(3) by auto
  then show ?thesis unfolding fuel run by (simp add: sbit_code_def Let_def)
qed

context rpc_msg
begin

lemma export_safe:
  assumes "rpc_export L can_open R W dn er f" and "fits (heap s) R" and "fits (heap s) W"
  shows "\<exists>r t. f s = Some r \<and> ctl_state r = Some t \<and> framed (heap s) W t \<and> r \<noteq> Next t"
  using assms(1)
proof cases
  case (request r c)
  with safeD [OF entry_point_safe [OF request(4) assms(2,3)] framed_refl] entry_final [OF request(4)] show ?thesis
    by (fastforce simp: final_def)
next
  case (init hostname)
  with safeD [OF utils_safe(2) framed_refl [of s]] connection_final(1) [of L hostname] show ?thesis
    by (fastforce simp: final_def)
next
  case deinit
  with safeD [OF utils_safe(1) framed_refl [of s]] connection_final(2) [of L] show ?thesis
    by (fastforce simp: final_def)
next
  case (sbitReadOut acquireTime fuel path ohN)
  with sbitReadOut_safe [OF sbitReadOut(6-8), of can_open ohN path s] framed_heap_cong framed_refl show ?thesis by metis
qed

end

context rpc_msg_store
begin

lemma export_down:
  assumes "rpc_export L can_open R W dn er f" and "fits (heap s) R" and "service_down L (svc s)"
  shows "\<exists>t. f s = Some (Return (dn (svc s)) t) \<and> heap t = heap s"
  using assms(1)
proof cases
  case (request r c)
  with entry_down [OF request(4) assms(2)] assms(3) show ?thesis by (auto simp: down_def)
next
  case (init hostname)
  with init_down [of L "heap s" hostname] assms(3) show ?thesis by (auto simp: down_def)
next
  case deinit
  with deinit_down [OF assms(3)] show ?thesis by auto
next
  case (sbitReadOut acquireTime fuel path ohN)
  with sbitReadOut_fails [OF rpc_msg_store_axioms, of fuel s] assms(3) show ?thesis by auto
qed

lemma export_errs:
  assumes "rpc_export L can_open R W dn (Some r) f" and "fits (heap s) R" and "service_errs L (svc s)"
  shows "\<exists>t. f s = Some (Return r t) \<and> heap t = heap s"
  using assms(1)
proof cases
  case (request c)
  with entry_errs [OF request(3) assms(2)] assms(3) show ?thesis by (auto simp: errs_def)
next
  case (sbitReadOut acquireTime fuel path ohN)
  with sbitReadOut_fails [OF rpc_msg_store_axioms, of fuel s] assms(3) show ?thesis by auto
qed

end

end
