(* ===== verification/Rpc_Properties.thy ===== *)
theory Rpc_Properties
  imports Rpc_Outcomes
begin

text \<open>
  The properties of the RPC client library: what holds of every exported entry point, the register
  accesses against a card that behaves as a register file, and the results of single entry points.
\<close>

section \<open>A card that behaves as a register file\<close>

text \<open>
  The \<^verbatim>\<open>memory\<close> module of the card as the clients rely on it: \<open>regs v\<close> are the registers of the
  service state \<open>v\<close>, \<open>up v\<close> says that the connection works.
\<close>

locale register_service = rpc_msg_store L for L :: "('m, 's) rpc_lib" +
  fixes regs :: "'s \<Rightarrow> u32 \<Rightarrow> u32" and up :: "'s \<Rightarrow> bool"
  assumes memory_read: "up v \<Longrightarrow>
      RPCMsg_set_word L (RPCMsg_new L ''memory.read'') ''address'' a = Inr m1 \<Longrightarrow>
      RPCMsg_set_word L m1 ''count'' 1 = Inr m2 \<Longrightarrow>
      \<exists>m v'. RPCSvc_call_method L v m2 = (Inr m, v') \<and> up v' \<and> regs v' = regs v \<and>
        \<not> RPCMsg_get_key_exists L m ''error'' \<and>
        RPCMsg_get_word_array_size L m ''data'' = Inr 1 \<and> RPCMsg_get_word_array L m ''data'' = Inr [regs v a]"
    and memory_write: "up v \<Longrightarrow>
      RPCMsg_set_word L (RPCMsg_new L ''memory.write'') ''address'' a = Inr m1 \<Longrightarrow>
      RPCMsg_set_word_array L m1 ''data'' [w] = Inr m2 \<Longrightarrow>
      \<exists>m v'. RPCSvc_call_method L v m2 = (Inr m, v') \<and> up v' \<and> regs v' = (regs v)(a := w) \<and>
        \<not> RPCMsg_get_key_exists L m ''error''"
begin

lemma getReg_reads:
  assumes "up (svc s)"
  shows "\<exists>t. getReg L a s = Return (regs (svc s) a) t \<and> heap t = heap s \<and>
    up (svc t) \<and> regs (svc t) = regs (svc s)"
proof -
  obtain m1 where m1: "RPCMsg_set_word L (RPCMsg_new L ''memory.read'') ''address'' a = Inr m1"
    using set_word_ok [where k = "''address''"] by auto
  obtain m2 where m2: "RPCMsg_set_word L m1 ''count'' 1 = Inr m2"
    using set_word_ok [where k = "''count''"] by auto
  from memory_read [OF assms m1 m2] m1 m2 show ?thesis
    by (auto simp: getReg_def stmt_simps)
qed

lemma putReg_writes:
  assumes "up (svc s)"
  shows "\<exists>t. putReg L a w s = Return w t \<and> heap t = heap s \<and>
    up (svc t) \<and> regs (svc t) = (regs (svc s))(a := w)"
proof -
  obtain m1 where m1: "RPCMsg_set_word L (RPCMsg_new L ''memory.write'') ''address'' a = Inr m1"
    using set_word_ok [where k = "''address''"] by auto
  obtain m2 where m2: "RPCMsg_set_word_array L m1 ''data'' [w] = Inr m2"
    using set_word_array_ok [where k = "''data''"] by auto
  from memory_write [OF assms m1 m2] m1 m2 show ?thesis
    by (auto simp: putReg_def stmt_simps)
qed

end

text \<open>The reference card.\<close>

fun ref_regs :: "rsvc \<Rightarrow> u32 \<Rightarrow> u32" where
  "ref_regs (Registers regs) = regs"
| "ref_regs _ = (\<lambda>a. 0)"

fun ref_up :: "rsvc \<Rightarrow> bool" where
  "ref_up (Registers regs) = True"
| "ref_up _ = False"

interpretation ref_card: register_service ref_lib ref_regs ref_up
proof unfold_locales
  fix v a m1 m2
  assume "ref_up v" and "RPCMsg_set_word ref_lib (RPCMsg_new ref_lib ''memory.read'') ''address'' a = Inr m1"
    and "RPCMsg_set_word ref_lib m1 ''count'' 1 = Inr m2"
  then show "\<exists>m v'. RPCSvc_call_method ref_lib v m2 = (Inr m, v') \<and> ref_up v' \<and> ref_regs v' = ref_regs v \<and>
        \<not> RPCMsg_get_key_exists ref_lib m ''error'' \<and>
        RPCMsg_get_word_array_size ref_lib m ''data'' = Inr 1 \<and>
        RPCMsg_get_word_array ref_lib m ''data'' = Inr [ref_regs v a]"
    by (cases v) (auto simp: ref_defs)
next
  fix v a w m1 m2
  assume "ref_up v" and "RPCMsg_set_word ref_lib (RPCMsg_new ref_lib ''memory.write'') ''address'' a = Inr m1"
    and "RPCMsg_set_word_array ref_lib m1 ''data'' [w] = Inr m2"
  then show "\<exists>m v'. RPCSvc_call_method ref_lib v m2 = (Inr m, v') \<and> ref_up v' \<and>
        ref_regs v' = (ref_regs v)(a := w) \<and> \<not> RPCMsg_get_key_exists ref_lib m ''error''"
    by (cases v) (auto simp: ref_defs)
qed

section \<open>Every entry point\<close>

text \<open>
  C1: each of the 57 exported functions, called with arguments its contract allows on a caller memory that has
  the runs it reads and writes, has no undefined behaviour, always ends by a return, an exception or
  an abort, and however it ends the caller's memory differs from before inside the write runs only. The runs
  have the sizes the functions compute. For \<^verbatim>\<open>sbitReadOut\<close> the contract asks for a card whose acquisitions make progress.
\<close>

theorem entry_points_memory_safe:
  assumes "rpc_msg L" and "rpc_export L can_open R W dn er f" and "fits (heap s) R" and "fits (heap s) W"
  shows "\<exists>r t. f s = Some r \<and> ctl_state r = Some t \<and> framed (heap s) W t \<and> r \<noteq> Next t"
  by (rule rpc_msg.export_safe [OF assms])

text \<open>
  C2: when the transport fails (connecting and every call raise a \<^verbatim>\<open>RPCSvc::RPCException\<close>, and disconnecting raises
  nothing else), every exported function leaves the caller's memory as it was and returns 1, with two
  exceptions: \<^verbatim>\<open>deinit\<close> returns 0 when it disconnects or there is no connection to close, and \<^verbatim>\<open>sbitReadOut\<close> returns
  0 when it is asked for no time and \<^verbatim>\<open>EIO\<close> when it cannot open its first output file.
\<close>

theorem entry_points_transport_failure:
  assumes "rpc_msg_store L" and "rpc_export L can_open R W dn er f" and "fits (heap s) R" and "service_down L (svc s)"
  shows "\<exists>t. f s = Some (Return (dn (svc s)) t) \<and> heap t = heap s"
  by (rule rpc_msg_store.export_down [OF assms])

text \<open>
  C3: when the remote side answers with a string under the key \<^verbatim>\<open>error\<close>, every exported function that evaluates
  replies, that is all but \<^verbatim>\<open>init\<close> and \<^verbatim>\<open>deinit\<close>, returns its error code and leaves the caller's memory as it was.
  The code of \<^verbatim>\<open>sbitReadOut\<close> is 1, unless it is asked for no time or cannot open its first output file, as above.
\<close>

theorem entry_points_error_reply:
  assumes "rpc_msg_store L" and "rpc_export L can_open R W dn (Some r) f" and "fits (heap s) R" and "service_errs L (svc s)"
  shows "\<exists>t. f s = Some (Return r t) \<and> heap t = heap s"
  by (rule rpc_msg_store.export_errs [OF assms])

text \<open>Runs of the three theorems on the reference library, with a block read of two words, and closing no connection.\<close>

definition two_words :: rsvc where
  "two_words = Answering (\<lambda>m. Inr ([], [(''data'', MWordArray [7, 8])]))"

definition refusing :: rsvc where
  "refusing = Answering (\<lambda>m. Inr ([], [(''error'', MString ''no'')]))"

definition sbit_ref_state :: "rsvc \<Rightarrow> heap \<Rightarrow> (rmsg, rsvc) sbit_state" where
  "sbit_ref_state v h = rpc_state.extend (ref_state v h) (sbit_state.fields 0 0)"

lemma sbit_ref_state_simps [simp]: "svc (sbit_ref_state v h) = v" "heap (sbit_ref_state v h) = h"
  by (simp_all add: sbit_ref_state_def ref_state_def rpc_state.defs sbit_state.defs)

lemma getBlock_export:
  "rpc_export ref_lib can_open [] [((0, 1), 2)] (\<lambda>v. 1) (Some 1) (\<lambda>s. Some (getBlock ref_lib 0x40 (0, 1) 2 s))"
  using rpc_export.request [OF rpc_entry.getBlock [of ref_lib "(0, 1)" 2 "0x40"]] by simp

theorem entry_points_memory_safe_witness:
  "\<exists>t. ctl_state (getBlock ref_lib 0x40 (0, 1) 2 (sbit_ref_state two_words (\<lambda>b. [1, 2, 3]))) = Some t \<and>
    framed (\<lambda>b. [1, 2, 3]) [((0, 1), 2)] t \<and>
    getBlock ref_lib 0x40 (0, 1) 2 (sbit_ref_state two_words (\<lambda>b. [1, 2, 3])) \<noteq> Next t"
  using entry_points_memory_safe [OF ref.rpc_msg_axioms getBlock_export,
      of "sbit_ref_state two_words (\<lambda>b. [1, 2, 3])"]
  by (simp add: fits_def in_bounds_def)

theorem entry_points_transport_failure_witness:
  "(\<exists>t. getBlock ref_lib 0x40 (0, 1) 2 (sbit_ref_state Offline (\<lambda>b. [1, 2, 3])) = Return 1 t \<and> heap t = (\<lambda>b. [1, 2, 3])) \<and>
    (\<exists>t. deinit ref_lib (sbit_ref_state Offline (\<lambda>b. [1, 2, 3])) = Return 0 t \<and> heap t = (\<lambda>b. [1, 2, 3]))"
proof -
  have "service_down ref_lib Offline" by (simp add: service_down_def ref_lib_def ref_call_def)
  moreover have "deinit_code ref_lib Offline = 0" by (simp add: deinit_code_def ref_lib_def)
  ultimately show ?thesis
    using entry_points_transport_failure [OF ref.rpc_msg_store_axioms getBlock_export, of "sbit_ref_state Offline (\<lambda>b. [1, 2, 3])"]
      entry_points_transport_failure [OF ref.rpc_msg_store_axioms rpc_export.deinit, of "sbit_ref_state Offline (\<lambda>b. [1, 2, 3])"]
    by simp
qed

theorem entry_points_error_reply_witness:
  "\<exists>t. getBlock ref_lib 0x40 (0, 1) 2 (sbit_ref_state refusing (\<lambda>b. [1, 2, 3])) = Return 1 t \<and>
    heap t = (\<lambda>b. [1, 2, 3])"
  using entry_points_error_reply [OF ref.rpc_msg_store_axioms getBlock_export,
      of "sbit_ref_state refusing (\<lambda>b. [1, 2, 3])"]
  by (simp add: service_errs_def error_reply_def refusing_def ref_defs)

section \<open>Register and block accesses\<close>

text \<open>
  C4: on a card that behaves as a register file, \<^verbatim>\<open>putReg(a, w)\<close> followed by \<^verbatim>\<open>getReg(b)\<close> reads \<open>w\<close>
  if \<open>b = a\<close> and the old value of register \<open>b\<close> otherwise; the caller's memory is untouched.
\<close>

theorem putReg_getReg:
  fixes s :: "('m, 's, 'x) rpc_state_scheme"
  assumes "register_service L regs up" and "up (svc s)"
  shows "\<exists>t u. putReg L a w s = Return w t \<and>
    getReg L b t = Return (if b = a then w else regs (svc s) b) u \<and> heap u = heap s"
proof -
  obtain t where t: "putReg L a w s = Return w t" "heap t = heap s" "up (svc t)"
      "regs (svc t) = (regs (svc s))(a := w)"
    using register_service.putReg_writes [OF assms] by blast
  with register_service.getReg_reads [OF assms(1) t(3), of b] show ?thesis by auto
qed

theorem putReg_getReg_witness:
  "\<exists>t u. putReg ref_lib 8 5 (ref_state (Registers (\<lambda>a. 1)) (\<lambda>b. [])) = Return 5 t \<and>
    getReg ref_lib 8 t = Return 5 u \<and> heap u = (\<lambda>b. [])"
  using putReg_getReg [OF ref_card.register_service_axioms, of "ref_state (Registers (\<lambda>a. 1)) (\<lambda>b. [])" 8 5 8]
  by (simp add: ref_state_def)

text \<open>
  C5: the outcome of \<^verbatim>\<open>getBlock\<close> on a reply without \<^verbatim>\<open>error\<close>: if the \<^verbatim>\<open>data\<close> array has exactly the
  requested number of words they are copied to the caller and 0 is returned; with any other number
  of words 1 is returned and nothing is written.
\<close>

theorem getBlock_result:
  fixes s :: "('m, 's, 'x) rpc_state_scheme"
  assumes "rpc_msg_store L"
    and call: "\<And>m. RPCSvc_call_method L (svc s) m = (Inr (reply m), v)"
    and ok: "\<And>m. \<not> RPCMsg_get_key_exists L (reply m) ''error''"
    and data: "\<And>m. RPCMsg_get_word_array L (reply m) ''data'' = Inr ws"
    and len: "\<And>m. RPCMsg_get_word_array_size L (reply m) ''data'' = Inr n"
    and fit: "fits (heap s) [(result, nat (sint sz))]"
  shows "if int (unat n) = sint sz
    then \<exists>t. getBlock L address result sz s = Return 0 t \<and>
      heap t = (heap s)(fst result := overwrite (heap s (fst result)) (snd result) ws)
    else \<exists>t. getBlock L address result sz s = Return 1 t \<and> heap t = heap s"
proof -
  obtain m1 where m1: "RPCMsg_set_word L (RPCMsg_new L ''extras.blockread'') ''address'' address = Inr m1"
    using rpc_msg_store.set_word_ok [OF assms(1), where k = "''address''"] by auto
  obtain m2 where m2: "RPCMsg_set_word L m1 ''count'' (ucast sz) = Inr m2"
    using rpc_msg_store.set_word_ok [OF assms(1), where k = "''count''"] by auto
  have "unat n = length ws"
    using rpc_msg.word_array_size [OF rpc_msg_store.axioms(1) [OF assms(1)] data len] .
  then have "in_bounds (heap s) result (length ws)" if "int (unat n) = sint sz"
    using that fit by (simp add: fits_def) (metis nat_int)
  with call ok data len m1 m2 show ?thesis
    by (auto simp: getBlock_def stmt_simps size_matches_def)
qed

theorem getBlock_result_witness:
  "\<exists>t. getBlock ref_lib 0x40 (0, 1) 2 (ref_state two_words (\<lambda>b. [1, 2, 3])) = Return 0 t \<and>
    heap t 0 = [1, 7, 8]"
proof -
  have "unat (2 :: u32) = 2" and "sint (2 :: u64) = 2" by simp_all
  then show ?thesis
    using getBlock_result [OF ref.rpc_msg_store_axioms,
      of "ref_state two_words (\<lambda>b. [1, 2, 3])" "\<lambda>m. ([], [(''data'', MWordArray [7, 8])])" two_words
        "[7, 8]" 2 "(0, 1)" 2 "0x40"]
    by (auto simp: ref_state_def two_words_def ref_defs fits_def in_bounds_def overwrite_def)
qed

end
