(* ===== verification/Mem_Svc.thy ===== *)
theory Mem_Svc
  imports Xhal_Prelude
begin

text \<open>
  \<^verbatim>\<open>xcompile/lib_rw_ctp7/libmemsvc.c\<close>: the memory service library of the CTP7, which maps ranges of
  the card's address space into the process and reads and writes words through the mappings.

  The kernel is a parameter, the record \<open>mem_os\<close>: the page size, which mappings succeed, and the
  texts of the error numbers. The hardware behind the mappings is a parameter as well, the record
  \<open>device\<close>: reading and writing a word at a physical address may change the device (reading a status
  register can), and an access may raise SIGBUS. A mapping made at offset \<open>start\<close> gives the word at
  \<open>start + off\<close> when it is accessed at \<open>off\<close>. Reading the status register of the chip-to-chip bridge does
  not raise SIGBUS. \<open>None\<close> as the value of an operation is undefined
  behaviour: an access past the caller's buffer.
\<close>

section \<open>The kernel and the device\<close>

record mem_os =
  pagesize :: u32
  mmap_ok :: "u32 \<Rightarrow> bool \<Rightarrow> u32 \<Rightarrow> bool"
  mmap_errno :: int
  strerror :: "int \<Rightarrow> string"
  sigaction_ok :: bool

record 'd device =
  dev_read :: "'d \<Rightarrow> u32 \<Rightarrow> u32 \<times> 'd"
  dev_write :: "'d \<Rightarrow> u32 \<Rightarrow> u32 \<Rightarrow> 'd"
  dev_sigbus :: "'d \<Rightarrow> u32 \<Rightarrow> bool"

section \<open>Ranges and handles\<close>

text \<open>
  The members \<^verbatim>\<open>map\<close> (here \<open>mapped\<close>) and \<^verbatim>\<open>c2creg_map\<close> are pointers that are null until the range is activated:
  the model keeps whether they are set. The list linked by \<^verbatim>\<open>next\<close> is a list.
\<close>

record memsvc_range =
  start :: u32
  range_end :: u32
  readonly :: bool
  mapped :: bool
  maplen :: u32
  c2creg_map :: bool
  c2creg_offset :: u32
  c2c_reg :: u32
  c2c_mask :: u32

definition MEMSVC_VALID_HANDLE_MAGIC :: u32 where
  "MEMSVC_VALID_HANDLE_MAGIC = 0x481ffe3c"

definition MEMSVC_INVALID_HANDLE_MAGIC :: u32 where
  "MEMSVC_INVALID_HANDLE_MAGIC = 0x481ffe3d"

lemma magic_neq: "MEMSVC_VALID_HANDLE_MAGIC \<noteq> MEMSVC_INVALID_HANDLE_MAGIC"
  by (simp add: MEMSVC_VALID_HANDLE_MAGIC_def MEMSVC_INVALID_HANDLE_MAGIC_def)

record memsvc_handle =
  magic :: u32
  last_error :: string
  memfd :: int
  first_range :: "memsvc_range list"

definition set_error :: "mem_os \<Rightarrow> memsvc_handle \<Rightarrow> string \<Rightarrow> int \<Rightarrow> memsvc_handle" where
  "set_error os svc user err =
     svc\<lparr>last_error := (if err = 0 then take 512 user else take 511 (take 512 user @ strerror os err))\<rparr>"

section \<open>Looking up a range\<close>

definition range_matches :: "u32 \<Rightarrow> bool \<Rightarrow> memsvc_range \<Rightarrow> bool" where
  "range_matches addr writeable r \<longleftrightarrow>
     start r \<le> addr \<and> addr \<le> range_end r \<and> (\<not> writeable \<or> \<not> readonly r)"

text \<open>The walk along the list: the ranges before the first match, the match, the ranges after it.\<close>

fun split_at :: "('a \<Rightarrow> bool) \<Rightarrow> 'a list \<Rightarrow> ('a list \<times> 'a \<times> 'a list) option" where
  "split_at P [] = None"
| "split_at P (x # xs) =
     (if P x then Some ([], x, xs)
      else case split_at P xs of None \<Rightarrow> None | Some (pre, y, post) \<Rightarrow> Some (x # pre, y, post))"

definition round_up :: "u32 \<Rightarrow> u32 \<Rightarrow> u32" where
  "round_up page len = (if len mod page \<noteq> 0 then len + (page - len mod page) else len)"

definition activate_range :: "mem_os \<Rightarrow> memsvc_range \<Rightarrow> memsvc_range \<times> bool" where
  "activate_range os r =
     (if mapped r then (r, True)
      else let len = round_up (pagesize os) (range_end r - start r + 1);
               ok = mmap_ok os len (\<not> readonly r) (start r)
           in (r\<lparr>maplen := len, mapped := ok\<rparr>, ok))"

definition activate_c2c :: "mem_os \<Rightarrow> memsvc_range \<Rightarrow> memsvc_range" where
  "activate_c2c os r =
     (if c2creg_map r then r
      else let off = c2c_reg r mod pagesize os
           in r\<lparr>c2creg_offset := off, c2creg_map := mmap_ok os (pagesize os) False (c2c_reg r - off)\<rparr>)"

definition activate_both :: "mem_os \<Rightarrow> memsvc_range \<Rightarrow> memsvc_range" where
  "activate_both os r = (case activate_range os r of (r', ok) \<Rightarrow> if ok then activate_c2c os r' else r')"

text \<open>The range found is the first one of the list of the returned handle.\<close>

definition find_range ::
  "mem_os \<Rightarrow> memsvc_handle \<Rightarrow> u32 \<Rightarrow> bool \<Rightarrow> bool \<Rightarrow> memsvc_range option \<times> memsvc_handle" where
  "find_range os svc addr writeable activate =
     (if addr mod 4 \<noteq> 0 then (None, svc)
      else case split_at (range_matches addr writeable) (first_range svc) of
          None \<Rightarrow> (None, svc)
        | Some (pre, cur, post) \<Rightarrow>
            let cur' = (if activate then activate_both os cur else cur)
            in (Some cur', svc\<lparr>first_range := cur' # pre @ post\<rparr>))"

section \<open>Handles\<close>

definition memsvc_invalidate :: "memsvc_handle \<Rightarrow> memsvc_handle" where
  "memsvc_invalidate svc =
     (if magic svc \<noteq> MEMSVC_VALID_HANDLE_MAGIC \<and> magic svc \<noteq> MEMSVC_INVALID_HANDLE_MAGIC then svc
      else svc\<lparr>magic := MEMSVC_INVALID_HANDLE_MAGIC, memfd := -1, first_range := []\<rparr>)"

definition memsvc_validate :: "mem_os \<Rightarrow> memsvc_handle option \<Rightarrow> bool \<Rightarrow> int \<times> memsvc_handle option" where
  "memsvc_validate os svc validity =
     (case svc of
        None \<Rightarrow> (-1, None)
      | Some h \<Rightarrow>
          if magic h \<noteq> MEMSVC_VALID_HANDLE_MAGIC \<and> magic h \<noteq> MEMSVC_INVALID_HANDLE_MAGIC then (-1, Some h)
          else if magic h = MEMSVC_INVALID_HANDLE_MAGIC \<and> validity
          then (-1, Some (set_error os h ''Invalid service handle'' 0))
          else (0, Some h))"

definition memsvc_close :: "memsvc_handle option \<Rightarrow> int \<times> memsvc_handle option" where
  "memsvc_close svc = (0, None)"

text \<open>\<^verbatim>\<open>memsvc_get_last_error\<close> on a null handle dereferences it.\<close>

definition memsvc_get_last_error :: "memsvc_handle option \<Rightarrow> string option" where
  "memsvc_get_last_error svc = map_option last_error svc"

section \<open>Accesses\<close>

definition range_check ::
  "mem_os \<Rightarrow> 'd device \<Rightarrow> memsvc_handle \<Rightarrow> memsvc_range \<Rightarrow> u32 \<Rightarrow> u32 \<Rightarrow> 'd \<Rightarrow> int \<times> memsvc_handle \<times> 'd" where
  "range_check os dv svc rng addr words d =
     (let svc1 = (if \<not> mapped rng then set_error os svc ''Unable to map memory range'' 0 else svc);
          svc2 = (if \<not> c2creg_map rng
                  then set_error os svc1 ''Unable to map AC2C status register memory range'' 0 else svc1)
      in if addr < start rng \<or> range_end rng < addr + 4 * words
         then (-1, set_error os svc2 ''Address out of range'' 0, d)
         else if c2c_reg rng \<noteq> 0
         then (case dev_read dv d (c2c_reg rng) of (w, d') \<Rightarrow>
             if w AND c2c_mask rng \<noteq> c2c_mask rng
             then (-1, set_error os svc2 ''Chip2Chip bridge offline'' 0, d')
             else (0, svc2, d'))
         else (0, svc2, d))"

text \<open>The hexadecimal rendering \<^verbatim>\<open>%08x\<close> of the messages.\<close>

definition hex_digit :: "nat \<Rightarrow> char" where
  "hex_digit n = (if n < 10 then char_of (48 + n) else char_of (87 + n))"

definition hex8 :: "u32 \<Rightarrow> string" where
  "hex8 w = map (\<lambda>i. hex_digit (unat w div 16 ^ (7 - i) mod 16)) [0..<8]"

text \<open>
  The read loop. Every iteration reads the same register. The result is the return value (-1 after
  a SIGBUS, which jumps out of the loop), the buffer and the device. The counter of the source is an \<^verbatim>\<open>int\<close>, so
  the loop is the one of the source for fewer than \<open>2 ^ 31\<close> words; a buffer of that many words does not fit into the
  address space of the card's 32-bit processor.
\<close>

fun read_words :: "'d device \<Rightarrow> u32 \<Rightarrow> nat \<Rightarrow> nat \<Rightarrow> u32 list \<Rightarrow> 'd \<Rightarrow> (int \<times> u32 list \<times> 'd) option" where
  "read_words dv a 0 i data d = Some (0, data, d)"
| "read_words dv a (Suc n) i data d =
     (if dev_sigbus dv d a then Some (-1, data, d)
      else if i < length data
      then (case dev_read dv d a of (w, d') \<Rightarrow> read_words dv a n (Suc i) (data[i := w]) d')
      else None)"

text \<open>
  The write loop does not prepare for SIGBUS: the signal ends the process, or, when an earlier
  \<^verbatim>\<open>memsvc_read\<close> left its handler installed, jumps into the frame of that call, which has returned.
  Both are the outcome \<open>Bus_error\<close>. Reading past the source buffer is \<open>Overrun\<close>.
\<close>

datatype 'd write_result = Written 'd | Bus_error 'd | Overrun

fun write_words :: "'d device \<Rightarrow> u32 \<Rightarrow> nat \<Rightarrow> nat \<Rightarrow> u32 list \<Rightarrow> 'd \<Rightarrow> 'd write_result" where
  "write_words dv a 0 i data d = Written d"
| "write_words dv a (Suc n) i data d =
     (if i < length data
      then if dev_sigbus dv d a then Bus_error d
           else write_words dv a n (Suc i) data (dev_write dv d a (data ! i))
      else Overrun)"

definition memsvc_read ::
  "mem_os \<Rightarrow> 'd device \<Rightarrow> memsvc_handle option \<Rightarrow> u32 \<Rightarrow> u32 \<Rightarrow> u32 list \<Rightarrow> 'd \<Rightarrow>
   (int \<times> memsvc_handle option \<times> u32 list \<times> 'd) option" where
  "memsvc_read os dv svc addr words data d =
     (case memsvc_validate os svc True of
        (v, None) \<Rightarrow> Some (-1, None, data, d)
      | (v, Some h) \<Rightarrow>
        if v < 0 then Some (-1, Some h, data, d)
        else case find_range os h addr False True of
          (None, h1) \<Rightarrow>
            Some (-1, Some (set_error os h1 (''Invalid address: 0x'' @ hex8 addr) 0), data, d)
        | (Some rng, h1) \<Rightarrow>
            if \<not> mapped rng
            then Some (-1, Some (set_error os h1 ''Unable to map memory range: '' (mmap_errno os)), data, d)
            else if \<not> c2creg_map rng
            then Some (-1, Some (set_error os h1 ''Unable to map AC2C status register memory range: ''
                (mmap_errno os)), data, d)
            else case range_check os dv h1 rng addr words d of (rc, h2, d1) \<Rightarrow>
              if rc < 0 then Some (-1, Some h2, data, d1)
              else if start rng = 0 then Some (-1, Some h2, data, d1)
              else if \<not> sigaction_ok os then Some (-1, Some h2, data, d1)
              else (case read_words dv addr (unat words) 0 data d1 of
                  None \<Rightarrow> None
                | Some (r, data', d2) \<Rightarrow> Some (r, Some h2, data', d2)))"

definition readonly_message :: "memsvc_range \<Rightarrow> u32 \<Rightarrow> u32 \<Rightarrow> string" where
  "readonly_message rng words addr =
     take 127 (''Unable to write to readonly range 0x'' @ hex8 (start rng) @ ''-0x'' @ hex8 (range_end rng)
       @ ''!  Attempted to write '' @ to_string (unat words) @ '' words at 0x'' @ hex8 addr @ ''.'')"

datatype 'd memsvc_outcome = Returned int "memsvc_handle option" 'd | Died 'd | Wild

definition memsvc_write ::
  "mem_os \<Rightarrow> 'd device \<Rightarrow> memsvc_handle option \<Rightarrow> u32 \<Rightarrow> u32 \<Rightarrow> u32 list \<Rightarrow> 'd \<Rightarrow> 'd memsvc_outcome" where
  "memsvc_write os dv svc addr words data d =
     (case memsvc_validate os svc True of
        (v, None) \<Rightarrow> Returned (-1) None d
      | (v, Some h) \<Rightarrow>
        if v < 0 then Returned (-1) (Some h) d
        else case find_range os h addr True True of
          (None, h1) \<Rightarrow>
            (case find_range os h1 addr False False of
               (Some rng, h2) \<Rightarrow> Returned (-1) (Some (set_error os h2 (readonly_message rng words addr) 0)) d
             | (None, h2) \<Rightarrow>
                 Returned (-1) (Some (set_error os h2 (''Invalid address: 0x'' @ hex8 addr) 0)) d)
        | (Some rng, h1) \<Rightarrow>
            if \<not> mapped rng
            then Returned (-1) (Some (set_error os h1 ''Unable to map memory range: '' (mmap_errno os))) d
            else if \<not> c2creg_map rng
            then Returned (-1) (Some (set_error os h1 ''Unable to map AC2C status register memory range: ''
                (mmap_errno os))) d
            else case range_check os dv h1 rng addr words d of (rc, h2, d1) \<Rightarrow>
              if rc < 0 then Returned (-1) (Some h2) d1
              else (case write_words dv addr (unat words) 0 data d1 of
                  Written d2 \<Rightarrow> Returned 0 (Some h2) d2
                | Bus_error d2 \<Rightarrow> Died d2
                | Overrun \<Rightarrow> Wild))"

end
