(* ===== verification/Mem_Svc_Config.thy ===== *)
theory Mem_Svc_Config
  imports Mem_Svc
begin

text \<open>
  \<^verbatim>\<open>memsvc_open\<close> of \<^verbatim>\<open>xcompile/lib_rw_ctp7/libmemsvc.c\<close>: obtaining the memory descriptor from the
  service and parsing the configuration file into the list of ranges. The C library functions the
  parser uses, \<^verbatim>\<open>strtoul\<close> in base 16 and \<^verbatim>\<open>fgets\<close>, are defined here; the width of \<^verbatim>\<open>unsigned long\<close> is a
  parameter (32 bits on the card). The text of the file has no NUL character.
\<close>

section \<open>C library\<close>

definition is_space :: "char \<Rightarrow> bool" where
  "is_space c \<longleftrightarrow> (of_char c :: nat) \<in> {9, 10, 11, 12, 13, 32}"

fun xdigit_val :: "char \<Rightarrow> nat option" where
  "xdigit_val c = (let n = of_char c :: nat in
     if 48 \<le> n \<and> n \<le> 57 then Some (n - 48)
     else if 97 \<le> n \<and> n \<le> 102 then Some (n - 87)
     else if 65 \<le> n \<and> n \<le> 70 then Some (n - 55)
     else None)"

declare xdigit_val.simps [simp del]

definition is_xdigit :: "char \<Rightarrow> bool" where
  "is_xdigit c \<longleftrightarrow> xdigit_val c \<noteq> None"

fun hex_value :: "nat \<Rightarrow> string \<Rightarrow> nat" where
  "hex_value acc [] = acc"
| "hex_value acc (c # cs) = hex_value (16 * acc + the (xdigit_val c)) cs"

text \<open>The character under a pointer into a string: the terminating NUL at its end.\<close>

fun char_at :: "string \<Rightarrow> char" where
  "char_at [] = CHR 0x00"
| "char_at (c # cs) = c"

definition strip_sign :: "string \<Rightarrow> bool \<times> string" where
  "strip_sign s = (case s of
      c # cs \<Rightarrow> if c = CHR ''-'' then (True, cs) else if c = CHR ''+'' then (False, cs) else (False, s)
    | [] \<Rightarrow> (False, s))"

definition strip_0x :: "string \<Rightarrow> string" where
  "strip_0x s = (case s of
      c # x # d # cs \<Rightarrow>
        if c = CHR ''0'' \<and> (x = CHR ''x'' \<or> x = CHR ''X'') \<and> is_xdigit d then d # cs else s
    | _ \<Rightarrow> s)"

text \<open>
  \<^verbatim>\<open>strtoul(s, &endptr, 16)\<close>: the value, the string at \<^verbatim>\<open>endptr\<close> and whether \<^verbatim>\<open>errno\<close> is set to
  \<^verbatim>\<open>ERANGE\<close>. Without a digit nothing is consumed, not even the blanks.
\<close>

definition strtoul16 :: "nat \<Rightarrow> string \<Rightarrow> nat \<times> string \<times> bool" where
  "strtoul16 bits s =
     (case strip_sign (dropWhile is_space s) of (neg, t) \<Rightarrow>
        let u = strip_0x t; ds = takeWhile is_xdigit u; rest = dropWhile is_xdigit u; v = hex_value 0 ds
        in if ds = [] then (0, s, False)
           else if 2 ^ bits \<le> v then (2 ^ bits - 1, rest, True)
           else ((if neg then (2 ^ bits - v) mod 2 ^ bits else v), rest, False))"

text \<open>\<^verbatim>\<open>fgets(buf, n + 1, f)\<close> until the end of the file: at most \<open>n\<close> characters, up to and with a newline.\<close>

fun take_line :: "nat \<Rightarrow> string \<Rightarrow> string \<times> string" where
  "take_line n [] = ([], [])"
| "take_line 0 cs = ([], cs)"
| "take_line (Suc n) (c # cs) =
     (if c = CHR 0x0A then ([c], cs)
      else case take_line n cs of (l, rest) \<Rightarrow> (c # l, rest))"

lemma take_line_append: "take_line n cs = (l, rest) \<Longrightarrow> cs = l @ rest"
  by (induction n cs arbitrary: l rest rule: take_line.induct) (auto split: if_splits prod.splits)

lemma take_line_shorter: "take_line (Suc n) (c # cs) = (l, rest) \<Longrightarrow> length rest < Suc (length cs)"
  by (auto split: if_splits prod.splits dest: take_line_append)

function (sequential) fgets_lines :: "nat \<Rightarrow> string \<Rightarrow> string list" where
  "fgets_lines n [] = []"
| "fgets_lines n (c # cs) = (case take_line (Suc n) (c # cs) of (l, rest) \<Rightarrow> l # fgets_lines n rest)"
  by pat_completeness auto

termination
  by (relation "measure (\<lambda>(n, cs). length cs)") (auto simp del: take_line.simps dest: take_line_shorter [OF sym])

section \<open>Configuration\<close>

definition empty_range :: memsvc_range where
  "empty_range = \<lparr>start = 0, range_end = 0, readonly = False, mapped = False, maplen = 0,
     c2creg_map = False, c2creg_offset = 0, c2c_reg = 0, c2c_mask = 0\<rparr>"

text \<open>
  One field: a hexadecimal number followed by one of the \<open>seps\<close>. The value is truncated to the
  32-bit member it is stored in.
\<close>

definition hex_field :: "nat \<Rightarrow> char list \<Rightarrow> string \<Rightarrow> (u32 \<times> string) option" where
  "hex_field bits seps s =
     (case strtoul16 bits s of (v, rest, erange) \<Rightarrow>
        if char_at rest \<notin> set seps \<or> erange then None else Some (of_nat v, tl rest))"

text \<open>A line: the range, or the number of the field the error is reported for.\<close>

definition parse_range :: "nat \<Rightarrow> string \<Rightarrow> nat + memsvc_range" where
  "parse_range bits line =
     (case hex_field bits [CHR '' ''] line of
        None \<Rightarrow> Inl 1
      | Some (st, p1) \<Rightarrow>
      case hex_field bits [CHR '' ''] p1 of
        None \<Rightarrow> Inl 2
      | Some (en, p2) \<Rightarrow>
      if char_at p2 \<noteq> CHR ''0'' \<and> char_at p2 \<noteq> CHR ''1'' then Inl 3
      else if char_at (tl p2) \<noteq> CHR '' '' then Inl 3
      else case hex_field bits [CHR '' ''] (tl (tl p2)) of
        None \<Rightarrow> Inl 4
      | Some (reg, p3) \<Rightarrow>
      case hex_field bits [CHR '' '', CHR 0x0A, CHR 0x00] p3 of
        None \<Rightarrow> Inl 5
      | Some (msk, p4) \<Rightarrow>
        Inr (empty_range\<lparr>start := st, range_end := en, readonly := (char_at p2 = CHR ''1''),
          c2c_reg := reg, c2c_mask := msk\<rparr>))"

text \<open>
  The loop over the lines, from line \<open>n + 1\<close> on with the ranges read so far (in reverse). It ends
  with the ranges, or with the message of the error that ends it.
\<close>

fun parse_config :: "nat \<Rightarrow> nat \<Rightarrow> memsvc_range list \<Rightarrow> string list \<Rightarrow> string + memsvc_range list" where
  "parse_config bits n rs [] = Inr rs"
| "parse_config bits n rs (line # lines) =
     (if char_at line = CHR ''#'' then parse_config bits (Suc n) rs lines
      else case parse_range bits line of
        Inl field \<Rightarrow> Inl (take 63 (''Config file error on line '' @ to_string (Suc n) @ '', on or after field ''
          @ to_string field))
      | Inr r \<Rightarrow>
          if range_end r \<le> start r
          then Inl (take 79 (''Config file error on line '' @ to_string (Suc n) @ '': start[0x'' @ hex8 (start r)
            @ '']>=end[0x'' @ hex8 (range_end r) @ '']''))
          else parse_config bits (Suc n) (r # rs) lines)"

section \<open>Opening the service\<close>

text \<open>
  The control messages that came with the answer of the memory service: level and type, and the
  descriptor at the start of the data. \<^verbatim>\<open>recvfd\<close> returns what \<^verbatim>\<open>recvmsg\<close> returned, and stores in its argument,
  here \<open>fd\<close>, the descriptor of the first message that passes one, or -1; unless nothing was received.
\<close>

record cmsghdr =
  cmsg_level :: int
  cmsg_type :: int
  cmsg_fd :: int

definition SOL_SOCKET :: int where "SOL_SOCKET = 1"
definition SCM_RIGHTS :: int where "SCM_RIGHTS = 1"

definition recvfd :: "int \<Rightarrow> cmsghdr list \<Rightarrow> int \<Rightarrow> int \<times> int" where
  "recvfd rv cmsgs fd =
     (if rv \<le> 0 then (rv, fd)
      else (rv, case find (\<lambda>c. cmsg_level c = SOL_SOCKET \<and> cmsg_type c = SCM_RIGHTS) cmsgs of
          None \<Rightarrow> -1
        | Some c \<Rightarrow> cmsg_fd c))"

text \<open>
  What the system answers: the errors of the calls (0 for none), the result of \<^verbatim>\<open>recvmsg\<close> with its control
  messages, and the file.
\<close>

record open_env =
  socket_errno :: int
  connect_errno :: int
  recvmsg_rv :: int
  recvmsg_errno :: int
  recvmsg_cmsgs :: "cmsghdr list"
  conf_errno :: int
  conf_text :: string
  ulong_bits :: nat

definition fresh_handle :: memsvc_handle where
  "fresh_handle = \<lparr>magic = MEMSVC_INVALID_HANDLE_MAGIC, last_error = [], memfd = -1, first_range = []\<rparr>"

definition open_failed :: "mem_os \<Rightarrow> memsvc_handle \<Rightarrow> string \<Rightarrow> int \<Rightarrow> int \<times> memsvc_handle" where
  "open_failed os svc user err = (-1, memsvc_invalidate (set_error os svc user err))"

abbreviation recvfd_rv :: "open_env \<Rightarrow> int" where
  "recvfd_rv env \<equiv> fst (recvfd (recvmsg_rv env) (recvmsg_cmsgs env) (memfd fresh_handle))"

abbreviation recvfd_fd :: "open_env \<Rightarrow> int" where
  "recvfd_fd env \<equiv> snd (recvfd (recvmsg_rv env) (recvmsg_cmsgs env) (memfd fresh_handle))"

definition memsvc_open :: "mem_os \<Rightarrow> open_env \<Rightarrow> int \<times> memsvc_handle" where
  "memsvc_open os env =
     (if socket_errno env \<noteq> 0 then open_failed os fresh_handle ''Socket creation failed: '' (socket_errno env)
      else if connect_errno env \<noteq> 0
      then open_failed os fresh_handle ''Unable to connect to memsvc: '' (connect_errno env)
      else let svc = fresh_handle\<lparr>memfd := recvfd_fd env\<rparr> in
        if recvfd_rv env \<noteq> 1
        then open_failed os svc ''Unable to retrieve memory descriptor from memsvc: '' (recvmsg_errno env)
        else if memfd svc < 0
        then open_failed os svc ''Unable to retrieve memory descriptor from memsvc'' 0
        else if conf_errno env \<noteq> 0
        then open_failed os svc ''Unable to open memsvc configuration file: '' (conf_errno env)
        else case parse_config (ulong_bits env) 0 [] (fgets_lines 1022 (conf_text env)) of
            Inl msg \<Rightarrow> open_failed os svc msg 0
          | Inr rs \<Rightarrow> (0, svc\<lparr>first_range := rs, magic := MEMSVC_VALID_HANDLE_MAGIC\<rparr>))"

end
