(* ===== verification/Mem_Svc_Ranges.thy ===== *)
theory Mem_Svc_Ranges
  imports Mem_Svc_Config
begin

text \<open>
  Properties of the range list of the memory service: the move-to-front of \<^verbatim>\<open>find_range\<close> does not
  change what later lookups find, accesses outside their range are refused, and the configuration
  file format round-trips.
\<close>

section \<open>Searching\<close>

lemma split_at_Some:
  "split_at P xs = Some (pre, x, post) \<Longrightarrow> xs = pre @ x # post \<and> P x \<and> (\<forall>y \<in> set pre. \<not> P y)"
  by (induction xs arbitrary: pre) (auto split: if_splits option.splits)

lemma split_at_None: "split_at P xs = None \<longleftrightarrow> (\<forall>x \<in> set xs. \<not> P x)"
  by (induction xs) (auto split: option.splits)

text \<open>What a range was configured as, without the state of its mappings.\<close>

definition config :: "memsvc_range \<Rightarrow> u32 \<times> u32 \<times> bool \<times> u32 \<times> u32" where
  "config r = (start r, range_end r, readonly r, c2c_reg r, c2c_mask r)"

lemma config_activate_both [simp]: "config (activate_both os r) = config r"
  by (simp add: config_def activate_both_def activate_range_def activate_c2c_def Let_def)

lemma config_matches: "config r = config q \<Longrightarrow> range_matches a w r = range_matches a w q"
  by (simp add: config_def range_matches_def)

text \<open>A well-formed handle: every range is non-empty and no address is in two ranges.\<close>

definition overlap :: "memsvc_range \<Rightarrow> memsvc_range \<Rightarrow> bool" where
  "overlap q r \<longleftrightarrow> (\<exists>a. start q \<le> a \<and> a \<le> range_end q \<and> start r \<le> a \<and> a \<le> range_end r)"

definition disjoint_ranges :: "memsvc_range list \<Rightarrow> bool" where
  "disjoint_ranges rs \<longleftrightarrow> sorted_wrt (\<lambda>q r. \<not> overlap q r) rs"

lemma overlap_sym: "overlap q r = overlap r q"
  by (auto simp: overlap_def)

lemma disjoint_ranges_move:
  assumes "disjoint_ranges (pre @ r # post)" and "config r' = config r"
  shows "disjoint_ranges (r' # pre @ post)"
proof -
  have "overlap r' q = overlap r q" for q
    using assms(2) by (simp add: overlap_def config_def)
  with assms(1) overlap_sym show ?thesis
    by (auto simp: disjoint_ranges_def sorted_wrt_append)
qed

lemma disjoint_ranges_unique:
  assumes "disjoint_ranges rs" and "q \<in> set rs" and "r \<in> set rs" and "overlap q r"
  shows "q = r"
  using assms
  by (induction rs) (auto simp: disjoint_ranges_def overlap_sym)

lemma range_matches_overlap: "range_matches a w q \<Longrightarrow> range_matches a w' r \<Longrightarrow> overlap q r"
  by (auto simp: range_matches_def overlap_def)

lemma image_eq_preimage:
  assumes "f ` A = f ` B" and "x \<in> B"
  shows "\<exists>y \<in> A. f x = f y"
proof -
  have "f x \<in> f ` A" using assms by simp
  then show ?thesis by auto
qed

text \<open>The range a lookup finds depends only on which ranges there are.\<close>

definition lookup_config :: "memsvc_range list \<Rightarrow> u32 \<Rightarrow> bool \<Rightarrow> (u32 \<times> u32 \<times> bool \<times> u32 \<times> u32) option" where
  "lookup_config rs a w = map_option (\<lambda>(pre, r, post). config r) (split_at (range_matches a w) rs)"

lemma lookup_config_cong:
  assumes "disjoint_ranges rs" and "config ` set rs = config ` set rs'"
  shows "lookup_config rs' a w = lookup_config rs a w"
proof (cases "split_at (range_matches a w) rs")
  case None
  have "\<not> range_matches a w x" if x: "x \<in> set rs'" for x
  proof -
    obtain y where "y \<in> set rs" "config x = config y"
      using image_eq_preimage [OF assms(2) x] by blast
    with None show ?thesis using config_matches [of x y] by (simp add: split_at_None)
  qed
  then have "split_at (range_matches a w) rs' = None" by (simp add: split_at_None)
  with None show ?thesis by (simp add: lookup_config_def)
next
  case (Some prp)
  obtain pre r post where prp: "prp = (pre, r, post)" by (metis prod_cases3)
  with Some have r: "r \<in> set rs" "range_matches a w r" by (auto dest: split_at_Some)
  obtain r' where "r' \<in> set rs'" "config r' = config r"
    using image_eq_preimage [OF assms(2) [symmetric] r(1)] by force
  with r(2) have "split_at (range_matches a w) rs' \<noteq> None"
    using config_matches [of r' r] by (auto simp: split_at_None)
  then obtain pre' q post' where q: "split_at (range_matches a w) rs' = Some (pre', q, post')" by auto
  then have "q \<in> set rs'" "range_matches a w q" by (auto dest: split_at_Some)
  obtain q' where q': "q' \<in> set rs" "config q = config q'"
    using image_eq_preimage [OF assms(2) \<open>q \<in> set rs'\<close>] by blast
  with \<open>range_matches a w q\<close> have "range_matches a w q'" using config_matches [of q q'] by simp
  with r q'(1) have "q' = r"
    using disjoint_ranges_unique [OF assms(1)] range_matches_overlap by blast
  with q q'(2) Some prp show ?thesis by (simp add: lookup_config_def)
qed

lemma find_range_cases:
  obtains (none) "find_range os svc a w act = (None, svc)"
      and "a mod 4 \<noteq> 0 \<or> lookup_config (first_range svc) a w = None"
  | (found) pre r post r' where "find_range os svc a w act = (Some r', svc\<lparr>first_range := r' # pre @ post\<rparr>)"
      and "first_range svc = pre @ r # post" and "config r' = config r" and "range_matches a w r"
      and "a mod 4 = 0" and "lookup_config (first_range svc) a w = Some (config r)"
      and "r' = (if act then activate_both os r else r)"
proof (cases "a mod 4 = 0")
  case True
  show ?thesis
  proof (cases "split_at (range_matches a w) (first_range svc)")
    case None
    with True none show ?thesis by (simp add: find_range_def lookup_config_def)
  next
    case (Some prp)
    obtain pre r post where prp: "prp = (pre, r, post)" by (metis prod_cases3)
    let ?r' = "if act then activate_both os r else r"
    show ?thesis
    proof (rule found)
      show "find_range os svc a w act = (Some ?r', svc\<lparr>first_range := ?r' # pre @ post\<rparr>)"
        using True Some prp by (simp add: find_range_def Let_def)
    qed (use True Some prp split_at_Some [of "range_matches a w" "first_range svc"] in
        \<open>auto simp: lookup_config_def\<close>)
  qed
next
  case False
  with none show ?thesis by (simp add: find_range_def)
qed

lemma find_range_keeps:
  assumes "find_range os svc a w act = (res, svc')"
  shows "config ` set (first_range svc') = config ` set (first_range svc)"
    and "disjoint_ranges (first_range svc) \<Longrightarrow> disjoint_ranges (first_range svc')"
    and "magic svc' = magic svc" and "memfd svc' = memfd svc"
  by (cases rule: find_range_cases [of os svc a w act];
      use assms in \<open>auto intro: disjoint_ranges_move\<close>)+

section \<open>Properties\<close>

text \<open>
  C15: the move to the front is transparent. On a handle whose ranges are disjoint, a lookup keeps the
  ranges (as configured), their disjointness and the handle's descriptor, and any later lookup finds
  the same range as it would have before.
\<close>

theorem find_range_transparent:
  assumes "disjoint_ranges (first_range svc)" and "find_range os svc a w act = (res, svc')"
  shows "disjoint_ranges (first_range svc') \<and>
    config ` set (first_range svc') = config ` set (first_range svc) \<and>
    map_option config (fst (find_range os svc' b w' act')) = map_option config (fst (find_range os svc b w' act'))"
proof -
  note keeps = find_range_keeps [OF assms(2)]
  have look: "map_option config (fst (find_range os h b w' act')) =
      (if b mod 4 = 0 then lookup_config (first_range h) b w' else None)" for h
    by (cases rule: find_range_cases [of os h b w' act']) auto
  have "lookup_config (first_range svc') b w' = lookup_config (first_range svc) b w'"
    by (rule lookup_config_cong [OF assms(1) keeps(1) [symmetric]])
  with keeps(1) keeps(2) [OF assms(1)] look show ?thesis by simp
qed

text \<open>A kernel that maps everything, and two pages next to each other.\<close>

definition page_os :: mem_os where
  "page_os = \<lparr>pagesize = 4096, mmap_ok = (\<lambda>len w off. True), mmap_errno = 0, strerror = (\<lambda>e. []), sigaction_ok = True\<rparr>"

definition two_pages :: memsvc_handle where
  "two_pages = \<lparr>magic = MEMSVC_VALID_HANDLE_MAGIC, last_error = [], memfd = 3,
     first_range = [empty_range\<lparr>start := 0x1000, range_end := 0x1fff\<rparr>, empty_range\<lparr>start := 0x2000, range_end := 0x2fff\<rparr>]\<rparr>"

lemma two_pages_disjoint: "disjoint_ranges (first_range two_pages)"
proof -
  have "\<not> (a \<le> 0x1fff \<and> (0x2000 :: u32) \<le> a)" for a
    by (auto simp: word_le_nat_alt)
  then show ?thesis
    by (auto simp: two_pages_def disjoint_ranges_def overlap_def empty_range_def)
qed

theorem find_range_transparent_witness:
  "map_option config (fst (find_range page_os (snd (find_range page_os two_pages 0x2004 False False)) 0x1008 True False)) =
    Some (0x1000, 0x1fff, False, 0, 0)"
proof -
  obtain res h1 where f: "find_range page_os two_pages 0x2004 False False = (res, h1)" by force
  have "fst (find_range page_os two_pages 0x1008 True False) = Some (empty_range\<lparr>start := 0x1000, range_end := 0x1fff\<rparr>)"
    by (simp add: find_range_def two_pages_def range_matches_def empty_range_def)
  with find_range_transparent [OF two_pages_disjoint f, of "0x1008" True False] f show ?thesis
    by (simp add: config_def empty_range_def)
qed

section \<open>The configuration file format\<close>

definition render_range :: "memsvc_range \<Rightarrow> string" where
  "render_range r =
     hex8 (start r) @ '' '' @ hex8 (range_end r) @ '' '' @ (if readonly r then ''1'' else ''0'') @ '' ''
     @ hex8 (c2c_reg r) @ '' '' @ hex8 (c2c_mask r) @ [CHR 0x0A]"

lemma nat16_cases: "n < 16 \<Longrightarrow> n \<in> {0, 1, 2, 3, 4, 5, 6, 7, 8, 9, 10, 11, 12, 13, 14, 15 :: nat}"
  by simp presburger

lemma xdigit_val_hex_digit: "n < 16 \<Longrightarrow> xdigit_val (hex_digit n) = Some n"
  using nat16_cases [of n] by (auto simp: xdigit_val.simps hex_digit_def)

lemma hex_digit_chars: "n < 16 \<Longrightarrow> \<not> is_space (hex_digit n) \<and> hex_digit n \<noteq> CHR ''-'' \<and> hex_digit n \<noteq> CHR ''+'' \<and>
    hex_digit n \<noteq> CHR ''x'' \<and> hex_digit n \<noteq> CHR ''X'' \<and> is_xdigit (hex_digit n)"
  using nat16_cases [of n] by (auto simp: hex_digit_def is_space_def is_xdigit_def xdigit_val.simps char_of_eq_iff)

lemma hex8_digits:
  "hex8 w = [hex_digit (nib (unat w) 7), hex_digit (nib (unat w) 6), hex_digit (nib (unat w) 5),
     hex_digit (nib (unat w) 4), hex_digit (nib (unat w) 3), hex_digit (nib (unat w) 2),
     hex_digit (nib (unat w) 1), hex_digit (nib (unat w) 0)]"
  by (simp add: hex8_def nib_def upt_rec)

lemma hex_value_hex8: "hex_value 0 (hex8 w) = unat w"
proof -
  have "unat w < 2 ^ 32" using unsigned_less [of w, where ?'a = nat] by simp
  from nib_split [OF this] show ?thesis
    by (simp add: hex8_digits xdigit_val_hex_digit nib_less)
qed

lemma strtoul16_hex8:
  assumes "32 \<le> bits" and "\<not> is_xdigit c"
  shows "strtoul16 bits (hex8 w @ c # rest) = (unat w, c # rest, False)"
proof -
  note ch = hex_digit_chars [OF nib_less]
  have start: "dropWhile is_space (hex8 w @ c # rest) = hex8 w @ c # rest"
    "strip_sign (hex8 w @ c # rest) = (False, hex8 w @ c # rest)"
    "strip_0x (hex8 w @ c # rest) = hex8 w @ c # rest"
    using ch by (auto simp: hex8_digits strip_sign_def strip_0x_def)
  have "\<forall>x \<in> set (hex8 w). is_xdigit x"
    using ch by (auto simp: hex8_digits)
  then have "takeWhile is_xdigit (hex8 w @ c # rest) = hex8 w" "dropWhile is_xdigit (hex8 w @ c # rest) = c # rest"
    using assms(2) by (simp_all add: takeWhile_append2 dropWhile_append2)
  moreover have "unat w < 2 ^ bits"
  proof -
    have "unat w < 2 ^ 32" using unsigned_less [of w, where ?'a = nat] by simp
    also have "(2 :: nat) ^ 32 \<le> 2 ^ bits" using assms(1) by (rule power_increasing) simp
    finally show ?thesis .
  qed
  moreover have "hex8 w \<noteq> []" by (simp add: hex8_digits)
  ultimately show ?thesis
    by (simp add: strtoul16_def start hex_value_hex8 Let_def)
qed

text \<open>
  C21: a line written in the format of the configuration file is read back as the range it describes,
  for any width of \<^verbatim>\<open>unsigned long\<close> from 32 bits on.
\<close>

theorem parse_render_range:
  assumes "32 \<le> bits"
  shows "parse_range bits (render_range r) = Inr (empty_range\<lparr>start := start r, range_end := range_end r,
    readonly := readonly r, c2c_reg := c2c_reg r, c2c_mask := c2c_mask r\<rparr>)"
proof -
  have "\<not> is_xdigit (CHR '' '')" "\<not> is_xdigit (CHR 0x0A)"
    by (simp_all add: is_xdigit_def xdigit_val.simps)
  then have field: "hex_field bits (CHR '' '' # seps) (hex8 w @ CHR '' '' # rest) = Some (w, rest)"
      "hex_field bits [CHR '' '', CHR 0x0A, CHR 0x00] (hex8 w @ [CHR 0x0A]) = Some (w, [])" for w rest seps
    by (simp_all add: hex_field_def strtoul16_hex8 [OF assms])
  show ?thesis
    by (simp add: parse_range_def render_range_def field)
qed

theorem parse_render_range_witness:
  "parse_range 32 (render_range (empty_range\<lparr>start := 0x60000000, range_end := 0x60ffffff, readonly := True\<rparr>)) =
    Inr (empty_range\<lparr>start := 0x60000000, range_end := 0x60ffffff, readonly := True\<rparr>)"
  using parse_render_range [of 32 "empty_range\<lparr>start := 0x60000000, range_end := 0x60ffffff, readonly := True\<rparr>"]
  by (simp add: empty_range_def)

end
