(* ===== verification/Xml_Parser.thy ===== *)
theory Xml_Parser
  imports Mem_Svc_Ranges "HOL-Library.AList"
begin

text \<open>
  \<^verbatim>\<open>xhalcore/src/common/utils/XHALXMLParser.cpp\<close> and \<^verbatim>\<open>xhalcore/include/xhal/utils/XHALXMLNode.h\<close>: from the
  document tree of an address table to the map of named registers.

  The document tree is what the XML library returns: elements with attributes, and other nodes. The
  numeric conversions of the standard library are defined as it does them. The order in which an
  unordered map is iterated is a parameter, a function that permutes its entries. Logging is not
  modelled.
\<close>

section \<open>Results\<close>

text \<open>A value, an exception that leaves the parser, or undefined behaviour.\<close>

datatype 'a xml = Ok 'a | Throws | Undef

fun bind_xml :: "'a xml \<Rightarrow> ('a \<Rightarrow> 'b xml) \<Rightarrow> 'b xml" where
  "bind_xml (Ok x) f = f x"
| "bind_xml Throws f = Throws"
| "bind_xml Undef f = Undef"

lemma bind_xml_Ok: "bind_xml m f = Ok y \<longleftrightarrow> (\<exists>x. m = Ok x \<and> f x = Ok y)"
  by (cases m) auto

lemma bind_xml_cong [fundef_cong]:
  "m = m' \<Longrightarrow> (\<And>x. m' = Ok x \<Longrightarrow> f x = f' x) \<Longrightarrow> bind_xml m f = bind_xml m' f'"
  by (cases m') auto

section \<open>Nodes\<close>

datatype dom = Element "(string \<times> string) list" "dom list" | Other_dom

record node_data =
  node_name :: string
  description :: string
  vhdlname :: string
  address :: u32
  real_address :: u32
  permission :: string
  mode :: string
  node_size :: u32
  node_mask :: u32
  isModule :: bool
  parent :: "string option"
  level :: int
  warn_min_value :: int
  error_min_value :: int

datatype Node = Node (info: node_data) (children: "Node list")

definition empty_node :: node_data where
  "empty_node = \<lparr>node_name = [], description = [], vhdlname = [], address = 0, real_address = 0, permission = [],
     mode = ''single'', node_size = 1, node_mask = 0xFFFFFFFF, isModule = False, parent = None, level = 0,
     warn_min_value = -1, error_min_value = -1\<rparr>"

definition addChild :: "Node \<Rightarrow> Node \<Rightarrow> Node" where
  "addChild p child = Node (info p) (children p @ [child])"

section \<open>Attributes and numbers\<close>

text \<open>\<^verbatim>\<open>getAttribute\<close> of a missing attribute is the empty string, which counts as not found.\<close>

definition getAttVal :: "(string \<times> string) list \<Rightarrow> string \<Rightarrow> string option" where
  "getAttVal attrs attname =
     (case map_of attrs attname of None \<Rightarrow> None | Some v \<Rightarrow> if v = [] then None else Some v)"

text \<open>\<^verbatim>\<open>s.find(p) != std::string::npos\<close>\<close>

fun is_prefix :: "string \<Rightarrow> string \<Rightarrow> bool" where
  "is_prefix [] s = True"
| "is_prefix (p # ps) [] = False"
| "is_prefix (p # ps) (c # cs) = (p = c \<and> is_prefix ps cs)"

fun contains :: "string \<Rightarrow> string \<Rightarrow> bool" where
  "contains p [] = (p = [])"
| "contains p (c # cs) = (is_prefix p (c # cs) \<or> contains p cs)"

text \<open>
  \<^verbatim>\<open>converter >> value\<close> for a 32-bit variable: blanks are skipped; at the end of the input nothing is
  stored, and the uninitialised variable is returned; without a digit 0 is stored, and the largest
  value for a number that is too large.
\<close>

definition to_u32 :: "bool \<Rightarrow> nat \<Rightarrow> u32" where
  "to_u32 neg v = (if 2 ^ 32 \<le> v then 0xFFFFFFFF else if neg then - of_nat v else of_nat v)"

definition extract_hex :: "string \<Rightarrow> u32 xml" where
  "extract_hex s =
     (case dropWhile is_space s of
        [] \<Rightarrow> Undef
      | t \<Rightarrow> (case strip_sign t of (neg, u) \<Rightarrow> Ok (to_u32 neg (hex_value 0 (takeWhile is_xdigit (strip_0x u))))))"

definition extract_dec :: "string \<Rightarrow> u32 xml" where
  "extract_dec s =
     (case dropWhile is_space s of
        [] \<Rightarrow> Undef
      | t \<Rightarrow> (case strip_sign t of (neg, u) \<Rightarrow> Ok (to_u32 neg (dec_value (takeWhile is_digit u)))))"

text \<open>
  \<^verbatim>\<open>std::stoi(s, nullptr, 2)\<close>: the digits 0 and 1 after blanks and a sign. There is no prefix for base 2 in C++14,
  which the library is built with, and in the C libraries of its systems; from version 2.38 on glibc takes
  the prefix \<^verbatim>\<open>0b\<close> of C23 in base 2.
\<close>

fun bin_value :: "nat \<Rightarrow> string \<Rightarrow> nat" where
  "bin_value acc [] = acc"
| "bin_value acc (c # cs) = bin_value (2 * acc + digit_val c) cs"

definition stoi2 :: "string \<Rightarrow> int xml" where
  "stoi2 s =
     (case strip_sign (dropWhile is_space s) of (neg, t) \<Rightarrow>
        let ds = takeWhile (\<lambda>c. c = CHR ''0'' \<or> c = CHR ''1'') t;
            v = (if neg then - int (bin_value 0 ds) else int (bin_value 0 ds))
        in if ds = [] then Throws else if v < - (2 ^ 31) \<or> 2 ^ 31 \<le> v then Throws else Ok v)"

definition parseInt :: "string \<Rightarrow> u32 xml" where
  "parseInt s =
     (if contains ''0x'' s then extract_hex s
      else if contains ''0b'' s then bind_xml (stoi2 s) (\<lambda>v. Ok (of_int v))
      else extract_dec s)"

section \<open>Names\<close>

text \<open>
  \<^verbatim>\<open>std::search\<close>: what is before the first occurrence of \<open>p\<close>, and the rest from the occurrence on.
\<close>

fun search :: "string \<Rightarrow> string \<Rightarrow> (string \<times> string) option" where
  "search p [] = (if p = [] then Some ([], []) else None)"
| "search p (c # cs) =
     (if is_prefix p (c # cs) then Some ([], c # cs)
      else map_option (\<lambda>(before, rest). (c # before, rest)) (search p cs))"

lemma search_append: "search p s = Some (before, rest) \<Longrightarrow> s = before @ rest"
  by (induction s arbitrary: before) (auto split: if_splits)

lemma search_shorter: "search p s = Some (before, rest) \<Longrightarrow> p \<noteq> [] \<Longrightarrow> rest \<noteq> [] \<Longrightarrow> length rest - length p < length s"
  by (cases p; cases rest) (auto dest!: search_append)

text \<open>
  The loop of \<^verbatim>\<open>replaceAll\<close>. With an empty pattern it would not end; it is called with patterns
  \<^verbatim>\<open>${...}\<close> only.
\<close>

function replace_loop :: "string \<Rightarrow> string \<Rightarrow> string \<Rightarrow> string" where
  "replace_loop current from to =
     (if from = [] then current
      else case search from current of
        None \<Rightarrow> current
      | Some (before, rest) \<Rightarrow> if rest = [] then before else before @ to @ replace_loop (drop (length from) rest) from to)"
  by pat_completeness auto

termination
  by (relation "measure (\<lambda>(current, from, to). length current)") (auto dest: search_shorter)

declare replace_loop.simps [simp del]

definition replaceAll :: "string \<Rightarrow> string \<Rightarrow> string \<Rightarrow> string" where
  "replaceAll original from to = replace_loop original from to"

text \<open>\<^verbatim>\<open>std::to_string\<close> of an \<^verbatim>\<open>int\<close>\<close>

definition to_string_int :: "int \<Rightarrow> string" where
  "to_string_int v = (if v < 0 then CHR ''-'' # to_string (nat (- v)) else to_string (nat v))"

type_synonym vars = "(string \<times> int) list"

definition placeholder :: "string \<Rightarrow> string" where
  "placeholder v = ''${'' @ v @ ''}''"

definition substituteVars :: "(vars \<Rightarrow> vars) \<Rightarrow> string \<Rightarrow> vars \<Rightarrow> string" where
  "substituteVars iter s dict =
     (if s = [] then s
      else fold (\<lambda>(v, n) ret. replaceAll ret (placeholder v) (to_string_int n)) (iter dict) s)"

section \<open>Building the map of nodes\<close>

type_synonym nodes = "string \<rightharpoonup> Node"

text \<open>An optional number attribute, with the value it has when it is missing.\<close>

definition number_attr :: "(string \<times> string) list \<Rightarrow> string \<Rightarrow> 'a \<Rightarrow> (u32 \<Rightarrow> 'a) \<Rightarrow> 'a xml" where
  "number_attr attrs attname dflt f =
     (case getAttVal attrs attname of None \<Rightarrow> Ok dflt | Some v \<Rightarrow> bind_xml (parseInt v) (\<lambda>w. Ok (f w)))"

definition string_attr :: "(string \<times> string) list \<Rightarrow> string \<Rightarrow> string \<Rightarrow> string" where
  "string_attr attrs attname dflt = (case getAttVal attrs attname of None \<Rightarrow> dflt | Some v \<Rightarrow> v)"

text \<open>
  The new node of an element, and the address its children start from. The error threshold is stored
  in the member of the warning threshold.
\<close>

definition new_node ::
  "(vars \<Rightarrow> vars) \<Rightarrow> (string \<times> string) list \<Rightarrow> string \<Rightarrow> u32 \<Rightarrow> vars \<Rightarrow> (node_data \<times> u32) xml" where
  "new_node iter attrs baseName baseAddress vars =
     (let name = substituteVars iter
            (baseName @ (if baseName \<noteq> [] then ''.'' else []) @ string_attr attrs ''id'' []) vars
      in bind_xml (number_attr attrs ''address'' None (\<lambda>w. Some (baseAddress + w))) (\<lambda>addr.
         bind_xml (number_attr attrs ''size'' 1 (\<lambda>w. w)) (\<lambda>sz.
         bind_xml (number_attr attrs ''mask'' 0xFFFFFFFF (\<lambda>w. w)) (\<lambda>msk.
         bind_xml (number_attr attrs ''sw_monitor_warn_min_threshold'' (-1) sint) (\<lambda>warn.
         bind_xml (number_attr attrs ''sw_monitor_error_min_threshold'' warn sint) (\<lambda>warn'.
           Ok (empty_node\<lparr>node_name := name,
               description := string_attr attrs ''description'' [],
               address := (case addr of None \<Rightarrow> 0 | Some a \<Rightarrow> a),
               real_address := (case addr of None \<Rightarrow> 0 | Some a \<Rightarrow> push_bit 2 a + 0x64000000),
               permission := string_attr attrs ''permission'' [],
               mode := string_attr attrs ''mode'' ''single'',
               node_size := sz, node_mask := msk,
               isModule := (getAttVal attrs ''fw_is_module'' = Some ''true''),
               warn_min_value := warn'\<rparr>,
             (case addr of None \<Rightarrow> baseAddress | Some a \<Rightarrow> a))))))))"

text \<open>\<^verbatim>\<open>nodes->insert\<close>: an entry that is there stays.\<close>

definition insert_node :: "Node \<Rightarrow> nodes \<Rightarrow> nodes" where
  "insert_node n nodes =
     (case nodes (node_name (info n)) of None \<Rightarrow> nodes(node_name (info n) \<mapsto> n) | Some _ \<Rightarrow> nodes)"

text \<open>
  With a parent, the parent gets a copy of the new node, and the new node its parent and level; the
  entry of the map was made before.
\<close>

definition attach :: "Node option \<Rightarrow> Node \<Rightarrow> Node option \<times> Node" where
  "attach parentNode newNode =
     (case parentNode of
        None \<Rightarrow> (None, newNode)
      | Some p \<Rightarrow> (Some (addChild p newNode),
          Node ((info newNode)\<lparr>parent := Some (node_name (info p)), level := level (info p) + 1\<rparr>) (children newNode)))"

text \<open>
  \<^verbatim>\<open>makeTree\<close>, its loop over generated copies and its loop over the child nodes. The result has the map
  and the parent with the children added to it. A missing size or step, and a missing index variable
  when there is a copy to make, dereference an empty optional.
\<close>

function (sequential)
  makeTree :: "(vars \<Rightarrow> vars) \<Rightarrow> dom \<Rightarrow> string \<Rightarrow> u32 \<Rightarrow> nodes \<Rightarrow> Node option \<Rightarrow> vars \<Rightarrow> bool \<Rightarrow> (nodes \<times> Node option) xml"
  and generate_copies :: "(vars \<Rightarrow> vars) \<Rightarrow> dom \<Rightarrow> string \<Rightarrow> u32 \<Rightarrow> nodes \<Rightarrow> Node option \<Rightarrow> vars \<Rightarrow>
    nat \<Rightarrow> u32 \<Rightarrow> string option \<Rightarrow> nat \<Rightarrow> (nodes \<times> Node option) xml"
  and make_children :: "(vars \<Rightarrow> vars) \<Rightarrow> dom list \<Rightarrow> string \<Rightarrow> u32 \<Rightarrow> nodes \<Rightarrow> Node option \<Rightarrow> vars \<Rightarrow> nodes xml"
where
  "makeTree iter Other_dom baseName baseAddress nodes parentNode vars isGenerated = Undef"
| "makeTree iter (Element attrs kids) baseName baseAddress nodes parentNode vars isGenerated =
     (if \<not> isGenerated \<and> getAttVal attrs ''generate'' = Some ''true''
      then (case getAttVal attrs ''generate_size'' of
          None \<Rightarrow> Undef
        | Some sz \<Rightarrow> bind_xml (parseInt sz) (\<lambda>generateSize.
            case getAttVal attrs ''generate_address_step'' of
              None \<Rightarrow> Undef
            | Some st \<Rightarrow> bind_xml (parseInt st) (\<lambda>generateAddressStep.
                generate_copies iter (Element attrs kids) baseName baseAddress nodes parentNode vars
                  (unat generateSize) generateAddressStep (getAttVal attrs ''generate_idx_var'') 0)))
      else bind_xml (new_node iter attrs baseName baseAddress vars) (\<lambda>(nd, addr).
        case attach parentNode (Node nd []) of (parentNode', newNode) \<Rightarrow>
          bind_xml (make_children iter kids (node_name nd) addr (insert_node (Node nd []) nodes) (Some newNode) vars)
            (\<lambda>nodes'. Ok (nodes', parentNode'))))"
| "generate_copies iter node baseName baseAddress nodes parentNode vars generateSize generateAddressStep idx i =
     (if i < generateSize
      then (case idx of
          None \<Rightarrow> Undef
        | Some v \<Rightarrow>
            bind_xml (makeTree iter node baseName (baseAddress + generateAddressStep * of_nat i) nodes parentNode
                (AList.update v (sint (of_nat i :: u32)) vars) True) (\<lambda>(nodes', parentNode').
              generate_copies iter node baseName baseAddress nodes' parentNode'
                (AList.update v (sint (of_nat i :: u32)) vars) generateSize generateAddressStep idx (Suc i)))
      else Ok (nodes, parentNode))"
| "make_children iter [] name addr nodes newNode vars = Ok nodes"
| "make_children iter (Other_dom # kids) name addr nodes newNode vars = make_children iter kids name addr nodes newNode vars"
| "make_children iter (kid # kids) name addr nodes newNode vars =
     bind_xml (makeTree iter kid name addr nodes newNode vars False) (\<lambda>(nodes', newNode').
       make_children iter kids name addr nodes' newNode' vars)"
  by pat_completeness auto

termination
proof (relation "inv_image (less_than <*lex*> less_than <*lex*> less_than) (\<lambda>x. case x of
    Inl (iter, node, bn, ba, ns, p, vars, gen) \<Rightarrow> (size node, if gen then 0 else 2, 0)
  | Inr (Inl (iter, node, bn, ba, ns, p, vars, n, st, idx, i)) \<Rightarrow> (size node, 1, n - i)
  | Inr (Inr (iter, kids, bn, ba, ns, p, vars)) \<Rightarrow> (size_list size kids, 0, 0))")
qed auto

declare generate_copies.simps [simp del]

text \<open>
  What the XML library made of the file: an error in its initialisation or in parsing, or a document
  with its root element, if there is one; without one \<^verbatim>\<open>m_root\<close> is used uninitialised.
\<close>

datatype document = Init_failed | Parse_failed | Document "dom option"

definition parseXML :: "(vars \<Rightarrow> vars) \<Rightarrow> document \<Rightarrow> nodes \<Rightarrow> nodes xml" where
  "parseXML iter doc m_nodes =
     (case doc of
        Init_failed \<Rightarrow> Throws
      | Parse_failed \<Rightarrow> Throws
      | Document None \<Rightarrow> Undef
      | Document (Some root) \<Rightarrow>
          bind_xml (makeTree iter root [] 0 m_nodes None [] False) (\<lambda>(nodes, p). Ok nodes))"

definition getNode :: "nodes \<Rightarrow> string \<Rightarrow> Node option" where
  "getNode m_nodes nodeName = m_nodes nodeName"

definition getAllNodes :: "nodes \<Rightarrow> nodes" where
  "getAllNodes m_nodes = m_nodes"

text \<open>The body of \<^verbatim>\<open>getNodeFromAddress\<close> is empty: it ends without a value.\<close>

definition getNodeFromAddress :: "nodes \<Rightarrow> u32 \<Rightarrow> Node option xml" where
  "getNodeFromAddress m_nodes nodeAddress = Undef"

text \<open>\<^verbatim>\<open>setLogLevel\<close>: the level of the logger; other numbers leave it.\<close>

datatype log_level = ERROR_LOG_LEVEL | WARN_LOG_LEVEL | INFO_LOG_LEVEL | DEBUG_LOG_LEVEL | TRACE_LOG_LEVEL

definition setLogLevel :: "int \<Rightarrow> log_level \<Rightarrow> log_level" where
  "setLogLevel loglevel l =
     (if loglevel = 0 then ERROR_LOG_LEVEL else if loglevel = 1 then WARN_LOG_LEVEL
      else if loglevel = 2 then INFO_LOG_LEVEL else if loglevel = 3 then DEBUG_LOG_LEVEL
      else if loglevel = 4 then TRACE_LOG_LEVEL else l)"

end
