(* ===== verification/Xml_Reference.thy ===== *)
theory Xml_Reference
  imports Xml_Parser
begin

text \<open>
  What an address table means, without the map, the parents and the loop variables of \<^verbatim>\<open>makeTree\<close>: the
  list of its registers in document order, with every repeated element written out once per index. The
  parser is proved equal to looking a name up in that list.
\<close>

section \<open>The registers of a document\<close>

fun collect :: "('a \<Rightarrow> 'b list xml) \<Rightarrow> 'a list \<Rightarrow> 'b list xml" where
  "collect f [] = Ok []"
| "collect f (x # xs) = bind_xml (f x) (\<lambda>ys. bind_xml (collect f xs) (\<lambda>zs. Ok (ys @ zs)))"

lemma collect_cong [fundef_cong]:
  "xs = ys \<Longrightarrow> (\<And>x. x \<in> set ys \<Longrightarrow> f x = g x) \<Longrightarrow> collect f xs = collect g ys"
  by (induction ys arbitrary: xs) auto

fun is_element :: "dom \<Rightarrow> bool" where
  "is_element (Element attrs kids) = True"
| "is_element Other_dom = False"

definition is_template :: "(string \<times> string) list \<Rightarrow> bool" where
  "is_template attrs \<longleftrightarrow> getAttVal attrs ''generate'' = Some ''true''"

text \<open>An attribute that has to be a number: without it there is nothing to read.\<close>

definition required_number :: "(string \<times> string) list \<Rightarrow> string \<Rightarrow> u32 xml" where
  "required_number attrs attname = (case getAttVal attrs attname of None \<Rightarrow> Undef | Some v \<Rightarrow> parseInt v)"

text \<open>
  Copy \<open>i\<close> of a template has its index variable set to \<open>i\<close> and its base address moved by \<open>i\<close> steps. An
  element that is no template gives its own register and those of the elements below it, with its name
  and its address as their base.
\<close>

function (sequential) registers ::
  "(vars \<Rightarrow> vars) \<Rightarrow> dom \<Rightarrow> string \<Rightarrow> u32 \<Rightarrow> vars \<Rightarrow> bool \<Rightarrow> node_data list xml"
where
  "registers iter Other_dom baseName baseAddress vars copy = Undef"
| "registers iter (Element attrs kids) baseName baseAddress vars copy =
     (if is_template attrs \<and> \<not> copy
      then bind_xml (required_number attrs ''generate_size'') (\<lambda>n.
        bind_xml (required_number attrs ''generate_address_step'') (\<lambda>st.
          collect (\<lambda>i. case getAttVal attrs ''generate_idx_var'' of
              None \<Rightarrow> Undef
            | Some v \<Rightarrow> registers iter (Element attrs kids) baseName (baseAddress + st * of_nat i)
                (AList.update v (sint (of_nat i :: u32)) vars) True) [0..<unat n]))
      else bind_xml (new_node iter attrs baseName baseAddress vars) (\<lambda>(nd, addr).
        bind_xml (collect (\<lambda>kid. registers iter kid (node_name nd) addr vars False) (filter is_element kids))
          (\<lambda>nds. Ok (nd # nds))))"
  by pat_completeness auto

termination
proof (relation "inv_image (less_than <*lex*> less_than)
    (\<lambda>(iter, node, bn, ba, vars, copy). (size node, if copy then 0 else 1))")
  fix iter attrs kids baseName baseAddress vars copy p nd addr kid
  assume "kid \<in> set (filter is_element kids)"
  then have "size kid \<le> size_list size kids" by (auto intro: size_list_estimation')
  then show "((iter, kid, node_name nd, addr, vars, False), iter, Element attrs kids, baseName, baseAddress, vars, copy)
      \<in> inv_image (less_than <*lex*> less_than) (\<lambda>(iter, node, bn, ba, vars, copy). (size node, if copy then 0 else 1))"
    by simp
qed auto

declare registers.simps [simp del]

section \<open>The parser computes them\<close>

abbreviation add_registers :: "node_data list \<Rightarrow> nodes \<Rightarrow> nodes" where
  "add_registers nds nodes \<equiv> fold (\<lambda>nd. insert_node (Node nd [])) nds nodes"

text \<open>The map a computation leaves, and the map a list of registers leads to.\<close>

definition map_result :: "(nodes \<times> Node option) xml \<Rightarrow> nodes xml" where
  "map_result r = bind_xml r (\<lambda>x. Ok (fst x))"

definition stored :: "node_data list xml \<Rightarrow> nodes \<Rightarrow> nodes xml" where
  "stored r nodes = bind_xml r (\<lambda>nds. Ok (add_registers nds nodes))"

lemma stored_collect_Cons:
  "stored (collect f (x # xs)) nodes = bind_xml (stored (f x) nodes) (stored (collect f xs))"
  by (cases "f x"; cases "collect f xs") (simp_all add: stored_def)

lemma map_result_bind:
  "map_result (bind_xml m f) = bind_xml m (\<lambda>x. map_result (f x))"
  by (cases m) (simp_all add: map_result_def)

lemma stored_bind: "stored (bind_xml m f) nodes = bind_xml m (\<lambda>x. stored (f x) nodes)"
  by (cases m) (simp_all add: stored_def)

lemma bind_map_result:
  assumes "\<And>x. r = Ok x \<Longrightarrow> f x = g (fst x)"
  shows "bind_xml r f = bind_xml (map_result r) g"
  using assms by (cases r) (simp_all add: map_result_def)

definition copy_registers ::
  "(vars \<Rightarrow> vars) \<Rightarrow> dom \<Rightarrow> string \<Rightarrow> u32 \<Rightarrow> vars \<Rightarrow> u32 \<Rightarrow> string option \<Rightarrow> nat \<Rightarrow> node_data list xml" where
  "copy_registers iter node bn ba vars st idx i =
     (case idx of None \<Rightarrow> Undef
      | Some v \<Rightarrow> registers iter node bn (ba + st * of_nat i) (AList.update v (sint (of_nat i :: u32)) vars) True)"

lemma copy_registers_Some:
  "copy_registers iter node bn ba vars st (Some v) i =
    registers iter node bn (ba + st * of_nat i) (AList.update v (sint (of_nat i :: u32)) vars) True"
  by (simp add: copy_registers_def)

lemma update_twice: "AList.update v b (AList.update v a xs) = AList.update v b xs"
  by (induction xs) auto

lemma copy_registers_update:
  "copy_registers iter node bn ba (AList.update v a vars) st (Some v) = copy_registers iter node bn ba vars st (Some v)"
  by (simp add: copy_registers_def update_twice fun_eq_iff)

text \<open>The two kinds of elements.\<close>

lemma template_equations:
  assumes "is_template attrs"
  shows "makeTree iter (Element attrs kids) bn ba nodes p vars False =
      bind_xml (required_number attrs ''generate_size'') (\<lambda>n. bind_xml (required_number attrs ''generate_address_step'')
        (\<lambda>st. generate_copies iter (Element attrs kids) bn ba nodes p vars (unat n) st
          (getAttVal attrs ''generate_idx_var'') 0))"
    and "registers iter (Element attrs kids) bn ba vars False =
      bind_xml (required_number attrs ''generate_size'') (\<lambda>n. bind_xml (required_number attrs ''generate_address_step'')
        (\<lambda>st. collect (copy_registers iter (Element attrs kids) bn ba vars st (getAttVal attrs ''generate_idx_var''))
          [0..<unat n]))"
  using assms
  by (auto simp: is_template_def required_number_def registers.simps copy_registers_def [abs_def]
      split: option.split intro!: bind_xml_cong)

lemma plain_equations:
  assumes "\<not> (is_template attrs \<and> \<not> gen)"
  shows "makeTree iter (Element attrs kids) bn ba nodes p vars gen =
      bind_xml (new_node iter attrs bn ba vars) (\<lambda>(nd, addr). case attach p (Node nd []) of (p', n) \<Rightarrow>
        bind_xml (make_children iter kids (node_name nd) addr (insert_node (Node nd []) nodes) (Some n) vars)
          (\<lambda>nodes'. Ok (nodes', p')))"
    and "registers iter (Element attrs kids) bn ba vars gen =
      bind_xml (new_node iter attrs bn ba vars) (\<lambda>(nd, addr).
        bind_xml (collect (\<lambda>kid. registers iter kid (node_name nd) addr vars False) (filter is_element kids))
          (\<lambda>nds. Ok (nd # nds)))"
  using assms by (auto simp: is_template_def registers.simps)

text \<open>One round of the loop over the copies, and of the loop over the child nodes.\<close>

lemma generate_copies_step:
  fixes i :: nat
  assumes "i < n" and "idx = Some v"
    and hd: "map_result (makeTree iter node bn (ba + st * of_nat i) nodes p (AList.update v (sint (of_nat i :: u32)) vars) True) =
      stored (copy_registers iter node bn ba vars st idx i) nodes"
    and tl: "\<And>r. makeTree iter node bn (ba + st * of_nat i) nodes p (AList.update v (sint (of_nat i :: u32)) vars) True = Ok r \<Longrightarrow>
      map_result (generate_copies iter node bn ba (fst r) (snd r) (AList.update v (sint (of_nat i :: u32)) vars) n st idx (Suc i)) =
      stored (collect (copy_registers iter node bn ba vars st idx) [Suc i..<n]) (fst r)"
  shows "map_result (generate_copies iter node bn ba nodes p vars n st idx i) =
    stored (collect (copy_registers iter node bn ba vars st idx) [i..<n]) nodes"
proof -
  let ?vars = "AList.update v (sint (of_nat i :: u32)) vars"
  let ?copies = "collect (copy_registers iter node bn ba vars st idx)"
  have "map_result (generate_copies iter node bn ba nodes p vars n st idx i) =
      bind_xml (makeTree iter node bn (ba + st * of_nat i) nodes p ?vars True)
        (\<lambda>r. map_result (generate_copies iter node bn ba (fst r) (snd r) ?vars n st idx (Suc i)))"
    using assms(1,2) by (simp add: generate_copies.simps map_result_bind case_prod_unfold)
  also have "\<dots> = bind_xml (map_result (makeTree iter node bn (ba + st * of_nat i) nodes p ?vars True))
      (stored (?copies [Suc i..<n]))"
    using tl by (intro bind_map_result) auto
  also have "\<dots> = stored (?copies [i..<n]) nodes"
    by (simp only: hd stored_collect_Cons upt_conv_Cons [OF assms(1)])
  finally show ?thesis .
qed

lemma make_children_step:
  assumes "is_element kid"
    and hd: "map_result (makeTree iter kid name addr nodes newNode vars False) = stored (registers iter kid name addr vars False) nodes"
    and tl: "\<And>r. makeTree iter kid name addr nodes newNode vars False = Ok r \<Longrightarrow>
      make_children iter kids name addr (fst r) (snd r) vars =
      stored (collect (\<lambda>kid. registers iter kid name addr vars False) (filter is_element kids)) (fst r)"
  shows "make_children iter (kid # kids) name addr nodes newNode vars =
    stored (collect (\<lambda>kid. registers iter kid name addr vars False) (filter is_element (kid # kids))) nodes"
proof -
  let ?rest = "collect (\<lambda>kid. registers iter kid name addr vars False) (filter is_element kids)"
  have "make_children iter (kid # kids) name addr nodes newNode vars =
      bind_xml (makeTree iter kid name addr nodes newNode vars False) (\<lambda>r. make_children iter kids name addr (fst r) (snd r) vars)"
    using assms(1) by (cases kid) (simp_all add: case_prod_unfold del: makeTree.simps)
  also have "\<dots> = bind_xml (map_result (makeTree iter kid name addr nodes newNode vars False)) (stored ?rest)"
    using tl by (intro bind_map_result) auto
  also have "\<dots> = stored (collect (\<lambda>kid. registers iter kid name addr vars False) (filter is_element (kid # kids))) nodes"
    using assms(1) by (simp only: hd stored_collect_Cons filter.simps if_True)
  finally show ?thesis .
qed

text \<open>An element that is no template, once its child nodes are known.\<close>

lemma plain_step:
  assumes "\<not> (is_template attrs \<and> \<not> gen)"
    and kids: "\<And>nd addr p' n. new_node iter attrs bn ba vars = Ok (nd, addr) \<Longrightarrow> attach p (Node nd []) = (p', n) \<Longrightarrow>
      make_children iter kids (node_name nd) addr (insert_node (Node nd []) nodes) (Some n) vars =
      stored (collect (\<lambda>kid. registers iter kid (node_name nd) addr vars False) (filter is_element kids))
        (insert_node (Node nd []) nodes)"
  shows "map_result (makeTree iter (Element attrs kids) bn ba nodes p vars gen) =
    stored (registers iter (Element attrs kids) bn ba vars gen) nodes"
proof (cases "new_node iter attrs bn ba vars")
  case (Ok r)
  obtain nd addr p' n where r: "r = (nd, addr)" "attach p (Node nd []) = (p', n)" by fastforce
  with kids [of nd addr p' n] Ok show ?thesis
    by (simp add: plain_equations [OF assms(1)] stored_def map_result_def del: makeTree.simps)
      (cases "collect (\<lambda>kid. registers iter kid (node_name nd) addr vars False) (filter is_element kids)"; simp)
qed (simp_all add: plain_equations [OF assms(1)] map_result_def stored_def del: makeTree.simps)

text \<open>\<^verbatim>\<open>makeTree\<close> and its two loops, each against the registers it stands for.\<close>

lemma makeTree_registers:
  "map_result (makeTree iter node bn ba nodes p vars gen) = stored (registers iter node bn ba vars gen) nodes"
  "map_result (generate_copies iter node bn ba nodes p vars n st idx i) =
     stored (collect (copy_registers iter node bn ba vars st idx) [i..<n]) nodes"
  "make_children iter kids bn ba nodes p vars =
     stored (collect (\<lambda>kid. registers iter kid bn ba vars False) (filter is_element kids)) nodes"
proof (induction iter node bn ba nodes p vars gen and iter node bn ba nodes p vars n st idx i
    and iter kids bn ba nodes p vars rule: makeTree_generate_copies_make_children.induct)
  case (2 iter attrs kids bn ba nodes p vars gen)
  show ?case
  proof (cases "is_template attrs \<and> \<not> gen")
    case True
    then have "\<not> gen \<and> getAttVal attrs ''generate'' = Some ''true''" by (simp add: is_template_def)
    note IH = "2.IH"(1) [OF this]
    from True IH show ?thesis
      by (auto simp: template_equations map_result_bind stored_bind required_number_def simp del: makeTree.simps
          split: option.split intro!: bind_xml_cong)
  next
    case False
    then have "\<not> (\<not> gen \<and> getAttVal attrs ''generate'' = Some ''true'')" by (auto simp: is_template_def)
    from "2.IH"(2) [OF this] show ?thesis by (intro plain_step [OF False]) simp
  qed
next
  case (3 iter node bn ba nodes p vars n st idx i)
  consider "\<not> i < n" | "i < n" "idx = None" | v where "i < n" "idx = Some v" by (cases idx) auto
  then show ?case
  proof cases
    case 3
    then show ?thesis
      using "3.IH"(1) [OF 3] "3.IH"(2) [OF 3]
      by (intro generate_copies_step [OF 3]) (auto simp: copy_registers_Some [abs_def] copy_registers_update)
  qed (simp_all add: generate_copies.simps upt_conv_Cons copy_registers_def map_result_def stored_def)
next
  case (6 iter attrs kids' kids name addr nodes newNode vars)
  then show ?case by (intro make_children_step) auto
qed (simp_all add: map_result_def stored_def registers.simps)

lemma parse_registers:
  "parseXML iter (Document (Some root)) m_nodes = stored (registers iter root [] 0 [] False) m_nodes"
  using makeTree_registers(1) [of iter root "[]" 0 m_nodes None "[]" False]
  by (simp add: parseXML_def map_result_def case_prod_unfold del: makeTree.simps)

lemma parsed_registers:
  assumes "parseXML iter doc m_nodes = Ok nodes"
  shows "\<exists>root nds. registers iter root [] 0 [] False = Ok nds \<and> nodes = add_registers nds m_nodes"
proof -
  obtain root where "doc = Document (Some root)"
    using assms by (auto simp: parseXML_def split: document.splits option.splits)
  with assms show ?thesis by (auto simp: parse_registers stored_def bind_xml_Ok)
qed

text \<open>
  Every register of the list is the new node of some element: what new nodes have when the name they extend
  has \<open>P\<close>, all of them have.
\<close>

lemma collect_set: "collect f xs = Ok ys \<Longrightarrow> y \<in> set ys \<Longrightarrow> \<exists>x\<in>set xs. \<exists>zs. f x = Ok zs \<and> y \<in> set zs"
  by (induction xs arbitrary: ys) (fastforce simp: bind_xml_Ok)+

lemma registers_all:
  assumes "registers iter node bn ba vars copy = Ok nds" and "nd \<in> set nds" and "P bn"
    and "\<And>attrs bn ba vars nd addr. new_node iter attrs bn ba vars = Ok (nd, addr) \<Longrightarrow> P bn \<Longrightarrow>
      Q nd \<and> P (node_name nd)"
  shows "Q nd"
  using assms
proof (induction iter node bn ba vars copy arbitrary: nds rule: registers.induct)
  case (2 iter attrs kids bn ba vars copy)
  show ?case
  proof (cases "is_template attrs \<and> \<not> copy")
    case True
    with "2.prems"(1,2) obtain n st i zs where
      "required_number attrs ''generate_size'' = Ok n" "required_number attrs ''generate_address_step'' = Ok st" "i \<in> set [0..<unat n]"
      "copy_registers iter (Element attrs kids) bn ba vars st (getAttVal attrs ''generate_idx_var'') i = Ok zs" "nd \<in> set zs"
      by (fastforce simp: template_equations bind_xml_Ok dest!: collect_set)
    with "2.IH"(1) [OF True] "2.prems"(3,4) show ?thesis
      by (auto simp: copy_registers_def split: option.splits)
  next
    case False
    then obtain x nds' where x: "new_node iter attrs bn ba vars = Ok x" "nds = fst x # nds'"
      "collect (\<lambda>kid. registers iter kid (node_name (fst x)) (snd x) vars False) (filter is_element kids) = Ok nds'"
      using "2.prems"(1) by (auto simp: registers.simps bind_xml_Ok)
    with "2.prems"(4) [of attrs bn ba vars "fst x" "snd x"] "2.prems"(3) have "Q (fst x)" "P (node_name (fst x))" by simp_all
    with x(2,3) "2.prems"(2) "2.IH"(2) [OF False x(1) prod.collapse] "2.prems"(4) show ?thesis
      by (auto dest!: collect_set)
  qed
qed (simp add: registers.simps)

section \<open>Looking up a register\<close>

text \<open>The first register of a name is the one that is stored; an entry that was there before stays.\<close>

lemma add_registers_lookup:
  "add_registers nds nodes k =
    (case nodes k of Some n \<Rightarrow> Some n
     | None \<Rightarrow> map_option (\<lambda>nd. Node nd []) (find (\<lambda>nd. node_name nd = k) nds))"
  by (induction nds arbitrary: nodes) (auto simp: insert_node_def split: option.split)

lemma parsed_name:
  assumes "parseXML iter doc Map.empty = Ok nodes" and "nodes k = Some n"
  shows "node_name (info n) = k"
proof -
  obtain nds where "nodes = add_registers nds Map.empty" using parsed_registers [OF assms(1)] by blast
  with assms(2) show ?thesis by (auto simp: add_registers_lookup find_Some_iff)
qed

text \<open>
  C6: \<^verbatim>\<open>parseXML\<close> agrees on every document, in its errors and in its undefined behaviour too, with the reading
  of the address table as a list of registers: a name that is not in the map yet is bound to the first
  register of the list that has it.
\<close>

theorem parseXML_registers:
  "parseXML iter doc m_nodes =
    (case doc of
       Document (Some root) \<Rightarrow> bind_xml (registers iter root [] 0 [] False) (\<lambda>nds. Ok (\<lambda>k.
         case m_nodes k of Some n \<Rightarrow> Some n
         | None \<Rightarrow> map_option (\<lambda>nd. Node nd []) (find (\<lambda>nd. node_name nd = k) nds)))
     | Document None \<Rightarrow> Undef
     | _ \<Rightarrow> Throws)"
  by (auto simp: parseXML_def parse_registers [unfolded parseXML_def, simplified] stored_def add_registers_lookup [abs_def]
      split: document.split option.split)

end
