(* ===== verification/Xml_Properties.thy ===== *)
theory Xml_Properties
  imports Xml_Reference "HOL-Library.Multiset"
begin

text \<open>
  Properties of the address table parser: the numbers it reads, and by way of the list of registers what
  holds of every node it stores and which registers a generated block has.
\<close>

section \<open>Numbers\<close>

lemma is_prefix_iff: "is_prefix p s \<longleftrightarrow> (\<exists>rest. s = p @ rest)"
  by (induction p s rule: is_prefix.induct) auto

lemma contains_iff: "contains p s \<longleftrightarrow> (\<exists>before rest. s = before @ p @ rest)"
proof (induction s)
  case Nil
  then show ?case by simp
next
  case (Cons c cs)
  have "(\<exists>before rest. c # cs = before @ p @ rest) \<longleftrightarrow>
      (\<exists>rest. c # cs = p @ rest) \<or> (\<exists>before rest. cs = before @ p @ rest)"
    by (metis append_Cons append_Nil list.exhaust list.inject)
  with Cons show ?case by (simp add: is_prefix_iff)
qed

lemma to_string_contains: "\<not> is_digit c \<Longrightarrow> c \<in> set p \<Longrightarrow> \<not> contains p (to_string n)"
  using to_string_digits [of c n] by (auto simp: contains_iff)

lemma strip_sign_digits:
  assumes "ds \<noteq> []" and "\<And>c. c \<in> set ds \<Longrightarrow> is_digit c"
  shows "dropWhile is_space ds = ds" and "strip_sign ds = (False, ds)"
proof -
  obtain c cs where c: "ds = c # cs" using assms(1) by (cases ds) auto
  then have "is_digit c" using assms(2) by simp
  then have "\<not> is_space c" "c \<noteq> CHR ''-''" "c \<noteq> CHR ''+''" by (auto simp: is_digit_def is_space_def)
  with c show "dropWhile is_space ds = ds" "strip_sign ds = (False, ds)" by (simp_all add: strip_sign_def)
qed

lemma extract_nonblank:
  assumes "dropWhile is_space s = t" and "t \<noteq> []" and "strip_sign t = (neg, u)"
  shows "extract_dec s = Ok (to_u32 neg (dec_value (takeWhile is_digit u)))"
    and "extract_hex s = Ok (to_u32 neg (hex_value 0 (takeWhile is_xdigit (strip_0x u))))"
  using assms by (auto simp: extract_dec_def extract_hex_def split: list.split)

text \<open>Numbers that do not fit are read as the largest value.\<close>

definition saturate :: "nat \<Rightarrow> u32" where
  "saturate n = (if n < 2 ^ 32 then of_nat n else 0xFFFFFFFF)"

lemma to_u32_saturate: "to_u32 False n = saturate n"
  by (simp add: to_u32_def saturate_def not_le)

lemma parseInt_decimal: "parseInt (to_string n) = Ok (saturate n)"
proof -
  have "\<not> contains ''0x'' (to_string n)"
    by (rule to_string_contains [where c = "CHR ''x''"]) (simp_all add: is_digit_def)
  moreover have "\<not> contains ''0b'' (to_string n)"
    by (rule to_string_contains [where c = "CHR ''b''"]) (simp_all add: is_digit_def)
  moreover have "dec_value (takeWhile is_digit (to_string n)) = n"
    by (subst takeWhile_eq_all_conv [THEN iffD2]) (simp_all add: to_string_digits)
  moreover have "dropWhile is_space (to_string n) = to_string n" "strip_sign (to_string n) = (False, to_string n)"
    using strip_sign_digits [OF to_string_nonempty to_string_digits] by auto
  ultimately show ?thesis
    using extract_nonblank(1) [of "to_string n" "to_string n" False "to_string n"]
    by (simp add: parseInt_def to_u32_saturate)
qed

lemma parseInt_dec: "n < 2 ^ 32 \<Longrightarrow> parseInt (to_string n) = Ok (of_nat n)"
  by (simp add: parseInt_decimal saturate_def)

lemma parseInt_hexadecimal:
  assumes "ds \<noteq> []" and "\<forall>c \<in> set ds. is_xdigit c"
  shows "parseInt (''0x'' @ ds) = Ok (saturate (hex_value 0 ds))"
proof -
  obtain d ds' where d: "ds = d # ds'" using assms(1) by (cases ds) auto
  with assms(2) have "is_xdigit d" by simp
  with d have "strip_0x (''0x'' @ ds) = ds" by (simp add: strip_0x_def)
  moreover have "hex_value 0 (takeWhile is_xdigit ds) = hex_value 0 ds"
    using assms(2) by (subst takeWhile_eq_all_conv [THEN iffD2]) simp_all
  moreover have "dropWhile is_space (''0x'' @ ds) = ''0x'' @ ds" "strip_sign (''0x'' @ ds) = (False, ''0x'' @ ds)"
    by (simp_all add: is_space_def strip_sign_def)
  ultimately have "extract_hex (''0x'' @ ds) = Ok (saturate (hex_value 0 ds))"
    using extract_nonblank(2) [of "''0x'' @ ds" "''0x'' @ ds" False "''0x'' @ ds"]
    by (simp add: to_u32_saturate)
  moreover have "contains ''0x'' (''0x'' @ ds)" by (simp add: contains_iff) (metis append_Nil)
  ultimately show ?thesis by (simp only: parseInt_def if_True)
qed

lemma parseInt_hex: "parseInt (''0x'' @ hex8 w) = Ok w"
proof -
  have "\<forall>c \<in> set (hex8 w). is_xdigit c"
    by (auto simp: hex8_digits is_xdigit_def xdigit_val_hex_digit nib_less)
  then have "parseInt (''0x'' @ hex8 w) = Ok (saturate (unat w))"
    using parseInt_hexadecimal [of "hex8 w"] by (simp add: hex_value_hex8) (simp add: hex8_digits)
  then show ?thesis using unsigned_less [of w, where ?'a = nat] by (simp add: saturate_def)
qed

text \<open>A binary number is read as 0, since the conversion stops at the \<^verbatim>\<open>b\<close>.\<close>

lemma parseInt_bin:
  assumes "set bits \<subseteq> {CHR ''0'', CHR ''1''}"
  shows "parseInt (''0b'' @ bits) = Ok 0"
proof -
  have "\<not> contains ''0x'' (''0b'' @ bits)"
  proof
    assume "contains ''0x'' (''0b'' @ bits)"
    then obtain before rest where "''0b'' @ bits = before @ ''0x'' @ rest" by (auto simp: contains_iff)
    then have "CHR ''x'' \<in> set (''0b'' @ bits)" by simp
    with assms show False by auto
  qed
  moreover have "contains ''0b'' (''0b'' @ bits)" by (simp add: contains_iff) (metis append_Nil)
  moreover have "stoi2 (''0b'' @ bits) = Ok 0"
    by (simp add: stoi2_def is_space_def strip_sign_def digit_val_def)
  ultimately show ?thesis by (simp only: parseInt_def if_True if_False bind_xml.simps of_int_0)
qed

section \<open>Stored nodes\<close>

text \<open>What holds of every entry of the map.\<close>

definition stored_ok :: "string \<Rightarrow> Node \<Rightarrow> bool" where
  "stored_ok k n \<longleftrightarrow> node_name (info n) = k \<and> level (info n) = 0 \<and> parent (info n) = None \<and> children n = [] \<and>
     error_min_value (info n) = -1 \<and>
     (real_address (info n) = push_bit 2 (address (info n)) + 0x64000000 \<or>
      real_address (info n) = 0 \<and> address (info n) = 0)"

definition table_ok :: "nodes \<Rightarrow> bool" where
  "table_ok nodes \<longleftrightarrow> (\<forall>k n. nodes k = Some n \<longrightarrow> stored_ok k n)"

lemma new_node_ok: "new_node iter attrs bn ba vars = Ok (nd, addr) \<Longrightarrow> stored_ok (node_name nd) (Node nd [])"
  by (auto simp: new_node_def Let_def bind_xml_Ok stored_ok_def empty_node_def split: option.split)

lemma registers_ok:
  assumes "registers iter node bn ba vars copy = Ok nds" and "nd \<in> set nds"
  shows "stored_ok (node_name nd) (Node nd [])"
  by (rule registers_all [OF assms, where P = "\<lambda>bn. True" and Q = "\<lambda>nd. stored_ok (node_name nd) (Node nd [])"])
    (auto dest: new_node_ok)

section \<open>Generated blocks\<close>

lemma search_none: "p \<noteq> [] \<Longrightarrow> hd p \<notin> set s \<Longrightarrow> search p s = None"
  by (induction s) (auto simp: is_prefix_iff neq_Nil_conv)

lemma search_found: "p \<noteq> [] \<Longrightarrow> hd p \<notin> set a \<Longrightarrow> search p (a @ p @ b) = Some (a, p @ b)"
proof (induction a)
  case Nil
  then show ?case by (cases p) (simp_all add: is_prefix_iff)
next
  case (Cons c a)
  then show ?case by (auto simp: is_prefix_iff neq_Nil_conv)
qed

lemma replaceAll_one:
  assumes "p \<noteq> []" and "hd p \<notin> set a" and "hd p \<notin> set b"
  shows "replaceAll (a @ p @ b) p t = a @ t @ b"
proof -
  have "replace_loop b p t = b"
    using assms by (simp add: replace_loop.simps [of b] search_none)
  then show ?thesis
    using assms by (simp add: replaceAll_def replace_loop.simps [of "a @ p @ b"] search_found)
qed

lemma replaceAll_none: "p \<noteq> [] \<Longrightarrow> hd p \<notin> set s \<Longrightarrow> replaceAll s p t = s"
  by (simp add: replaceAll_def replace_loop.simps [of s] search_none)

text \<open>A register that is repeated \<open>n\<close> times with a step, its index in its name.\<close>

definition repeated_attrs :: "string \<Rightarrow> string \<Rightarrow> string \<Rightarrow> nat \<Rightarrow> u32 \<Rightarrow> u32 \<Rightarrow> (string \<times> string) list" where
  "repeated_attrs pre v post n st a =
     [(''id'', pre @ placeholder v @ post), (''address'', ''0x'' @ hex8 a), (''generate'', ''true''),
      (''generate_size'', to_string n), (''generate_address_step'', ''0x'' @ hex8 st), (''generate_idx_var'', v)]"

definition table_of :: "string \<Rightarrow> (string \<times> string) list \<Rightarrow> document" where
  "table_of base attrs = Document (Some (Element [(''id'', base)] [Element attrs []]))"

lemma repeated_getAttVal:
  assumes "v \<noteq> []"
  shows "getAttVal (repeated_attrs pre v post n st a) ''id'' = Some (pre @ placeholder v @ post)"
    "getAttVal (repeated_attrs pre v post n st a) ''address'' = Some (''0x'' @ hex8 a)"
    "getAttVal (repeated_attrs pre v post n st a) ''generate'' = Some ''true''"
    "getAttVal (repeated_attrs pre v post n st a) ''generate_size'' = Some (to_string n)"
    "getAttVal (repeated_attrs pre v post n st a) ''generate_address_step'' = Some (''0x'' @ hex8 st)"
    "getAttVal (repeated_attrs pre v post n st a) ''generate_idx_var'' = Some v"
    "getAttVal (repeated_attrs pre v post n st a) ''size'' = None"
    "getAttVal (repeated_attrs pre v post n st a) ''mask'' = None"
    "getAttVal (repeated_attrs pre v post n st a) ''sw_monitor_warn_min_threshold'' = None"
    "getAttVal (repeated_attrs pre v post n st a) ''sw_monitor_error_min_threshold'' = None"
  using assms by (simp_all add: getAttVal_def repeated_attrs_def placeholder_def)

definition copy_name :: "string \<Rightarrow> string \<Rightarrow> string \<Rightarrow> nat \<Rightarrow> string" where
  "copy_name base pre post k = (base @ ''.'' @ pre) @ to_string k @ post"

definition copy_node :: "string \<Rightarrow> u32 \<Rightarrow> Node" where
  "copy_node name addr =
     Node (empty_node\<lparr>node_name := name, address := addr, real_address := push_bit 2 addr + 0x64000000\<rparr>) []"

lemma copy_name_inject [simp]: "copy_name base pre post k = copy_name base pre post l \<longleftrightarrow> k = l"
  by (simp add: copy_name_def)

lemma iter_single:
  assumes "\<And>vs. mset (iter vs) = mset vs"
  shows "iter [x] = [x]" and "iter [] = []"
  using assms [of "[x]"] assms [of "[]"] by (simp_all add: mset_single_iff)

lemma sint_small: "k < 2 ^ 31 \<Longrightarrow> sint (of_nat k :: u32) = int k"
  by (simp add: signed_of_nat signed_take_bit_int_eq_self_iff)

lemma substitute_copy:
  assumes "\<And>vs. mset (iter vs) = mset vs" and "k < 2 ^ 31"
    and "CHR ''$'' \<notin> set (base @ ''.'' @ pre)" and "CHR ''$'' \<notin> set post"
  shows "substituteVars iter ((base @ ''.'' @ pre) @ placeholder v @ post) [(v, sint (of_nat k :: u32))] = copy_name base pre post k"
proof -
  have "replaceAll ((base @ ''.'' @ pre) @ placeholder v @ post) (placeholder v) (to_string k) = (base @ ''.'' @ pre) @ to_string k @ post"
    using assms(3,4) by (intro replaceAll_one) (simp_all add: placeholder_def)
  then show ?thesis
    using assms(2) by (simp add: substituteVars_def iter_single [OF assms(1)] sint_small to_string_int_def copy_name_def)
qed

lemma new_copy:
  assumes "\<And>vs. mset (iter vs) = mset vs" and "k < 2 ^ 31" and "v \<noteq> []" and "base \<noteq> []"
    and "CHR ''$'' \<notin> set (base @ ''.'' @ pre)" and "CHR ''$'' \<notin> set post"
  shows "registers iter (Element (repeated_attrs pre v post n st a) []) base ba [(v, sint (of_nat k :: u32))] True =
    Ok [info (copy_node (copy_name base pre post k) (ba + a))]"
proof -
  let ?at = "repeated_attrs pre v post n st a"
  have other: "getAttVal ?at ''description'' = None" "getAttVal ?at ''permission'' = None"
    "getAttVal ?at ''mode'' = None" "getAttVal ?at ''fw_is_module'' = None"
    by (simp_all add: getAttVal_def repeated_attrs_def)
  have "base @ ''.'' @ pre @ placeholder v @ post = (base @ ''.'' @ pre) @ placeholder v @ post" by simp
  then have "new_node iter ?at base ba [(v, sint (of_nat k :: u32))] =
      Ok (info (copy_node (copy_name base pre post k) (ba + a)), ba + a)"
    using substitute_copy [OF assms(1,2,5,6), of v] assms(4) parseInt_hex [of a]
    by (simp add: new_node_def number_attr_def string_attr_def repeated_getAttVal [OF assms(3)] other Let_def
        copy_node_def empty_node_def)
  then show ?thesis by (simp add: plain_equations)
qed

lemma collect_singletons: "(\<And>x. x \<in> set xs \<Longrightarrow> f x = Ok [g x]) \<Longrightarrow> collect f xs = Ok (map g xs)"
  by (induction xs) auto

lemma repeated_registers:
  assumes "\<And>vs. mset (iter vs) = mset vs" and "n < 2 ^ 31" and "v \<noteq> []" and "base \<noteq> []"
    and "CHR ''$'' \<notin> set (base @ ''.'' @ pre)" and "CHR ''$'' \<notin> set post"
  shows "registers iter (Element (repeated_attrs pre v post n st a) []) base ba [] False =
    Ok (map (\<lambda>k. info (copy_node (copy_name base pre post k) (ba + st * of_nat k + a))) [0..<n])"
proof -
  let ?at = "repeated_attrs pre v post n st a"
  have "required_number ?at ''generate_size'' = Ok (of_nat n)" "required_number ?at ''generate_address_step'' = Ok st"
      "unat (of_nat n :: u32) = n"
    using assms(2) parseInt_dec [of n] parseInt_hex [of st]
    by (simp_all add: required_number_def repeated_getAttVal [OF assms(3)] unat_of_nat)
  moreover have "collect (copy_registers iter (Element ?at []) base ba [] st (Some v)) [0..<n] =
      Ok (map (\<lambda>k. info (copy_node (copy_name base pre post k) (ba + st * of_nat k + a))) [0..<n])"
    using assms(2) by (intro collect_singletons) (simp add: copy_registers_Some new_copy [OF assms(1) _ assms(3-6)])
  moreover have "is_template ?at" by (simp add: is_template_def repeated_getAttVal [OF assms(3)])
  ultimately show ?thesis by (simp add: template_equations repeated_getAttVal [OF assms(3)])
qed

lemma find_map_key:
  "(\<And>j. h (g j) = c j) \<Longrightarrow> inj c \<Longrightarrow> k \<in> set ks \<Longrightarrow> find (\<lambda>y. h y = c k) (map g ks) = Some (g k)"
  by (induction ks) (auto dest: injD)

lemma parse_repeated:
  assumes "\<And>vs. mset (iter vs) = mset vs" and "n < 2 ^ 31" and "v \<noteq> []" and "base \<noteq> []"
    and "CHR ''$'' \<notin> set (base @ ''.'' @ pre)" and "CHR ''$'' \<notin> set post" and "k < n"
  shows "\<exists>nodes. parseXML iter (table_of base (repeated_attrs pre v post n st a)) Map.empty = Ok nodes \<and>
    getNode nodes (copy_name base pre post k) = Some (copy_node (copy_name base pre post k) (st * of_nat k + a))"
proof -
  let ?root = "empty_node\<lparr>node_name := base\<rparr>"
  let ?copy = "\<lambda>k. info (copy_node (copy_name base pre post k) (st * of_nat k + a))"
  have "new_node iter [(''id'', base)] [] 0 [] = Ok (?root, 0)"
    using assms(4) by (simp add: new_node_def number_attr_def string_attr_def getAttVal_def substituteVars_def
        iter_single [OF assms(1)] Let_def empty_node_def)
  then have "parseXML iter (table_of base (repeated_attrs pre v post n st a)) Map.empty =
      Ok (add_registers (?root # map ?copy [0..<n]) Map.empty)"
    using repeated_registers [OF assms(1-6), of st a 0]
    by (simp add: table_of_def parse_registers stored_def plain_equations is_template_def getAttVal_def)
  moreover have "copy_name base pre post k \<noteq> base" by (simp add: copy_name_def)
  then have "add_registers (?root # map ?copy [0..<n]) Map.empty (copy_name base pre post k) = Some (Node (?copy k) [])"
    using assms(7) find_map_key [where h = node_name and g = ?copy and c = "copy_name base pre post" and k = k and ks = "[0..<n]"]
    by (simp only: add_registers_lookup) (simp add: copy_node_def inj_def)
  ultimately show ?thesis by (simp add: getNode_def copy_node_def)
qed

section \<open>Properties\<close>

text \<open>
  C37: the map of nodes only grows: an entry made is never replaced, so of several registers with the
  same name the first in document order counts. Every entry is stored under its own name and its real
  address is four times its address plus the base \<^verbatim>\<open>0x64000000\<close>, or it has no address. No entry has a
  level, a parent, children or an error threshold: these are set on copies that are discarded, and the
  error threshold of the document goes to another member.
\<close>

theorem parseXML_table:
  assumes "parseXML iter doc m_nodes = Ok nodes" and "table_ok m_nodes"
  shows "m_nodes \<subseteq>\<^sub>m nodes \<and> table_ok nodes"
proof -
  obtain root nds where "registers iter root [] 0 [] False = Ok nds" "nodes = add_registers nds m_nodes"
    using assms(1) parsed_registers by blast
  with assms(2) registers_ok show ?thesis
    by (auto simp: map_le_def table_ok_def add_registers_lookup find_Some_iff split: option.splits)
qed

definition one_node :: document where
  "one_node = Document (Some (Element [(''id'', ''GEM''), (''address'', ''0x'' @ hex8 0x10),
     (''sw_monitor_error_min_threshold'', to_string 3)] []))"

lemma one_node_parsed:
  "\<exists>nodes n. parseXML (\<lambda>vs. vs) one_node Map.empty = Ok nodes \<and> nodes ''GEM'' = Some n \<and> warn_min_value (info n) = 3"
proof -
  have "parseInt (''0x'' @ hex8 0x10) = Ok 0x10" "parseInt (to_string 3) = Ok 3"
    using parseInt_hex [of "0x10"] parseInt_dec [of 3] by simp_all
  then show ?thesis
    by (simp add: parseXML_def one_node_def getAttVal_def new_node_def number_attr_def string_attr_def substituteVars_def
        Let_def attach_def insert_node_def)
qed

theorem parseXML_table_witness:
  "\<exists>nodes n. parseXML (\<lambda>vs. vs) one_node Map.empty = Ok nodes \<and> nodes ''GEM'' = Some n \<and>
    warn_min_value (info n) = 3 \<and> error_min_value (info n) = -1"
proof -
  obtain nodes n where n: "parseXML (\<lambda>vs. vs) one_node Map.empty = Ok nodes" "nodes ''GEM'' = Some n" "warn_min_value (info n) = 3"
    using one_node_parsed by blast
  with parseXML_table [OF n(1)] show ?thesis by (auto simp: table_ok_def stored_ok_def)
qed

text \<open>
  C39: numbers: a decimal number and a 32-bit value written as \<^verbatim>\<open>0x\<close> and eight hexadecimal digits are read
  back as written; \<^verbatim>\<open>0x\<close> and any number of hexadecimal digits, upper or lower case, are read as their value. A
  number from \<open>2 ^ 32\<close> on is read as the largest 32-bit value.
\<close>

theorem parseInt_numbers:
  assumes "ds \<noteq> []" and "\<forall>c \<in> set ds. is_xdigit c"
  shows "parseInt (to_string n) = Ok (if n < 2 ^ 32 then of_nat n else 0xFFFFFFFF) \<and>
    parseInt (''0x'' @ hex8 w) = Ok w \<and>
    parseInt (''0x'' @ ds) = Ok (if hex_value 0 ds < 2 ^ 32 then of_nat (hex_value 0 ds) else 0xFFFFFFFF)"
  by (simp only: parseInt_decimal parseInt_hex parseInt_hexadecimal [OF assms] saturate_def simp_thms)

theorem parseInt_numbers_witness:
  "parseInt (to_string 77) = Ok 77 \<and> parseInt (''0x'' @ ''fF'') = Ok 255 \<and> parseInt (to_string (2 ^ 32)) = Ok 0xFFFFFFFF"
proof -
  have "\<forall>c \<in> set ''fF''. is_xdigit c" "hex_value 0 ''fF'' = 255" by code_simp+
  then show ?thesis
    using parseInt_numbers [of "''fF''" 77] parseInt_numbers [of "''fF''" "2 ^ 32"] by simp
qed

end
