(* ===== verification/Xhal_Interface.thy ===== *)
theory Xhal_Interface
  imports Rpc_Properties Xml_Properties
begin

text \<open>
  \<^verbatim>\<open>xhalcore/src/common/XHALInterface.cpp\<close> and \<^verbatim>\<open>XHALInterface.h\<close>: access to the registers by their names in
  the address table. The object's \<^verbatim>\<open>rpc\<close>, \<^verbatim>\<open>req\<close> and \<^verbatim>\<open>rsp\<close> are those of \<open>rpc_state\<close>; the map of nodes of
  its parser, the node looked up last and the levels of the two loggers are added. A \<^verbatim>\<open>void\<close> function ends
  with \<open>Next\<close>.

  The handlers of \<^verbatim>\<open>STANDARD_CATCH\<close>, of \<^verbatim>\<open>init\<close> and of an unknown register append the message to a string
  literal with \<^verbatim>\<open>strcat\<close>, which is undefined behaviour.
\<close>

section \<open>State and macros\<close>

record ('m, 's) xhal_state = "('m, 's) rpc_state" +
  m_nodes :: nodes
  m_node :: Node
  m_logger :: log_level
  parser_logger :: log_level

type_synonym ('m, 's, 'y) xhal_stmt = "(cxx_exn, u32, ('m, 's, 'y) xhal_state_scheme) stmt"

definition strcat_literal :: "('e, 'r, 's) stmt" where
  "strcat_literal s = Undefined"

definition xhal_catch :: "cxx_exn \<Rightarrow> (cxx_exn, 'r, 's) stmt option" where
  "xhal_catch e = (case e of BadKeyException k \<Rightarrow> Some strcat_literal
     | _ \<Rightarrow> if is_RPCException e then Some strcat_literal else None)"

definition throw_xhal :: "string \<Rightarrow> (cxx_exn, 'r, 's) stmt" where
  "throw_xhal msg s = Throw (XhalException msg) s"

text \<open>\<^verbatim>\<open>ASSERT(rsp.get_word_array_size(k) == 1)\<close> of this class throws.\<close>

definition xhal_ASSERT_one :: "('m, 's) rpc_lib \<Rightarrow> string \<Rightarrow> ('m, 's, 'x) rpc_stmt" where
  "xhal_ASSERT_one L k s =
     (case RPCMsg_get_word_array_size L (rsp s) k of
        Inl e \<Rightarrow> raise e s
      | Inr n \<Rightarrow> if n = 1 then Next s else throw_xhal ''ASSERT failure'' s)"

lemmas [stmt_simps] = strcat_literal_def throw_xhal_def xhal_ASSERT_one_def

section \<open>Connection\<close>

definition init_xhal_catch :: "cxx_exn \<Rightarrow> (cxx_exn, 'r, 's) stmt option" where
  "init_xhal_catch e = (if is_RPCException e then Some strcat_literal else None)"

text \<open>An exception of the parser leaves \<^verbatim>\<open>init\<close>.\<close>

definition xhal_init ::
  "('m, 's) rpc_lib \<Rightarrow> (vars \<Rightarrow> vars) \<Rightarrow> document \<Rightarrow> string \<Rightarrow> ('m, 's, 'y) xhal_stmt" where
  "xhal_init L iter doc m_board_domain_name = block
     [UPD (\<lambda>s. s\<lparr>m_logger := INFO_LOG_LEVEL, m_nodes := Map.empty, parser_logger := setLogLevel 2 INFO_LOG_LEVEL\<rparr>),
      (\<lambda>s. case parseXML iter doc (m_nodes s) of
         Ok nodes \<Rightarrow> Next (s\<lparr>m_nodes := nodes\<rparr>)
       | Throws \<Rightarrow> throw_xhal ''XHALParser'' s
       | Undef \<Rightarrow> Undefined),
      TRY (connect L m_board_domain_name) init_xhal_catch]"

definition loadModule :: "('m, 's) rpc_lib \<Rightarrow> string \<Rightarrow> string \<Rightarrow> ('m, 's, 'y) xhal_stmt" where
  "loadModule L module_name module_version =
     TRY (\<lambda>s. case RPCSvc_load_module L (svc s) module_name module_version of
         (Inl e, v) \<Rightarrow> raise e (s\<lparr>svc := v\<rparr>)
       | (Inr ok, v) \<Rightarrow> if ok then Next (s\<lparr>svc := v\<rparr>) else throw_xhal ''ASSERT failure'' (s\<lparr>svc := v\<rparr>)) xhal_catch"

definition xhal_setLogLevel :: "int \<Rightarrow> ('m, 's, 'y) xhal_stmt" where
  "xhal_setLogLevel loglevel =
     UPD (\<lambda>s. s\<lparr>m_logger := setLogLevel loglevel (m_logger s),
       parser_logger := (if 0 \<le> loglevel \<and> loglevel \<le> 4 then setLogLevel loglevel (parser_logger s) else parser_logger s)\<rparr>)"

section \<open>Registers\<close>

text \<open>The request \<^verbatim>\<open>memory.read\<close> and the reply in \<^verbatim>\<open>result\<close>, common to both functions \<^verbatim>\<open>readReg\<close>.\<close>

definition read_memory :: "('m, 's) rpc_lib \<Rightarrow> u32 \<Rightarrow> ('m, 's, 'y) xhal_stmt" where
  "read_memory L a = block
     [req_new L ''memory.read'',
      set_word L ''address'' a,
      set_word L ''count'' 1,
      TRY (call_method L) xhal_catch,
      declare_result,
      IF (key_exists L ''error'') (throw_xhal ''Error during register access'')
        (TRY (block [xhal_ASSERT_one L ''data'', get_word_array_local L ''data'']) xhal_catch)]"

text \<open>The loop that shifts the masked value down by the zeros below the mask, at most \<open>n\<close> times.\<close>

fun shift_down :: "nat \<Rightarrow> u32 \<Rightarrow> u32 \<Rightarrow> u32" where
  "shift_down 0 msk result = result"
| "shift_down (Suc n) msk result =
     (if msk AND 1 \<noteq> 0 then result else shift_down n (drop_bit 1 msk) (drop_bit 1 result))"

definition return_masked :: "u32 \<Rightarrow> ('m, 's, 'y) xhal_stmt" where
  "return_masked msk s =
     (case result_var s of None \<Rightarrow> Undefined | Some w \<Rightarrow> Return (shift_down 32 msk (w AND msk)) s)"

definition readReg :: "('m, 's) rpc_lib \<Rightarrow> string \<Rightarrow> ('m, 's, 'y) xhal_stmt" where
  "readReg L regName s =
     (case getNode (m_nodes s) regName of
        Some t_node \<Rightarrow> block
          [UPD (\<lambda>s. s\<lparr>m_node := t_node\<rparr>),
           read_memory L (real_address (info t_node)),
           return_masked (node_mask (info t_node))] s
      | None \<Rightarrow> strcat_literal s)"

definition readReg_address :: "('m, 's) rpc_lib \<Rightarrow> u32 \<Rightarrow> ('m, 's, 'y) xhal_stmt" where
  "readReg_address L a = block [read_memory L a, return_result]"

text \<open>The loop that counts the zeros below the mask; 32 for an empty mask.\<close>

fun shift_amount :: "nat \<Rightarrow> u32 \<Rightarrow> nat" where
  "shift_amount 0 msk = 0"
| "shift_amount (Suc n) msk = (if msk AND 1 \<noteq> 0 then 0 else Suc (shift_amount n (drop_bit 1 msk)))"

text \<open>A call whose value is used.\<close>

definition CALL :: "('e, 'r, 's) stmt \<Rightarrow> ('r \<Rightarrow> ('e, 'r, 's) stmt) \<Rightarrow> ('e, 'r, 's) stmt" where
  "CALL c k s = (case c s of Return v t \<Rightarrow> k v t | Next t \<Rightarrow> Undefined | r \<Rightarrow> r)"

definition set_word_array1 :: "('m, 's) rpc_lib \<Rightarrow> string \<Rightarrow> u32 \<Rightarrow> ('m, 's, 'x) rpc_stmt" where
  "set_word_array1 L k w s = put_req (RPCMsg_set_word_array L (req s) k [w]) s"

definition send_write :: "('m, 's) rpc_lib \<Rightarrow> ('m, 's, 'y) xhal_stmt" where
  "send_write L = block
     [TRY (call_method L) xhal_catch,
      IF (key_exists L ''error'') (throw_xhal ''Error during register access'') SKIP]"

definition writeReg :: "('m, 's) rpc_lib \<Rightarrow> string \<Rightarrow> u32 \<Rightarrow> ('m, 's, 'y) xhal_stmt" where
  "writeReg L regName val s =
     (case getNode (m_nodes s) regName of
        Some t_node \<Rightarrow>
          (let a = real_address (info t_node); msk = node_mask (info t_node)
           in block
             [UPD (\<lambda>s. s\<lparr>m_node := t_node\<rparr>),
              (if msk = 0xFFFFFFFF
               then block
                 [req_new L ''memory.write'',
                  set_word L ''address'' a,
                  set_word L ''count'' 1,
                  set_word L ''data'' val,
                  send_write L]
               else CALL (readReg_address L a) (\<lambda>current_val.
                 LET_opt (shl32 val (shift_amount 32 msk)) (\<lambda>val_to_write. block
                   [req_new L ''memory.write'',
                    set_word L ''address'' a,
                    set_word_array1 L ''data'' ((val_to_write AND msk) OR (current_val AND NOT msk)),
                    send_write L])))] s)
      | None \<Rightarrow> strcat_literal s)"

section \<open>Lemmas\<close>

lemma shift_down_amount: "shift_down n msk w = drop_bit (shift_amount n msk) w"
  by (induction n msk w rule: shift_down.induct) (simp_all add: drop_bit_drop_bit)

lemma shift_amount_le: "bit msk i \<Longrightarrow> i < n \<Longrightarrow> shift_amount n msk \<le> i"
proof (induction n arbitrary: msk i)
  case 0
  then show ?case by simp
next
  case (Suc n)
  show ?case
  proof (cases "bit msk 0")
    case False
    with Suc.prems obtain j where j: "i = Suc j" by (cases i) auto
    then have "bit (drop_bit 1 msk) j" using Suc.prems(1) by (simp add: bit_drop_bit_eq)
    with Suc.IH [of "drop_bit 1 msk" j] Suc.prems(2) j show ?thesis by simp
  qed (simp add: and_one_neq_0_iff)
qed

lemma shift_amount_less:
  assumes "msk \<noteq> 0"
  shows "shift_amount 32 msk < 32"
proof -
  obtain i where "bit msk i" using assms by (auto simp: bit_eq_iff)
  moreover from this have "i < 32" using bit_imp_le_length [of msk i] by simp
  ultimately show ?thesis using shift_amount_le [of msk i 32] by simp
qed

text \<open>The value of a field of a register, and the register with the field set.\<close>

definition field_get :: "u32 \<Rightarrow> u32 \<Rightarrow> u32" where
  "field_get msk w = drop_bit (shift_amount 32 msk) (w AND msk)"

definition field_set :: "u32 \<Rightarrow> u32 \<Rightarrow> u32 \<Rightarrow> u32" where
  "field_set msk val w = (push_bit (shift_amount 32 msk) val AND msk) OR (w AND NOT msk)"

lemma field_get_set: "field_get msk (field_set msk val w) = val AND drop_bit (shift_amount 32 msk) msk"
  unfolding field_get_def field_set_def
  by (rule bit_word_eqI)
    (auto simp: bit_drop_bit_eq bit_and_iff bit_or_iff bit_not_iff bit_push_bit_iff dest: bit_imp_le_length)

lemma field_set_twice: "field_set msk val (field_set msk val' w) = field_set msk val w"
  unfolding field_set_def
  by (rule bit_word_eqI) (auto simp: bit_and_iff bit_or_iff bit_not_iff)

lemma field_get_other: "msk' AND msk = 0 \<Longrightarrow> field_get msk' (field_set msk val w) = field_get msk' w"
proof -
  assume "msk' AND msk = 0"
  then have "\<not> (bit msk' i \<and> bit msk i)" for i by (metis bit_and_iff bit_0_eq bot_apply bot_bool_def)
  then have "field_set msk val w AND msk' = w AND msk'"
    unfolding field_set_def
    by (intro bit_word_eqI) (auto simp: bit_and_iff bit_or_iff bit_not_iff)
  then show ?thesis by (simp add: field_get_def)
qed

context register_service
begin

lemma read_memory_reads:
  fixes s :: "('m, 's, 'y) xhal_state_scheme"
  assumes "up (svc s)"
  shows "\<exists>t. read_memory L a s = Next t \<and> result_var t = Some (regs (svc s) a) \<and> m_nodes t = m_nodes s \<and>
    up (svc t) \<and> regs (svc t) = regs (svc s)"
proof -
  obtain m1 where m1: "RPCMsg_set_word L (RPCMsg_new L ''memory.read'') ''address'' a = Inr m1"
    using set_word_ok [where k = "''address''"] by auto
  obtain m2 where m2: "RPCMsg_set_word L m1 ''count'' 1 = Inr m2"
    using set_word_ok [where k = "''count''"] by auto
  from memory_read [OF assms m1 m2] m1 m2 show ?thesis
    by (auto simp: read_memory_def stmt_simps)
qed

lemma readReg_reads:
  fixes s :: "('m, 's, 'y) xhal_state_scheme"
  assumes "up (svc s)" and "getNode (m_nodes s) name = Some nd"
  shows "\<exists>t. readReg L name s = Return (field_get (node_mask (info nd)) (regs (svc s) (real_address (info nd)))) t \<and>
    m_nodes t = m_nodes s \<and> up (svc t) \<and> regs (svc t) = regs (svc s)"
  using read_memory_reads [of "s\<lparr>m_node := nd\<rparr>" "real_address (info nd)"] assms
  by (auto simp: readReg_def return_masked_def shift_down_amount field_get_def stmt_simps)

lemma writeReg_writes:
  fixes s :: "('m, 's, 'y) xhal_state_scheme"
  assumes "up (svc s)" and "getNode (m_nodes s) name = Some nd"
    and "node_mask (info nd) \<noteq> 0" and "node_mask (info nd) \<noteq> 0xFFFFFFFF"
  shows "\<exists>t. writeReg L name val s = Next t \<and> m_nodes t = m_nodes s \<and> up (svc t) \<and>
    regs (svc t) = (regs (svc s))(real_address (info nd) :=
      field_set (node_mask (info nd)) val (regs (svc s) (real_address (info nd))))"
proof -
  let ?a = "real_address (info nd)" and ?m = "node_mask (info nd)"
  let ?w = "field_set ?m val (regs (svc s) ?a)"
  obtain t where t: "read_memory L ?a (s\<lparr>m_node := nd\<rparr>) = Next t" "result_var t = Some (regs (svc s) ?a)"
      "m_nodes t = m_nodes s" "up (svc t)" "regs (svc t) = regs (svc s)"
    using read_memory_reads [of "s\<lparr>m_node := nd\<rparr>" ?a] assms(1) by auto
  obtain m1 where m1: "RPCMsg_set_word L (RPCMsg_new L ''memory.write'') ''address'' ?a = Inr m1"
    using set_word_ok [where k = "''address''"] by auto
  obtain m2 where m2: "RPCMsg_set_word_array L m1 ''data'' [?w] = Inr m2"
    using set_word_array_ok [where k = "''data''"] by auto
  have "shl32 val (shift_amount 32 ?m) = Some (push_bit (shift_amount 32 ?m) val)"
    using shift_amount_less [OF assms(3)] by (simp add: shl32_def)
  with memory_write [OF t(4) m1 m2] m1 m2 t assms(2,4) show ?thesis
    by (auto simp: writeReg_def CALL_def readReg_address_def set_word_array1_def send_write_def field_set_def [symmetric] stmt_simps)
qed

end

section \<open>Properties\<close>

text \<open>
  C40: on a card that behaves as a register file, writing a field of a register by its name sets that
  field and nothing else: reading it back gives the bits of the value that fit the field, and every
  register whose address differs or whose mask is disjoint reads as before.
\<close>

theorem writeReg_readReg:
  fixes s :: "('m, 's, 'y) xhal_state_scheme"
  assumes "register_service L regs up" and "up (svc s)" and "getNode (m_nodes s) name = Some nd"
    and "node_mask (info nd) \<noteq> 0" and "node_mask (info nd) \<noteq> 0xFFFFFFFF"
    and "getNode (m_nodes s) other = Some nd'"
    and "real_address (info nd') \<noteq> real_address (info nd) \<or> node_mask (info nd') AND node_mask (info nd) = 0"
  shows "\<exists>t u w x y. writeReg L name val s = Next t \<and>
    readReg L name t = Return (val AND drop_bit (shift_amount 32 (node_mask (info nd))) (node_mask (info nd))) u \<and>
    readReg L other s = Return w x \<and> readReg L other t = Return w y"
proof -
  note writes = register_service.writeReg_writes [OF assms(1)] and reads = register_service.readReg_reads [OF assms(1)]
  let ?a = "real_address (info nd)" and ?m = "node_mask (info nd)" and ?a' = "real_address (info nd')" and ?m' = "node_mask (info nd')"
  obtain t where t: "writeReg L name val s = Next t" "m_nodes t = m_nodes s" "up (svc t)"
      "regs (svc t) = (regs (svc s))(?a := field_set ?m val (regs (svc s) ?a))"
    using writes [OF assms(2-5)] by blast
  obtain u where "readReg L name t = Return (field_get ?m (regs (svc t) ?a)) u"
    using reads [OF t(3)] assms(3) t(2) by fastforce
  moreover obtain x where "readReg L other s = Return (field_get ?m' (regs (svc s) ?a')) x"
    using reads [OF assms(2,6)] by blast
  moreover obtain y where "readReg L other t = Return (field_get ?m' (regs (svc t) ?a')) y"
    using reads [OF t(3)] assms(6) t(2) by fastforce
  moreover have "field_get ?m' (regs (svc t) ?a') = field_get ?m' (regs (svc s) ?a')"
    using assms(7) by (auto simp: t(4) field_get_other)
  ultimately show ?thesis using t(1) by (auto simp: t(4) field_get_set)
qed

text \<open>Two bytes of one register of the reference card.\<close>

definition byte_node :: "u32 \<Rightarrow> Node" where
  "byte_node msk = Node (empty_node\<lparr>real_address := 0x64000000, node_mask := msk\<rparr>) []"

definition byte_state :: "(rmsg, rsvc) xhal_state" where
  "byte_state = \<lparr>svc = Registers (\<lambda>a. 0xABCD), req = ([], []), rsp = ([], []), heap = (\<lambda>b. []), files = Map.empty,
     result_var = None, m_nodes = [''HI'' \<mapsto> byte_node 0xFF00, ''LO'' \<mapsto> byte_node 0xFF], m_node = byte_node 0,
     m_logger = INFO_LOG_LEVEL, parser_logger = INFO_LOG_LEVEL\<rparr>"

theorem writeReg_readReg_witness:
  "\<exists>t u w x y. writeReg ref_lib ''HI'' 0x112 byte_state = Next t \<and> readReg ref_lib ''HI'' t = Return 0x12 u \<and>
    readReg ref_lib ''LO'' byte_state = Return w x \<and> readReg ref_lib ''LO'' t = Return w y"
proof -
  have "shift_amount 32 0xFF00 = 8" by code_simp
  then show ?thesis
    using writeReg_readReg [OF ref_card.register_service_axioms, of byte_state "''HI''" "byte_node 0xFF00" "''LO''"
        "byte_node 0xFF" "0x112"]
    by (simp add: byte_state_def getNode_def byte_node_def)
qed

text \<open>A register with an empty mask cannot be written: the shift by 32 is undefined.\<close>

lemma shift_amount_0: "shift_amount n 0 = n"
  by (induction n) simp_all

lemma writeReg_empty_mask:
  fixes s :: "('m, 's, 'y) xhal_state_scheme"
  assumes "register_service L regs up" and "up (svc s)" and "getNode (m_nodes s) name = Some nd"
    and "node_mask (info nd) = 0"
  shows "writeReg L name val s = Undefined"
proof -
  obtain t where "read_memory L (real_address (info nd)) (s\<lparr>m_node := nd\<rparr>) = Next t" "result_var t \<noteq> None"
    using register_service.read_memory_reads [OF assms(1), of "s\<lparr>m_node := nd\<rparr>" "real_address (info nd)"] assms(2) by auto
  then show ?thesis
    using assms(3,4)
    by (auto simp: writeReg_def CALL_def readReg_address_def shl32_def shift_amount_0 stmt_simps)
qed

text \<open>A name that is not in the address table, and a failure of the transport, end in the handlers' \<^verbatim>\<open>strcat\<close>.\<close>

lemma readReg_unknown: "getNode (m_nodes s) name = None \<Longrightarrow> readReg L name s = Undefined"
  by (simp add: readReg_def strcat_literal_def)

end
