(* ===== verification/Word_Memory.thy ===== *)
theory Word_Memory
  imports Xhal_Prelude
begin

text \<open>
  The interface between the register clients and what they access: reading and writing one word at
  an address. \<open>ok s a\<close> says that the register at \<open>a\<close> can be read and written, \<open>view s a\<close> is its content
  and \<open>inv\<close> the provider's invariant. The clients' lemmas are proved once here.
\<close>

locale word_memory =
  fixes rd :: "'s \<Rightarrow> u32 \<Rightarrow> u32 option \<times> 's"
    and wr :: "'s \<Rightarrow> u32 \<Rightarrow> u32 \<Rightarrow> bool \<times> 's"
    and ok :: "'s \<Rightarrow> u32 \<Rightarrow> bool"
    and view :: "'s \<Rightarrow> u32 \<Rightarrow> u32"
    and inv :: "'s \<Rightarrow> bool"
  assumes rd_ok: "inv s \<Longrightarrow> ok s a \<Longrightarrow>
      \<exists>s'. rd s a = (Some (view s a), s') \<and> inv s' \<and> view s' = view s \<and> ok s' = ok s"
    and wr_ok: "inv s \<Longrightarrow> ok s a \<Longrightarrow>
      \<exists>s'. wr s a v = (True, s') \<and> inv s' \<and> view s' = (view s)(a := v) \<and> ok s' = ok s"
begin

lemma read_after_write:
  assumes "inv s" and "ok s a" and "ok s b"
  shows "\<exists>t u. wr s a v = (True, t) \<and> rd t b = (Some (if b = a then v else view s b), u) \<and>
    inv u \<and> view u = (view s)(a := v) \<and> ok u = ok s"
proof -
  obtain t where t: "wr s a v = (True, t)" "inv t" "view t = (view s)(a := v)" "ok t = ok s"
    using wr_ok [OF assms(1,2)] by blast
  moreover obtain u where "rd t b = (Some (view t b), u)" "inv u" "view u = view t" "ok u = ok t"
    using rd_ok [OF t(2), of b] assms(3) t(4) by auto
  ultimately show ?thesis by auto
qed

end

text \<open>
  Sequences of accesses, as the block transfers of the clients make them: they stop at the first
  access that fails.
\<close>

fun rd_seq :: "('s \<Rightarrow> u32 \<Rightarrow> u32 option \<times> 's) \<Rightarrow> 's \<Rightarrow> u32 list \<Rightarrow> u32 list option \<times> 's" where
  "rd_seq rd s [] = (Some [], s)"
| "rd_seq rd s (a # as) =
     (case rd s a of
        (None, t) \<Rightarrow> (None, t)
      | (Some w, t) \<Rightarrow> (case rd_seq rd t as of (None, u) \<Rightarrow> (None, u) | (Some ws, u) \<Rightarrow> (Some (w # ws), u)))"

fun wr_seq :: "('s \<Rightarrow> u32 \<Rightarrow> u32 \<Rightarrow> bool \<times> 's) \<Rightarrow> 's \<Rightarrow> (u32 \<times> u32) list \<Rightarrow> bool \<times> 's" where
  "wr_seq wr s [] = (True, s)"
| "wr_seq wr s ((a, w) # aws) =
     (case wr s a w of (False, t) \<Rightarrow> (False, t) | (True, t) \<Rightarrow> wr_seq wr t aws)"

fun write_all :: "(u32 \<times> u32) list \<Rightarrow> (u32 \<Rightarrow> u32) \<Rightarrow> u32 \<Rightarrow> u32" where
  "write_all [] m = m"
| "write_all ((a, w) # aws) m = write_all aws (m(a := w))"

context word_memory
begin

lemma rd_seq_ok:
  assumes "inv s" and "\<And>a. a \<in> set as \<Longrightarrow> ok s a"
  shows "\<exists>t. rd_seq rd s as = (Some (map (view s) as), t) \<and> inv t \<and> view t = view s \<and> ok t = ok s"
  using assms
proof (induction as arbitrary: s)
  case Nil
  then show ?case by simp
next
  case (Cons a as)
  obtain t where t: "rd s a = (Some (view s a), t)" "inv t" "view t = view s" "ok t = ok s"
    using rd_ok [OF Cons.prems(1), of a] Cons.prems(2) by auto
  with Cons.IH [of t] Cons.prems(2) show ?case by auto
qed

lemma wr_seq_ok:
  assumes "inv s" and "\<And>a w. (a, w) \<in> set aws \<Longrightarrow> ok s a"
  shows "\<exists>t. wr_seq wr s aws = (True, t) \<and> inv t \<and>
    view t = write_all aws (view s) \<and> ok t = ok s"
  using assms
proof (induction aws arbitrary: s)
  case Nil
  then show ?case by simp
next
  case (Cons aw aws)
  obtain a w where aw: "aw = (a, w)" by force
  obtain t where t: "wr s a w = (True, t)" "inv t" "view t = (view s)(a := w)" "ok t = ok s"
    using wr_ok [OF Cons.prems(1), of a w] Cons.prems(2) aw by auto
  have "\<exists>u. wr_seq wr t aws = (True, u) \<and> inv u \<and>
      view u = write_all aws (view t) \<and> ok u = ok t"
    using Cons.prems(2) t(2,4) by (intro Cons.IH) auto
  with t aw show ?case by simp
qed

end

end
