(* ===== verification/Rw_Reg.thy ===== *)
theory Rw_Reg
  imports Mem_Svc_Config
begin

text \<open>
  \<^verbatim>\<open>xcompile/lib_rw_ctp7/rwreg.cc\<close>: register access on the card through the memory service, with the
  handle kept in a static variable between calls. The state is the handle and the device; the
  environment \<^verbatim>\<open>memsvc_open\<close> would meet is an argument of each call. \<open>None\<close> is undefined behaviour.
\<close>

record 'd rw_state =
  memHandle :: "memsvc_handle option"
  cardmem :: 'd

text \<open>
  The loop of \<^verbatim>\<open>getData\<close>, \<open>n\<close> words to go and \<open>i\<close> done; the one-word local \<^verbatim>\<open>readBuffer\<close> is handed to
  \<^verbatim>\<open>memsvc_read\<close>, which does not look at its content.
\<close>

fun getData_loop ::
  "mem_os \<Rightarrow> 'd device \<Rightarrow> u32 \<Rightarrow> nat \<Rightarrow> nat \<Rightarrow> u32 list \<Rightarrow> 'd rw_state \<Rightarrow> (bool \<times> u32 list \<times> 'd rw_state) option" where
  "getData_loop os dv address 0 i buffer s = Some (True, buffer, s)"
| "getData_loop os dv address (Suc n) i buffer s =
     (case memsvc_read os dv (memHandle s) (address + of_nat i * 4) 1 [0] (cardmem s) of
        None \<Rightarrow> None
      | Some (rc, h, rb, d) \<Rightarrow>
          let s' = s\<lparr>memHandle := h, cardmem := d\<rparr>
          in if rc \<noteq> 0 then Some (False, buffer, s')
             else if i < length buffer
             then getData_loop os dv address n (Suc i) (buffer[i := hd rb]) s'
             else None)"

text \<open>\<^verbatim>\<open>int wordsToGo = numberOfValues\<close>: from \<open>2 ^ 31\<close> on the count is negative and the loop is not entered.\<close>

definition getData ::
  "mem_os \<Rightarrow> 'd device \<Rightarrow> u32 \<Rightarrow> u32 \<Rightarrow> u32 list \<Rightarrow> 'd rw_state \<Rightarrow> (bool \<times> u32 list \<times> 'd rw_state) option" where
  "getData os dv address numberOfValues buffer s =
     getData_loop os dv address (if unat numberOfValues < 2 ^ 31 then unat numberOfValues else 0) 0 buffer s"

text \<open>\<^verbatim>\<open>if (memHandle == NULL) memsvc_open(&memHandle)\<close>\<close>

definition ensure_open :: "mem_os \<Rightarrow> open_env \<Rightarrow> 'd rw_state \<Rightarrow> int \<times> 'd rw_state" where
  "ensure_open os env s =
     (case memHandle s of
        Some h \<Rightarrow> (0, s)
      | None \<Rightarrow> (case memsvc_open os env of (rc, h) \<Rightarrow> (rc, s\<lparr>memHandle := Some h\<rparr>)))"

definition rw_getReg :: "mem_os \<Rightarrow> 'd device \<Rightarrow> open_env \<Rightarrow> u32 \<Rightarrow> 'd rw_state \<Rightarrow> (u32 \<times> 'd rw_state) option" where
  "rw_getReg os dv env address s =
     (case ensure_open os env s of (rc, s1) \<Rightarrow>
        if rc \<noteq> 0 then Some (0xfefe, s1)
        else case getData os dv address 1 [0] s1 of
            None \<Rightarrow> None
          | Some (True, buffer, s2) \<Rightarrow> Some (hd buffer, s2)
          | Some (False, buffer, s2) \<Rightarrow>
              (case memsvc_close (memHandle s2) of (rc', h) \<Rightarrow>
                 if rc' \<noteq> 0 then Some (0xcafe, s2\<lparr>memHandle := h\<rparr>)
                 else Some (0xdeaddead, s2\<lparr>memHandle := h\<rparr>)))"

datatype 'd putReg_outcome = Put u32 "'d rw_state" | Put_died 'd | Put_wild

definition rw_putReg :: "mem_os \<Rightarrow> 'd device \<Rightarrow> open_env \<Rightarrow> u32 \<Rightarrow> u32 \<Rightarrow> 'd rw_state \<Rightarrow> 'd putReg_outcome" where
  "rw_putReg os dv env address value s =
     (case ensure_open os env s of (rc, s1) \<Rightarrow>
        if rc \<noteq> 0 then Put 4 s1
        else case memsvc_write os dv (memHandle s1) address 1 [value] (cardmem s1) of
            Returned rc' h d \<Rightarrow>
              if rc' \<noteq> 0 then Put 0xdeaddead (s1\<lparr>memHandle := h, cardmem := d\<rparr>)
              else Put value (s1\<lparr>memHandle := h, cardmem := d\<rparr>)
          | Died d \<Rightarrow> Put_died d
          | Wild \<Rightarrow> Put_wild)"

end
