(* ===== verification/Mem_Svc_Access.thy ===== *)
theory Mem_Svc_Access
  imports Mem_Svc_Ranges Word_Memory Rw_Reg
begin

text \<open>
  What the accesses of the memory service do, its interpretation as a word memory on a card whose
  registers are plain memory, and the register access functions of \<^verbatim>\<open>rwreg.cc\<close> on top of it.
\<close>

section \<open>Single words on plain memory\<close>

text \<open>A device whose registers hold what was written to them and never raise a bus error.\<close>

definition plain_memory :: "(u32 \<Rightarrow> u32) device" where
  "plain_memory = \<lparr>dev_read = (\<lambda>d a. (d a, d)), dev_write = (\<lambda>d a w. d(a := w)), dev_sigbus = (\<lambda>d a. False)\<rparr>"

type_synonym svc_state = "memsvc_handle option \<times> (u32 \<Rightarrow> u32)"

definition svc_rd :: "mem_os \<Rightarrow> svc_state \<Rightarrow> u32 \<Rightarrow> u32 option \<times> svc_state" where
  "svc_rd os s a =
     (case memsvc_read os plain_memory (fst s) a 1 [0] (snd s) of
        None \<Rightarrow> (None, s)
      | Some (rc, h, data, d) \<Rightarrow> (if rc = 0 then Some (hd data) else None, (h, d)))"

definition svc_wr :: "mem_os \<Rightarrow> svc_state \<Rightarrow> u32 \<Rightarrow> u32 \<Rightarrow> bool \<times> svc_state" where
  "svc_wr os s a w =
     (case memsvc_write os plain_memory (fst s) a 1 [w] (snd s) of
        Returned rc h d \<Rightarrow> (rc = 0, (h, d))
      | Died d \<Rightarrow> (False, (fst s, d))
      | Wild \<Rightarrow> (False, s))"

text \<open>The mappings a range needs succeed.\<close>

definition can_map :: "mem_os \<Rightarrow> memsvc_range \<Rightarrow> bool" where
  "can_map os r \<longleftrightarrow>
     mmap_ok os (round_up (pagesize os) (range_end r - start r + 1)) (\<not> readonly r) (start r) \<and>
     mmap_ok os (pagesize os) False (c2c_reg r - c2c_reg r mod pagesize os)"

definition online :: "(u32 \<Rightarrow> u32) \<Rightarrow> memsvc_range \<Rightarrow> bool" where
  "online d r \<longleftrightarrow> c2c_reg r = 0 \<or> d (c2c_reg r) AND c2c_mask r = c2c_mask r"

text \<open>
  A register that can be read and written: aligned, in a writable range with four more bytes before
  the range's end, whose bridge is online, and not itself a bridge status register.
\<close>

definition svc_ok :: "mem_os \<Rightarrow> svc_state \<Rightarrow> u32 \<Rightarrow> bool" where
  "svc_ok os s a \<longleftrightarrow> sigaction_ok os \<and> (\<exists>h. fst s = Some h \<and> a mod 4 = 0 \<and>
     a \<notin> c2c_reg ` set (first_range h) \<and>
     (\<exists>r \<in> set (first_range h). start r \<noteq> 0 \<and> start r \<le> a \<and> unat a + 4 \<le> unat (range_end r) \<and>
        \<not> readonly r \<and> can_map os r \<and> online (snd s) r))"

definition svc_inv :: "svc_state \<Rightarrow> bool" where
  "svc_inv s \<longleftrightarrow> (\<exists>h. fst s = Some h \<and> magic h = MEMSVC_VALID_HANDLE_MAGIC \<and> disjoint_ranges (first_range h))"

lemma activate_both_mapped:
  "can_map os r \<Longrightarrow> mapped (activate_both os r) \<and> c2creg_map (activate_both os r)"
  by (simp add: can_map_def activate_both_def activate_range_def activate_c2c_def Let_def)

lemma config_eqD:
  assumes "config q = config r"
  shows "start q = start r" "range_end q = range_end r" "readonly q = readonly r"
    "c2c_reg q = c2c_reg r" "c2c_mask q = c2c_mask r"
    "can_map os q = can_map os r" "online d q = online d r"
  using assms by (simp_all add: config_def can_map_def online_def)

text \<open>\<open>svc_ok\<close> depends on how the ranges are configured only.\<close>

lemma svc_ok_transfer:
  assumes "config ` set (first_range h') = config ` set (first_range h)" and "svc_ok os (Some h, d) a"
  shows "svc_ok os (Some h', d) a"
proof -
  from assms(2) have sig: "sigaction_ok os" by (simp add: svc_ok_def)
  from assms(2) obtain r where a: "a mod 4 = 0" "a \<notin> c2c_reg ` set (first_range h)"
      and r: "r \<in> set (first_range h)" "start r \<noteq> 0" "start r \<le> a" "unat a + 4 \<le> unat (range_end r)"
        "\<not> readonly r" "can_map os r" "online d r"
    by (auto simp: svc_ok_def)
  obtain r' where r': "r' \<in> set (first_range h')" "config r = config r'"
    using image_eq_preimage [OF assms(1) r(1)] by blast
  have "a \<notin> c2c_reg ` set (first_range h')"
  proof
    assume "a \<in> c2c_reg ` set (first_range h')"
    then obtain q' where q': "q' \<in> set (first_range h')" "a = c2c_reg q'" by blast
    then obtain q where "q \<in> set (first_range h)" "config q' = config q"
      using image_eq_preimage [OF assms(1) [symmetric]] by blast
    with q'(2) a(2) config_eqD(4) [of q' q] show False by auto
  qed
  with sig a(1) r r' show ?thesis
    unfolding svc_ok_def using config_eqD [OF r'(2)] by auto
qed

lemma svc_ok_cong:
  "config ` set (first_range h') = config ` set (first_range h) \<Longrightarrow> svc_ok os (Some h', d) = svc_ok os (Some h, d)"
  using svc_ok_transfer by (intro ext iffI) metis+

lemma svc_ok_write:
  assumes "svc_ok os (Some h, d) a"
  shows "svc_ok os (Some h, d(a := w)) = svc_ok os (Some h, d)"
proof -
  have "a \<noteq> c2c_reg r" if "r \<in> set (first_range h)" for r
    using assms that by (auto simp: svc_ok_def)
  then have "online (d(a := w)) r = online d r" if "r \<in> set (first_range h)" for r
    using that by (auto simp: online_def)
  then show ?thesis by (intro ext) (auto simp: svc_ok_def)
qed

text \<open>The lookup and the checks before an access to such a register succeed.\<close>

lemma svc_ok_found:
  assumes inv: "svc_inv (Some h, d)" and ok: "svc_ok os (Some h, d) a"
  obtains r h1 where "find_range os h a w True = (Some r, h1)" and "mapped r" and "c2creg_map r"
    and "start r \<noteq> 0" and "range_check os plain_memory h1 r a 1 d = (0, h1, d)"
    and "config ` set (first_range h1) = config ` set (first_range h)" and "svc_inv (Some h1, d)"
proof -
  from ok obtain r where r: "r \<in> set (first_range h)" "start r \<noteq> 0" "start r \<le> a"
      "unat a + 4 \<le> unat (range_end r)" "\<not> readonly r" "can_map os r" "online d r" and a: "a mod 4 = 0"
    by (auto simp: svc_ok_def)
  have m: "range_matches a w r"
    using r by (simp add: range_matches_def word_le_nat_alt)
  show ?thesis
  proof (cases rule: find_range_cases [of os h a w True])
    case none
    with a m r(1) show ?thesis by (auto simp: lookup_config_def split_at_None)
  next
    case (found pre q post q')
    let ?h1 = "h\<lparr>first_range := q' # pre @ post\<rparr>"
    have "q = r"
      using disjoint_ranges_unique [of "first_range h" q r] inv found(2,4) r(1) m range_matches_overlap
      by (auto simp: svc_inv_def)
    then have q': "config q' = config r" and act: "q' = activate_both os r" using found(3,7) by auto
    note eq = config_eqD [OF q']
    have mapped: "mapped q'" "c2creg_map q'" using activate_both_mapped [OF r(6)] act by auto
    have "unat (a + 4) = unat a + 4"
      using r(4) unsigned_less [of "range_end r", where ?'a = nat] by (simp add: unat_word_ariths(1))
    then have "a + 4 \<le> range_end r" using r(4) by (simp add: word_le_nat_alt)
    then have "range_check os plain_memory ?h1 q' a 1 d = (0, ?h1, d)"
      using r(3,7) mapped eq
      by (auto simp: range_check_def plain_memory_def online_def Let_def not_less)
    moreover have "svc_inv (Some ?h1, d)"
      using inv find_range_keeps(2) [OF found(1)] by (auto simp: svc_inv_def)
    ultimately show ?thesis
      using that [OF found(1) mapped] eq(1) r(2) find_range_keeps(1) [OF found(1)] by simp
  qed
qed

lemma svc_rd_ok:
  assumes "svc_inv s" and "svc_ok os s a"
  shows "\<exists>s'. svc_rd os s a = (Some (snd s a), s') \<and> svc_inv s' \<and> snd s' = snd s \<and> svc_ok os s' = svc_ok os s"
proof -
  obtain h d where s: "s = (Some h, d)" and h: "magic h = MEMSVC_VALID_HANDLE_MAGIC"
    using assms(1) by (cases s) (auto simp: svc_inv_def)
  obtain r h1 where "find_range os h a False True = (Some r, h1)" "mapped r" "c2creg_map r" "start r \<noteq> 0"
      "range_check os plain_memory h1 r a 1 d = (0, h1, d)"
      and keep: "config ` set (first_range h1) = config ` set (first_range h)" "svc_inv (Some h1, d)"
    by (rule svc_ok_found [OF assms [unfolded s]])
  moreover have "sigaction_ok os" using assms(2) by (simp add: svc_ok_def)
  ultimately have "svc_rd os s a = (Some (d a), (Some h1, d))"
    using h by (simp add: s svc_rd_def memsvc_read_def memsvc_validate_def magic_neq plain_memory_def)
  with keep s svc_ok_cong [OF keep(1)] show ?thesis by simp
qed

lemma svc_wr_ok:
  assumes "svc_inv s" and "svc_ok os s a"
  shows "\<exists>s'. svc_wr os s a v = (True, s') \<and> svc_inv s' \<and> snd s' = (snd s)(a := v) \<and> svc_ok os s' = svc_ok os s"
proof -
  obtain h d where s: "s = (Some h, d)" and h: "magic h = MEMSVC_VALID_HANDLE_MAGIC"
    using assms(1) by (cases s) (auto simp: svc_inv_def)
  obtain r h1 where "find_range os h a True True = (Some r, h1)" "mapped r" "c2creg_map r" "start r \<noteq> 0"
      "range_check os plain_memory h1 r a 1 d = (0, h1, d)"
      and keep: "config ` set (first_range h1) = config ` set (first_range h)" "svc_inv (Some h1, d)"
    by (rule svc_ok_found [OF assms [unfolded s]])
  then have "svc_wr os s a v = (True, (Some h1, d(a := v)))"
    using h by (simp add: s svc_wr_def memsvc_write_def memsvc_validate_def magic_neq plain_memory_def)
  moreover have "svc_inv (Some h1, d(a := v))" using keep(2) by (simp add: svc_inv_def)
  moreover have "svc_ok os (Some h1, d(a := v)) = svc_ok os s"
    using svc_ok_cong [OF keep(1)] svc_ok_write assms(2) s by metis
  ultimately show ?thesis using s by auto
qed

interpretation memsvc: word_memory "svc_rd os" "svc_wr os" "svc_ok os" snd svc_inv for os
  using svc_rd_ok svc_wr_ok by unfold_locales auto

lemma svc_rd_Some:
  "svc_rd os (h, d) a = (Some w, (h', d')) \<Longrightarrow>
    \<exists>data. memsvc_read os plain_memory h a 1 [0] d = Some (0, h', data, d') \<and> hd data = w"
  by (auto simp: svc_rd_def split: option.splits if_splits)

lemma svc_wr_True:
  "svc_wr os (h, d) a w = (True, (h', d')) \<Longrightarrow> memsvc_write os plain_memory h a 1 [w] d = Returned 0 h' d'"
  by (auto simp: svc_wr_def split: memsvc_outcome.splits)

lemma write_read_plain:
  assumes "svc_inv (Some h, d)" and "svc_ok os (Some h, d) a" and "svc_ok os (Some h, d) b"
  shows "\<exists>h1 d1 h2 data. memsvc_write os plain_memory (Some h) a 1 [v] d = Returned 0 h1 d1 \<and>
    memsvc_read os plain_memory h1 b 1 [0] d1 = Some (0, h2, data, d1) \<and> hd data = (if b = a then v else d b)"
proof -
  obtain h1 d1 h2 d2 where w: "svc_wr os (Some h, d) a v = (True, (h1, d1))"
      and r: "svc_rd os (h1, d1) b = (Some (if b = a then v else d b), (h2, d2))" and d2: "d2 = d(a := v)"
    using memsvc.read_after_write [OF assms, of v] by fastforce
  have "memsvc_write os plain_memory (Some h) a 1 [v] d = Returned 0 h1 d1"
    by (rule svc_wr_True [OF w])
  moreover have "d1 = d(a := v)"
    using svc_wr_ok [OF assms(1,2), of v] w by auto
  ultimately show ?thesis using svc_rd_Some [OF r] d2 by auto
qed

section \<open>Properties\<close>

text \<open>
  C16: on a card of plain registers a word written by \<^verbatim>\<open>memsvc_write\<close> is read back by \<^verbatim>\<open>memsvc_read\<close>, and
  a register that was not written keeps its value, for all accessible registers.
\<close>

theorem memsvc_write_read:
  assumes "svc_inv (Some h, d)" and "svc_ok os (Some h, d) a" and "svc_ok os (Some h, d) b"
  shows "\<exists>h1 d1 h2 data. memsvc_write os plain_memory (Some h) a 1 [v] d = Returned 0 h1 d1 \<and>
    memsvc_read os plain_memory h1 b 1 [0] d1 = Some (0, h2, data, d1) \<and> hd data = (if b = a then v else d b)"
  by (rule write_read_plain [OF assms])

text \<open>A handle with one writable range of a page.\<close>

definition page_range :: memsvc_range where
  "page_range = empty_range\<lparr>start := 0x1000, range_end := 0x1fff\<rparr>"

definition page_handle :: memsvc_handle where
  "page_handle = \<lparr>magic = MEMSVC_VALID_HANDLE_MAGIC, last_error = [], memfd = 3, first_range = [page_range]\<rparr>"

lemmas page_defs = page_os_def page_range_def page_handle_def empty_range_def

lemma page_inv: "svc_inv (Some page_handle, d)"
  by (simp add: svc_inv_def disjoint_ranges_def page_defs)

lemma page_ok: "a mod 4 = 0 \<Longrightarrow> 0x1000 \<le> a \<Longrightarrow> unat a + 4 \<le> 0x1fff \<Longrightarrow> a \<noteq> 0 \<Longrightarrow> svc_ok page_os (Some page_handle, d) a"
  by (simp add: svc_ok_def can_map_def online_def page_defs)

theorem memsvc_write_read_witness:
  "\<exists>h1 d1 h2 data. memsvc_write page_os plain_memory (Some page_handle) 0x1004 1 [7] (\<lambda>a. 0) = Returned 0 h1 d1 \<and>
    memsvc_read page_os plain_memory h1 0x1004 1 [0] d1 = Some (0, h2, data, d1) \<and> hd data = 7"
  using memsvc_write_read [OF page_inv page_ok page_ok, where d = "\<lambda>a. 0" and a = "0x1004" and b = "0x1004" and v = 7]
  by (simp add: word_le_nat_alt)

text \<open>The ways out of an access after a range was found.\<close>

lemma range_check_refuses:
  assumes "unat (range_end r) < unat a + 4 * unat words" and "unat a + 4 * unat words < 2 ^ 32"
  shows "\<exists>h'. range_check os dv h r a words d = (-1, h', d)"
proof -
  have "unat (4 * words) = 4 * unat words"
    using assms(2) by (simp add: unat_word_ariths(2))
  then have "unat (a + 4 * words) = unat a + 4 * unat words"
    using assms(2) by (simp add: unat_word_ariths(1))
  then have "range_end r < a + 4 * words"
    using assms(1) by (simp add: word_less_nat_alt)
  then show ?thesis by (simp add: range_check_def Let_def)
qed

text \<open>
  C17: a read that would reach or pass the last byte of the range its address is in, and whose end address is
  below \<open>2 ^ 32\<close>, is refused: -1 is returned, the buffer and the device are unchanged. This covers the last word
  of a range, at its end minus 3, although the end is the last byte of the range. The condition on the end address
  is needed: a read whose end address wraps around passes the check, as is shown below.
\<close>

theorem memsvc_read_refuses:
  assumes "magic h = MEMSVC_VALID_HANDLE_MAGIC" and "find_range os h a False True = (Some r, h1)"
    and "unat (range_end r) < unat a + 4 * unat words" and "unat a + 4 * unat words < 2 ^ 32"
  shows "\<exists>h2. memsvc_read os dv (Some h) a words data d = Some (-1, h2, data, d)"
proof -
  obtain h' where "range_check os dv h1 r a words d = (-1, h', d)"
    using range_check_refuses [OF assms(3,4), of os dv h1 d] by blast
  with assms(1,2) show ?thesis
    by (simp add: memsvc_read_def memsvc_validate_def magic_neq)
qed

lemma page_found:
  "find_range page_os page_handle 0x1ffc False True =
    (Some (activate_both page_os page_range), page_handle\<lparr>first_range := [activate_both page_os page_range]\<rparr>)"
  by (simp add: find_range_def range_matches_def page_handle_def page_range_def empty_range_def Let_def)

theorem memsvc_read_refuses_witness:
  "\<exists>h2. memsvc_read page_os plain_memory (Some page_handle) 0x1ffc 1 [0] (\<lambda>a. 5) = Some (-1, h2, [0], \<lambda>a. 5)"
proof (rule memsvc_read_refuses [OF _ page_found])
  have "range_end (activate_both page_os page_range) = 0x1fff"
    using config_eqD(2) [OF config_activate_both] by (simp add: page_range_def empty_range_def)
  then show "unat (range_end (activate_both page_os page_range)) < unat (0x1ffc :: u32) + 4 * unat (1 :: u32)"
    by simp
qed (simp_all add: page_handle_def)

lemma read_words_plain:
  assumes "i + n \<le> length data"
  shows "read_words plain_memory a n i data d = Some (0, overwrite data i (replicate n (d a)), d)"
  using assms
proof (induction n arbitrary: i data)
  case 0
  then show ?case by (simp add: overwrite_def)
next
  case (Suc n)
  have "overwrite (data[i := d a]) (Suc i) (replicate n (d a)) = overwrite data i (replicate (Suc n) (d a))"
    using Suc.prems by (simp add: overwrite_def take_Suc_conv_app_nth)
  with Suc show ?case by (simp add: plain_memory_def)
qed

lemma read_words_overrun:
  assumes "i \<le> length data" and "length data < i + n"
  shows "read_words plain_memory a n i data d = None"
  using assms
proof (induction n arbitrary: i data)
  case 0
  then show ?case by simp
next
  case (Suc n)
  show ?case
  proof (cases "i < length data")
    case True
    with Suc.prems have "read_words plain_memory a n (Suc i) (data[i := d a]) d = None"
      by (intro Suc.IH) auto
    with True show ?thesis by (simp add: plain_memory_def)
  qed (simp add: plain_memory_def)
qed

text \<open>
  C18: on plain registers \<^verbatim>\<open>memsvc_read\<close> of an accessible address fills the first \<open>words\<close> words of the
  buffer with the content of that one register: the address does not advance along the block.
\<close>

theorem memsvc_read_block:
  assumes "svc_inv (Some h, d)" and "svc_ok os (Some h, d) a" and "sigaction_ok os"
    and "find_range os h a False True = (Some r, h1)" and "unat a + 4 * unat words \<le> unat (range_end r)"
    and "unat words \<le> length data"
  shows "\<exists>h2. memsvc_read os plain_memory (Some h) a words data d =
    Some (0, h2, replicate (unat words) (d a) @ drop (unat words) data, d)"
proof -
  obtain r' h1' where f: "find_range os h a False True = (Some r', h1')" "mapped r'" "c2creg_map r'" "start r' \<noteq> 0"
      "range_check os plain_memory h1' r' a 1 d = (0, h1', d)"
    by (rule svc_ok_found [OF assms(1,2)])
  with assms(4) have r: "r' = r" "h1' = h1" by auto
  have b: "unat (4 * words) = 4 * unat words"
    using assms(5) unsigned_less [of "range_end r", where ?'a = nat] by (simp add: unat_word_ariths(2))
  have "unat (a + 4 * words) = unat a + 4 * unat words"
    using assms(5) unsigned_less [of "range_end r", where ?'a = nat] b by (simp add: unat_word_ariths(1))
  then have "\<not> range_end r < a + 4 * words"
    using assms(5) by (simp add: word_less_nat_alt)
  then have "range_check os plain_memory h1 r a words d = (0, h1, d)"
    using f(2,3,5) r by (auto simp: range_check_def plain_memory_def Let_def split: if_splits)
  moreover have "overwrite data 0 (replicate (unat words) (d a)) = replicate (unat words) (d a) @ drop (unat words) data"
    by (simp add: overwrite_def)
  moreover have "magic h = MEMSVC_VALID_HANDLE_MAGIC" using assms(1) by (simp add: svc_inv_def)
  ultimately show ?thesis
    using f(2-4) r assms(3,4,6)
    by (simp add: memsvc_read_def memsvc_validate_def magic_neq read_words_plain)
qed

lemma page_found':
  "a mod 4 = 0 \<Longrightarrow> 0x1000 \<le> a \<Longrightarrow> a \<le> 0x1fff \<Longrightarrow> find_range page_os page_handle a False True =
    (Some (activate_both page_os page_range), page_handle\<lparr>first_range := [activate_both page_os page_range]\<rparr>)"
  by (simp add: find_range_def range_matches_def page_handle_def page_range_def empty_range_def Let_def)

lemma page_sigaction: "sigaction_ok page_os"
  by (simp add: page_os_def)

lemma page_range_end: "range_end (activate_both page_os page_range) = 0x1fff"
  using config_eqD(2) [OF config_activate_both] by (simp add: page_range_def empty_range_def)

theorem memsvc_read_block_witness:
  "\<exists>h2. memsvc_read page_os plain_memory (Some page_handle) 0x1000 2 [0, 0, 0] (\<lambda>a. a) = Some (0, h2, [0x1000, 0x1000, 0], \<lambda>a. a)"
proof -
  have "replicate 2 x = [x, x]" for x :: u32 by (simp add: numeral_2_eq_2)
  then show ?thesis
    using memsvc_read_block [OF page_inv page_ok _ page_found', where d = "\<lambda>a. a" and a = "0x1000" and words = 2
        and data = "[0, 0, 0]"]
    by (simp add: word_le_nat_alt page_range_end page_sigaction)
qed

text \<open>
  C19: the bounds check is done modulo \<open>2 ^ 32\<close>: a read of \<open>2 ^ 30\<close> words from an accessible register
  passes it and runs past the end of any smaller buffer.
\<close>

theorem memsvc_read_wraps:
  assumes "svc_inv (Some h, d)" and "svc_ok os (Some h, d) a" and "length data < 2 ^ 30"
  shows "memsvc_read os plain_memory (Some h) a 0x40000000 data d = None"
proof -
  obtain r h1 where f: "find_range os h a False True = (Some r, h1)" "mapped r" "c2creg_map r" "start r \<noteq> 0"
      "range_check os plain_memory h1 r a 1 d = (0, h1, d)"
    by (rule svc_ok_found [OF assms(1,2)])
  have "a \<le> range_end r"
    using f(1) by (cases rule: find_range_cases [of os h a False True])
      (auto simp: range_matches_def config_def)
  moreover have w: "(4294967296 :: u32) = 0" by code_simp
  ultimately have "range_check os plain_memory h1 r a 0x40000000 d = (0, h1, d)"
    using f(2,3,5) by (auto simp: range_check_def plain_memory_def Let_def w split: if_splits)
  moreover have "read_words plain_memory a (unat (0x40000000 :: u32)) 0 data d = None"
    using assms(3) by (intro read_words_overrun) simp_all
  moreover have "magic h = MEMSVC_VALID_HANDLE_MAGIC" "sigaction_ok os"
    using assms(1,2) by (simp_all add: svc_inv_def svc_ok_def)
  ultimately show ?thesis
    using f(1-4) by (simp add: memsvc_read_def memsvc_validate_def magic_neq)
qed

theorem memsvc_read_wraps_witness:
  "memsvc_read page_os plain_memory (Some page_handle) 0x1000 0x40000000 [0] (\<lambda>a. 5) = None"
  using memsvc_read_wraps [OF page_inv page_ok, where d = "\<lambda>a. 5" and a = "0x1000" and data = "[0]"]
  by (simp add: word_le_nat_alt)

text \<open>
  C20: a write to an address all of whose ranges are read-only, or that is in no range, returns -1 and
  leaves the device unchanged.
\<close>

theorem memsvc_write_readonly:
  assumes "\<And>r. r \<in> set (first_range h) \<Longrightarrow> start r \<le> a \<Longrightarrow> a \<le> range_end r \<Longrightarrow> readonly r"
  shows "\<exists>h'. memsvc_write os dv (Some h) a words data d = Returned (-1) h' d"
proof -
  have "find_range os h a True True = (None, h)"
  proof (cases rule: find_range_cases [of os h a True True])
    case (found pre r post r')
    with assms [of r] show ?thesis by (simp add: range_matches_def)
  qed
  then show ?thesis
    by (cases "find_range os h a False False")
      (auto simp: memsvc_write_def memsvc_validate_def split: option.splits)
qed

theorem memsvc_write_readonly_witness:
  "\<exists>h'. memsvc_write page_os plain_memory (Some page_handle) 0x3000 1 [7] (\<lambda>a. 0) = Returned (-1) h' (\<lambda>a. 0)"
  by (rule memsvc_write_readonly) (simp add: page_handle_def page_range_def empty_range_def)

section \<open>Opening\<close>

lemma parse_config_ranges:
  assumes "parse_config bits n rs lines = Inr rs'"
    and "list_all (\<lambda>r. start r < range_end r \<and> \<not> mapped r \<and> \<not> c2creg_map r) rs"
  shows "list_all (\<lambda>r. start r < range_end r \<and> \<not> mapped r \<and> \<not> c2creg_map r) rs'"
  using assms
proof (induction lines arbitrary: n rs)
  case Nil
  then show ?case by simp
next
  case (Cons line lines)
  have "\<not> mapped r \<and> \<not> c2creg_map r" if "parse_range bits line = Inr r" for r
    using that by (auto simp: parse_range_def empty_range_def split: option.splits prod.splits if_splits)
  with Cons show ?case
    by (auto simp: not_le split: if_splits sum.splits)
qed

lemma open_failed_outcome:
  assumes "magic svc = MEMSVC_INVALID_HANDLE_MAGIC"
  shows "\<exists>h. open_failed os svc user err = (-1, h) \<and> magic h = MEMSVC_INVALID_HANDLE_MAGIC \<and> first_range h = [] \<and>
       (\<exists>h'. memsvc_read os dv (Some h) a words data d = Some (-1, h', data, d)) \<and>
       (\<exists>h'. memsvc_write os dv (Some h) a words data d = Returned (-1) h' d)"
  using assms by (simp add: open_failed_def memsvc_invalidate_def set_error_def memsvc_read_def
      memsvc_write_def memsvc_validate_def)

lemma memsvc_open_cases:
  obtains (fail) svc user err where "memsvc_open os env = open_failed os svc user err"
      "magic svc = MEMSVC_INVALID_HANDLE_MAGIC"
  | (ok) rs where "memsvc_open os env =
        (0, fresh_handle\<lparr>memfd := recvfd_fd env, first_range := rs, magic := MEMSVC_VALID_HANDLE_MAGIC\<rparr>)"
      "parse_config (ulong_bits env) 0 [] (fgets_lines 1022 (conf_text env)) = Inr rs" "0 \<le> recvfd_fd env"
proof -
  let ?svc = "fresh_handle\<lparr>memfd := recvfd_fd env\<rparr>"
  have fresh: "magic fresh_handle = MEMSVC_INVALID_HANDLE_MAGIC" "magic ?svc = MEMSVC_INVALID_HANDLE_MAGIC"
    by (simp_all add: fresh_handle_def)
  consider (early) "socket_errno env \<noteq> 0 \<or> connect_errno env \<noteq> 0"
    | (late) "socket_errno env = 0" "connect_errno env = 0" "recvfd_rv env \<noteq> 1 \<or> recvfd_fd env < 0 \<or> conf_errno env \<noteq> 0"
    | (parse) "socket_errno env = 0" "connect_errno env = 0" "recvfd_rv env = 1"
        "0 \<le> recvfd_fd env" "conf_errno env = 0"
    by force
  then show thesis
  proof cases
    case early
    then have "\<exists>user err. memsvc_open os env = open_failed os fresh_handle user err"
      by (cases "socket_errno env = 0") (auto simp: memsvc_open_def)
    with fresh(1) fail show ?thesis by blast
  next
    case late
    then have "\<exists>user err. memsvc_open os env = open_failed os ?svc user err"
      by (cases "recvfd_rv env = 1"; cases "recvfd_fd env < 0") (auto simp: memsvc_open_def Let_def)
    with fresh(2) fail show ?thesis by blast
  next
    case parse
    then show ?thesis
      using fail [OF _ fresh(2)] ok
      by (cases "parse_config (ulong_bits env) 0 [] (fgets_lines 1022 (conf_text env))")
        (auto simp: memsvc_open_def Let_def)
  qed
qed

text \<open>
  C22: \<^verbatim>\<open>memsvc_open\<close> either succeeds with a valid handle that has the memory descriptor and only
  non-empty ranges, none of them mapped yet, or returns -1 with a handle that is marked invalid, has
  no ranges, and on which every read and write returns -1 without touching the device.
\<close>

theorem memsvc_open_outcome:
  "case memsvc_open os env of (rc, h) \<Rightarrow>
     if rc = 0
     then magic h = MEMSVC_VALID_HANDLE_MAGIC \<and> 0 \<le> memfd h \<and>
       list_all (\<lambda>r. start r < range_end r \<and> \<not> mapped r \<and> \<not> c2creg_map r) (first_range h)
     else rc = -1 \<and> magic h = MEMSVC_INVALID_HANDLE_MAGIC \<and> first_range h = [] \<and>
       (\<exists>h'. memsvc_read os dv (Some h) a words data d = Some (-1, h', data, d)) \<and>
       (\<exists>h'. memsvc_write os dv (Some h) a words data d = Returned (-1) h' d)"
proof (cases rule: memsvc_open_cases [of os env])
  case (fail svc user err)
  with open_failed_outcome [OF fail(2), of os user err dv a words data d] show ?thesis by auto
next
  case (ok rs)
  then show ?thesis using parse_config_ranges [OF ok(2)] by (simp add: fresh_handle_def)
qed

section \<open>Register access with a kept handle\<close>

text \<open>
  C23: once \<^verbatim>\<open>putReg\<close> of \<^verbatim>\<open>rwreg.cc\<close> holds a handle whose opening failed, it never opens the service
  again: whatever the system would answer, it returns \<^verbatim>\<open>0xdeaddead\<close> and keeps an invalid handle. One
  call of \<^verbatim>\<open>getReg\<close> drops the handle, so that the next access opens the service anew.
\<close>

theorem rw_invalid_handle:
  assumes "memHandle s = Some h" and "magic h = MEMSVC_INVALID_HANDLE_MAGIC"
  shows "(\<exists>h'. rw_putReg os dv env address v s = Put 0xdeaddead (s\<lparr>memHandle := Some h'\<rparr>) \<and>
      magic h' = MEMSVC_INVALID_HANDLE_MAGIC) \<and>
    rw_getReg os dv env address s = Some (0xdeaddead, s\<lparr>memHandle := None\<rparr>)"
proof (intro conjI exI)
  let ?h = "set_error os h ''Invalid service handle'' 0"
  show "rw_putReg os dv env address v s = Put 0xdeaddead (s\<lparr>memHandle := Some ?h\<rparr>)"
    using assms by (simp add: rw_putReg_def ensure_open_def memsvc_write_def memsvc_validate_def)
  show "magic ?h = MEMSVC_INVALID_HANDLE_MAGIC"
    using assms(2) by (simp add: set_error_def)
  show "rw_getReg os dv env address s = Some (0xdeaddead, s\<lparr>memHandle := None\<rparr>)"
    using assms by (simp add: rw_getReg_def ensure_open_def memsvc_read_def memsvc_validate_def getData_def
        memsvc_close_def Let_def)
qed

text \<open>A system on which the service cannot be reached.\<close>

definition no_service :: open_env where
  "no_service = \<lparr>socket_errno = 0, connect_errno = 111, recvmsg_rv = -1, recvmsg_errno = 0, recvmsg_cmsgs = [],
     conf_errno = 2, conf_text = [], ulong_bits = 32\<rparr>"

theorem rw_invalid_handle_witness:
  "(\<exists>h'. rw_putReg page_os plain_memory no_service 0x1000 7 \<lparr>memHandle = Some fresh_handle, cardmem = (\<lambda>a. 0)\<rparr> =
      Put 0xdeaddead \<lparr>memHandle = Some h', cardmem = (\<lambda>a. 0)\<rparr> \<and> magic h' = MEMSVC_INVALID_HANDLE_MAGIC)"
  using rw_invalid_handle [of "\<lparr>memHandle = Some fresh_handle, cardmem = (\<lambda>a. 0)\<rparr>" fresh_handle page_os plain_memory no_service "0x1000" 7]
  by (simp add: fresh_handle_def)

text \<open>
  C24: on plain registers, \<^verbatim>\<open>putReg\<close> followed by \<^verbatim>\<open>getReg\<close> of \<^verbatim>\<open>rwreg.cc\<close> with an open handle returns the
  value written, and for another register the value it had.
\<close>

theorem rw_putReg_getReg:
  assumes "memHandle s = Some h" and "svc_inv (Some h, cardmem s)"
    and "svc_ok os (Some h, cardmem s) a" and "svc_ok os (Some h, cardmem s) b"
  shows "\<exists>t u. rw_putReg os plain_memory env a v s = Put v t \<and>
    rw_getReg os plain_memory env' b t = Some (if b = a then v else cardmem s b, u)"
proof -
  obtain h1 d1 h2 data where w: "memsvc_write os plain_memory (Some h) a 1 [v] (cardmem s) = Returned 0 h1 d1"
      and r: "memsvc_read os plain_memory h1 b 1 [0] d1 = Some (0, h2, data, d1)"
      and v: "hd data = (if b = a then v else cardmem s b)"
    using write_read_plain [OF assms(2-4)] by blast
  have "h1 \<noteq> None"
  proof
    assume "h1 = None"
    with r show False by (simp add: memsvc_read_def memsvc_validate_def)
  qed
  with assms(1) w r v show ?thesis
    by (auto simp: rw_putReg_def rw_getReg_def ensure_open_def getData_def Let_def)
qed

theorem rw_putReg_getReg_witness:
  "\<exists>t u. rw_putReg page_os plain_memory no_service 0x1008 9 \<lparr>memHandle = Some page_handle, cardmem = (\<lambda>a. 0)\<rparr> = Put 9 t \<and>
    rw_getReg page_os plain_memory no_service 0x1008 t = Some (9, u)"
  using rw_putReg_getReg [OF _ page_inv page_ok page_ok, where s = "\<lparr>memHandle = Some page_handle, cardmem = (\<lambda>a. 0)\<rparr>"
      and a = "0x1008" and b = "0x1008" and v = 9 and env = no_service and env' = no_service]
  by (simp add: word_le_nat_alt)

end
