(* ===== verification/Mem_Svc_Resources.thy ===== *)
theory Mem_Svc_Resources
  imports Mem_Svc_Access "HOL-Library.Multiset"
begin

text \<open>
  The mappings a handle of the memory service owns: \<^verbatim>\<open>mmap\<close> as \<^verbatim>\<open>find_range\<close> calls it, \<^verbatim>\<open>munmap\<close> as
  \<^verbatim>\<open>free_ranges\<close> calls it when the handle is closed. A mapping is the pair of its offset in the memory
  descriptor and its length.
\<close>

type_synonym mapping = "u32 \<times> u32"

section \<open>The calls\<close>

text \<open>The mappings that \<^verbatim>\<open>free_ranges\<close> releases for one range, and for the list.\<close>

definition range_munmaps :: "mem_os \<Rightarrow> memsvc_range \<Rightarrow> mapping list" where
  "range_munmaps os cur =
     (if mapped cur then [(start cur, maplen cur)] else []) @
     (if c2creg_map cur then [(c2c_reg cur - c2creg_offset cur, pagesize os)] else [])"

fun free_ranges :: "mem_os \<Rightarrow> memsvc_range list \<Rightarrow> mapping list" where
  "free_ranges os [] = []"
| "free_ranges os (cur # rest) = range_munmaps os cur @ free_ranges os rest"

text \<open>\<^verbatim>\<open>memsvc_close\<close> on a handle, through \<^verbatim>\<open>memsvc_invalidate\<close>, which leaves alone what is no handle.\<close>

definition invalidate_munmaps :: "mem_os \<Rightarrow> memsvc_handle \<Rightarrow> mapping list" where
  "invalidate_munmaps os svc =
     (if magic svc \<noteq> MEMSVC_VALID_HANDLE_MAGIC \<and> magic svc \<noteq> MEMSVC_INVALID_HANDLE_MAGIC then []
      else free_ranges os (first_range svc))"

definition close_munmaps :: "mem_os \<Rightarrow> memsvc_handle option \<Rightarrow> mapping list" where
  "close_munmaps os svc = (case svc of None \<Rightarrow> [] | Some h \<Rightarrow> invalidate_munmaps os h)"

text \<open>
  The mappings \<^verbatim>\<open>find_range\<close> makes when it activates a range, and those of a whole lookup. The second
  mapping is not tried after the first has failed.
\<close>

definition activate_mmaps :: "mem_os \<Rightarrow> memsvc_range \<Rightarrow> mapping list" where
  "activate_mmaps os cur =
     (let len = round_up (pagesize os) (range_end cur - start cur + 1);
          ok = mmap_ok os len (\<not> readonly cur) (start cur);
          reg = c2c_reg cur - c2c_reg cur mod pagesize os
      in (if \<not> mapped cur \<and> ok then [(start cur, len)] else []) @
         (if (mapped cur \<or> ok) \<and> \<not> c2creg_map cur \<and> mmap_ok os (pagesize os) False reg then [(reg, pagesize os)] else []))"

definition find_mmaps :: "mem_os \<Rightarrow> memsvc_handle \<Rightarrow> u32 \<Rightarrow> bool \<Rightarrow> mapping list" where
  "find_mmaps os svc addr writeable =
     (if addr mod 4 \<noteq> 0 then []
      else case split_at (range_matches addr writeable) (first_range svc) of
          None \<Rightarrow> []
        | Some (pre, cur, post) \<Rightarrow> activate_mmaps os cur)"

text \<open>An access looks the range up only with a valid handle.\<close>

definition access_mmaps :: "mem_os \<Rightarrow> memsvc_handle \<Rightarrow> u32 \<Rightarrow> bool \<Rightarrow> mapping list" where
  "access_mmaps os svc addr writeable =
     (if magic svc = MEMSVC_VALID_HANDLE_MAGIC then find_mmaps os svc addr writeable else [])"

section \<open>What a handle owns\<close>

definition owned :: "mem_os \<Rightarrow> memsvc_handle \<Rightarrow> mapping multiset" where
  "owned os h = mset (free_ranges os (first_range h))"

lemma free_ranges_append: "free_ranges os (xs @ ys) = free_ranges os xs @ free_ranges os ys"
  by (induction xs) simp_all

lemma munmaps_activate:
  "mset (range_munmaps os (activate_both os cur)) = mset (range_munmaps os cur) + mset (activate_mmaps os cur)"
  by (simp add: range_munmaps_def activate_mmaps_def activate_both_def activate_range_def activate_c2c_def Let_def)

lemma owned_find_range:
  "owned os (snd (find_range os h addr writeable activate)) =
    owned os h + (if activate then mset (find_mmaps os h addr writeable) else {#})"
proof (cases "addr mod 4 = 0")
  case True
  show ?thesis
  proof (cases "split_at (range_matches addr writeable) (first_range h)")
    case (Some x)
    obtain pre cur post where x: "x = (pre, cur, post)" by (cases x)
    have "first_range h = pre @ cur # post" using split_at_Some [OF Some [unfolded x]] by simp
    with True Some x show ?thesis
      by (simp add: find_range_def find_mmaps_def owned_def free_ranges_append munmaps_activate Let_def)
  qed (use True in \<open>simp add: find_range_def find_mmaps_def\<close>)
qed (simp add: find_range_def find_mmaps_def)

lemma owned_set_error [simp]: "owned os (set_error os' h user err) = owned os h" "magic (set_error os' h user err) = magic h"
  by (simp_all add: owned_def set_error_def)

lemma owned_range_check: "range_check os dv h rng a n d = (rc, h', d') \<Longrightarrow> owned os h' = owned os h \<and> magic h' = magic h"
  by (auto simp: range_check_def Let_def split: if_splits prod.splits)

lemma valid_validate:
  "memsvc_validate os (Some h) True = (v, r) \<Longrightarrow> \<exists>h'. r = Some h' \<and> owned os h' = owned os h \<and> magic h' = magic h \<and>
    (if magic h = MEMSVC_VALID_HANDLE_MAGIC then v = 0 \<and> h' = h else v < 0)"
  by (auto simp: memsvc_validate_def magic_neq [symmetric] split: if_splits)

lemma owned_memsvc_read:
  assumes "memsvc_read os dv (Some h) a n xs d = Some (rc, r, xs', d')"
  shows "\<exists>h'. r = Some h' \<and> magic h' = magic h \<and> owned os h' = owned os h + mset (access_mmaps os h a False)"
proof -
  obtain v r0 where v: "memsvc_validate os (Some h) True = (v, r0)" by force
  obtain h0 where h0: "r0 = Some h0" "owned os h0 = owned os h" "magic h0 = magic h"
      "if magic h = MEMSVC_VALID_HANDLE_MAGIC then v = 0 \<and> h0 = h else v < 0"
    using valid_validate [OF v] by blast
  show ?thesis
  proof (cases "magic h = MEMSVC_VALID_HANDLE_MAGIC")
    case True
    obtain res h1 where f: "find_range os h a False True = (res, h1)" by force
    have h1: "owned os h1 = owned os h + mset (access_mmaps os h a False)" "magic h1 = magic h"
      using owned_find_range [of os h a False True] f True find_range_keeps(3) [OF f] by (simp_all add: access_mmaps_def)
    show ?thesis
      using assms v h0 True f h1
      by (auto simp: memsvc_read_def split: option.splits prod.splits if_splits dest: owned_range_check)
  qed (use assms v h0 in \<open>auto simp: memsvc_read_def access_mmaps_def\<close>)
qed

lemma owned_memsvc_write:
  assumes "memsvc_write os dv (Some h) a n xs d = Returned rc r d'"
  shows "\<exists>h'. r = Some h' \<and> magic h' = magic h \<and> owned os h' = owned os h + mset (access_mmaps os h a True)"
proof -
  obtain v r0 where v: "memsvc_validate os (Some h) True = (v, r0)" by force
  obtain h0 where h0: "r0 = Some h0" "owned os h0 = owned os h" "magic h0 = magic h"
      "if magic h = MEMSVC_VALID_HANDLE_MAGIC then v = 0 \<and> h0 = h else v < 0"
    using valid_validate [OF v] by blast
  show ?thesis
  proof (cases "magic h = MEMSVC_VALID_HANDLE_MAGIC")
    case True
    obtain res h1 where f: "find_range os h a True True = (res, h1)" by force
    have h1: "owned os h1 = owned os h + mset (access_mmaps os h a True)" "magic h1 = magic h"
      using owned_find_range [of os h a True True] f True find_range_keeps(3) [OF f] by (simp_all add: access_mmaps_def)
    obtain res2 h2 where f2: "find_range os h1 a False False = (res2, h2)" by force
    have h2: "owned os h2 = owned os h1" "magic h2 = magic h1"
      using owned_find_range [of os h1 a False False] f2 find_range_keeps(3) [OF f2] by simp_all
    show ?thesis
      using assms v h0 True f h1 f2 h2
      by (auto simp: memsvc_write_def split: option.splits prod.splits if_splits write_result.splits dest: owned_range_check)
  qed (use assms v h0 in \<open>auto simp: memsvc_write_def access_mmaps_def\<close>)
qed

section \<open>Property\<close>

text \<open>
  The life of a handle: it is opened, and read and written through any number of times, on devices that may
  do anything in between. \<open>live\<close> has the mappings made so far.
\<close>

inductive handle_life :: "mem_os \<Rightarrow> 'd device \<Rightarrow> memsvc_handle \<Rightarrow> mapping multiset \<Rightarrow> bool"
  for os :: mem_os and dv :: "'d device" where
  opened: "memsvc_open os env = (rc, h) \<Longrightarrow> handle_life os dv h {#}"
| read: "handle_life os dv h live \<Longrightarrow> memsvc_read os dv (Some h) a n xs d = Some (rc, Some h', xs', d') \<Longrightarrow>
    handle_life os dv h' (live + mset (access_mmaps os h a False))"
| written: "handle_life os dv h live \<Longrightarrow> memsvc_write os dv (Some h) a n xs d = Returned rc (Some h') d' \<Longrightarrow>
    handle_life os dv h' (live + mset (access_mmaps os h a True))"

lemma owned_unmapped: "list_all (\<lambda>r. start r < range_end r \<and> \<not> mapped r \<and> \<not> c2creg_map r) rs \<Longrightarrow> free_ranges os rs = []"
  by (induction rs) (simp_all add: range_munmaps_def)

definition is_handle :: "memsvc_handle \<Rightarrow> bool" where
  "is_handle h \<longleftrightarrow> magic h = MEMSVC_VALID_HANDLE_MAGIC \<or> magic h = MEMSVC_INVALID_HANDLE_MAGIC"

lemma owned_opened:
  assumes "memsvc_open os env = (rc, h)"
  shows "owned os h = {#} \<and> is_handle h"
proof (cases rule: memsvc_open_cases [of os env])
  case (fail svc user err)
  with assms have "first_range h = []" "magic h = MEMSVC_INVALID_HANDLE_MAGIC"
    by (auto simp: open_failed_def memsvc_invalidate_def set_error_def)
  then show ?thesis by (simp add: owned_def is_handle_def)
next
  case (ok rs)
  have "first_range h = rs" "magic h = MEMSVC_VALID_HANDLE_MAGIC" using ok(1) assms by simp_all
  with parse_config_ranges [OF ok(2)] show ?thesis by (simp add: owned_def owned_unmapped is_handle_def)
qed

text \<open>
  C12: when a handle is closed, at any point of its life, exactly the mappings that its accesses have made
  are unmapped: none is left behind, none is released twice or with another length than it was made with.
\<close>

theorem close_unmaps_all:
  assumes "handle_life os dv h live"
  shows "mset (close_munmaps os (Some h)) = live"
proof -
  have "owned os h = live \<and> is_handle h"
    using assms
  proof (induction rule: handle_life.induct)
    case (opened env rc h)
    then show ?case by (rule owned_opened)
  next
    case (read h live a n xs d rc h' xs' d')
    with owned_memsvc_read [OF read.hyps(2)] show ?case by (simp add: is_handle_def)
  next
    case (written h live a n xs d rc h' d')
    with owned_memsvc_write [OF written.hyps(2)] show ?case by (simp add: is_handle_def)
  qed
  then show ?thesis by (auto simp: owned_def is_handle_def close_munmaps_def invalidate_munmaps_def)
qed

text \<open>A service with the range of \<open>page_handle\<close> in its file; it is opened, written and read.\<close>

definition page_env :: open_env where
  "page_env = \<lparr>socket_errno = 0, connect_errno = 0, recvmsg_rv = 1, recvmsg_errno = 0,
     recvmsg_cmsgs = [\<lparr>cmsg_level = 1, cmsg_type = 2, cmsg_fd = 9\<rparr>, \<lparr>cmsg_level = 1, cmsg_type = 1, cmsg_fd = 3\<rparr>],
     conf_errno = 0, conf_text = ''1000 1fff 0 0 0'', ulong_bits = 32\<rparr>"

lemma take_line_whole: "length cs \<le> n \<Longrightarrow> CHR 0x0A \<notin> set cs \<Longrightarrow> take_line n cs = (cs, [])"
  by (induction n cs rule: take_line.induct) auto

lemma fgets_lines_whole: "cs \<noteq> [] \<Longrightarrow> length cs \<le> Suc n \<Longrightarrow> CHR 0x0A \<notin> set cs \<Longrightarrow> fgets_lines n cs = [cs]"
  using take_line_whole [of cs "Suc n"] by (cases cs) (simp_all del: take_line.simps)

lemma page_line: "parse_range 32 ''1000 1fff 0 0 0'' = Inr page_range"
  by (simp add: parse_range_def hex_field_def strtoul16_def strip_sign_def strip_0x_def is_xdigit_def xdigit_val.simps
      is_space_def page_range_def empty_range_def Let_def)

lemma page_opened: "memsvc_open page_os page_env = (0, page_handle)"
proof -
  have "fgets_lines 1022 ''1000 1fff 0 0 0'' = [''1000 1fff 0 0 0'']" by (rule fgets_lines_whole) simp_all
  then show ?thesis
    by (simp add: memsvc_open_def page_env_def recvfd_def SOL_SOCKET_def SCM_RIGHTS_def fresh_handle_def page_line)
      (simp add: page_defs)
qed

lemma page_life: "\<exists>h. handle_life page_os plain_memory h {#(0x1000, 0x1000), (0, 0x1000)#}"
proof -
  obtain h1 d1 where w: "memsvc_write page_os plain_memory (Some page_handle) 0x1004 1 [7] (\<lambda>a. 0) = Returned 0 (Some h1) d1"
    by (simp add: memsvc_write_def memsvc_validate_def find_range_def range_matches_def activate_both_def activate_range_def
        activate_c2c_def range_check_def plain_memory_def page_defs Let_def magic_neq)
  have "mset (access_mmaps page_os page_handle 0x1004 True) = {#(0x1000, 0x1000), (0, 0x1000)#}"
    by (simp add: access_mmaps_def find_mmaps_def range_matches_def activate_mmaps_def page_defs Let_def round_up_def)
  with handle_life.written [OF handle_life.opened [OF page_opened] w] show ?thesis by auto
qed

theorem close_unmaps_all_witness:
  "\<exists>h. handle_life page_os plain_memory h {#(0x1000, 0x1000), (0, 0x1000)#} \<and>
    mset (close_munmaps page_os (Some h)) = {#(0x1000, 0x1000), (0, 0x1000)#}"
  using page_life close_unmaps_all by blast

end
