(* ===== verification/Mem_Hub.thy ===== *)
theory Mem_Hub
  imports Mem_Svc_Config
begin

text \<open>
  \<^verbatim>\<open>xcompile/memhub/memhub.cpp\<close>: the memory service behind a semaphore shared by all processes.

  The first part has the functions as they run alone. The second part is the protocol between
  several processes, as a step relation on the semaphore and the program points of the processes:
  \<^verbatim>\<open>sem_wait\<close>, \<^verbatim>\<open>busy = true\<close>, the access, \<^verbatim>\<open>sem_post\<close> and \<^verbatim>\<open>busy = false\<close> are separate steps, and a
  signal may run the handler \<^verbatim>\<open>die\<close> or end the process at any program point.
\<close>

section \<open>The functions\<close>

text \<open>What \<^verbatim>\<open>sem_open\<close> returns: a semaphore with a value, or \<^verbatim>\<open>SEM_FAILED\<close>.\<close>

datatype sem_result = Sem nat | SEM_FAILED

datatype 'a hub_outcome = Hub 'a | Exit int | Hub_undefined

text \<open>
  \<^verbatim>\<open>memhub_open\<close>: the first call opens the semaphore and reads its value, before it looks whether
  opening failed: \<^verbatim>\<open>sem_getvalue\<close> on \<^verbatim>\<open>SEM_FAILED\<close> is undefined. \<open>sem\<close> is the static variable.
\<close>

definition memhub_open ::
  "mem_os \<Rightarrow> open_env \<Rightarrow> sem_result \<Rightarrow> bool \<Rightarrow> (bool \<times> int \<times> memsvc_handle) hub_outcome" where
  "memhub_open os env opened sem_set =
     (if sem_set then (case memsvc_open os env of (rc, h) \<Rightarrow> Hub (True, rc, h))
      else case opened of
          SEM_FAILED \<Rightarrow> Hub_undefined
        | Sem v \<Rightarrow>
            if v > 1 then Exit 1
            else (case memsvc_open os env of (rc, h) \<Rightarrow> Hub (True, rc, h)))"

definition memhub_close :: "memsvc_handle option \<Rightarrow> int \<times> memsvc_handle option" where
  "memhub_close h = memsvc_close h"

text \<open>Without contention the semaphore is taken and given back around the access.\<close>

definition memhub_read ::
  "mem_os \<Rightarrow> 'd device \<Rightarrow> memsvc_handle option \<Rightarrow> u32 \<Rightarrow> u32 \<Rightarrow> u32 list \<Rightarrow> 'd \<Rightarrow>
   (int \<times> memsvc_handle option \<times> u32 list \<times> 'd) option" where
  "memhub_read os dv h addr words data d = memsvc_read os dv h addr words data d"

definition memhub_write ::
  "mem_os \<Rightarrow> 'd device \<Rightarrow> memsvc_handle option \<Rightarrow> u32 \<Rightarrow> u32 \<Rightarrow> u32 list \<Rightarrow> 'd \<Rightarrow> 'd memsvc_outcome" where
  "memhub_write os dv h addr words data d = memsvc_write os dv h addr words data d"

section \<open>The protocol\<close>

text \<open>
  Program points of a process: outside the functions; before \<^verbatim>\<open>sem_wait\<close>; after it; after
  \<^verbatim>\<open>busy = true\<close>, in the access; after the access; after \<^verbatim>\<open>sem_post\<close>; in \<^verbatim>\<open>die\<close> before its \<^verbatim>\<open>sem_post\<close>; in
  \<^verbatim>\<open>die\<close> before \<^verbatim>\<open>exit\<close>, with the value of \<^verbatim>\<open>busy\<close>; and ended.
\<close>

datatype pc = Idle | Wait | Taken | In_access | Accessed | Posted | Dying | Exiting bool | Dead

record hub =
  sem :: nat
  pcs :: "nat \<Rightarrow> pc"

text \<open>The process's variable \<^verbatim>\<open>busy\<close> is determined by its program point.\<close>

fun busy :: "pc \<Rightarrow> bool" where
  "busy In_access = True"
| "busy Accessed = True"
| "busy Posted = True"
| "busy Dying = True"
| "busy (Exiting b) = b"
| "busy _ = False"

text \<open>
  The steps of process \<open>p\<close>. A signal that is caught takes it from a program point to \<^verbatim>\<open>die\<close>, also from
  within \<^verbatim>\<open>die\<close>: the handler reads the semaphore, and posts it if the process was busy and the value is 0.
  The set \<open>S\<close> has the program points at which such signals may arrive. Any other signal ends the process
  at once, at any program point.
\<close>

inductive hub_step :: "pc set \<Rightarrow> hub \<Rightarrow> hub \<Rightarrow> bool" for S :: "pc set" where
  call: "pcs s p = Idle \<Longrightarrow> hub_step S s (s\<lparr>pcs := (pcs s)(p := Wait)\<rparr>)"
| sem_wait: "pcs s p = Wait \<Longrightarrow> sem s = Suc n \<Longrightarrow> hub_step S s (s\<lparr>sem := n, pcs := (pcs s)(p := Taken)\<rparr>)"
| set_busy: "pcs s p = Taken \<Longrightarrow> hub_step S s (s\<lparr>pcs := (pcs s)(p := In_access)\<rparr>)"
| accessed: "pcs s p = In_access \<Longrightarrow> hub_step S s (s\<lparr>pcs := (pcs s)(p := Accessed)\<rparr>)"
| sem_post: "pcs s p = Accessed \<Longrightarrow> hub_step S s (s\<lparr>sem := Suc (sem s), pcs := (pcs s)(p := Posted)\<rparr>)"
| clear_busy: "pcs s p = Posted \<Longrightarrow> hub_step S s (s\<lparr>pcs := (pcs s)(p := Idle)\<rparr>)"
| signal_post: "pcs s p \<in> S \<Longrightarrow> busy (pcs s p) \<Longrightarrow> sem s = 0 \<Longrightarrow> hub_step S s (s\<lparr>pcs := (pcs s)(p := Dying)\<rparr>)"
| signal_exit: "pcs s p \<in> S \<Longrightarrow> pcs s p \<noteq> Dead \<Longrightarrow> \<not> (busy (pcs s p) \<and> sem s = 0) \<Longrightarrow>
    hub_step S s (s\<lparr>pcs := (pcs s)(p := Exiting (busy (pcs s p)))\<rparr>)"
| die_post: "pcs s p = Dying \<Longrightarrow> hub_step S s (s\<lparr>sem := Suc (sem s), pcs := (pcs s)(p := Exiting True)\<rparr>)"
| die_exit: "pcs s p = Exiting b \<Longrightarrow> hub_step S s (s\<lparr>pcs := (pcs s)(p := Dead)\<rparr>)"
| killed: "pcs s p \<noteq> Dead \<Longrightarrow> hub_step S s (s\<lparr>pcs := (pcs s)(p := Dead)\<rparr>)"

inductive_cases hub_stepE: "hub_step S s t"

text \<open>The points where the process has given the semaphore back and is still busy.\<close>

definition posted_busy :: "pc set" where
  "posted_busy = {Posted, Exiting True}"

definition hub_start :: hub where
  "hub_start = \<lparr>sem = 1, pcs = (\<lambda>p. Idle)\<rparr>"

inductive hub_reach :: "pc set \<Rightarrow> hub \<Rightarrow> bool" for S :: "pc set" where
  start: "hub_reach S hub_start"
| step: "hub_reach S s \<Longrightarrow> hub_step S s t \<Longrightarrow> hub_reach S t"

text \<open>The processes that have taken the semaphore and not given it back.\<close>

fun holding :: "pc \<Rightarrow> bool" where
  "holding Taken = True"
| "holding In_access = True"
| "holding Accessed = True"
| "holding Dying = True"
| "holding _ = False"

definition holders :: "(nat \<Rightarrow> pc) \<Rightarrow> nat set" where
  "holders f = {p. holding (f p)}"

text \<open>
  Nobody holds the semaphore, or one process does and it is at 0. A process that ends while it holds the
  semaphore leaves it at 0 with no holder.
\<close>

definition hub_inv :: "hub \<Rightarrow> bool" where
  "hub_inv s \<longleftrightarrow> sem s \<le> 1 \<and> (holders (pcs s) = {} \<or> sem s = 0 \<and> (\<exists>p. holders (pcs s) = {p}))"

lemma holders_upd: "holders (f(p := x)) = (if holding x then insert p (holders f) else holders f - {p})"
  by (auto simp: holders_def)

lemma holders_mem: "p \<in> holders f \<longleftrightarrow> holding (f p)"
  by (simp add: holders_def)

text \<open>
  A step that does not change who holds the semaphore, one that takes it, one that gives it back, one
  after which the process does not hold it.
\<close>

lemma hub_inv_keep:
  "hub_inv s \<Longrightarrow> holding (pcs s p) \<Longrightarrow> holding x \<Longrightarrow> hub_inv (s\<lparr>pcs := (pcs s)(p := x)\<rparr>)"
  by (auto simp: hub_inv_def holders_upd holders_mem insert_absorb)

lemma hub_inv_take:
  "hub_inv s \<Longrightarrow> sem s = Suc n \<Longrightarrow> holding x \<Longrightarrow> hub_inv (s\<lparr>sem := n, pcs := (pcs s)(p := x)\<rparr>)"
  by (auto simp: hub_inv_def holders_upd)

lemma hub_inv_give:
  assumes "hub_inv s" and "holding (pcs s p)" and "\<not> holding x"
  shows "hub_inv (s\<lparr>sem := Suc (sem s), pcs := (pcs s)(p := x)\<rparr>)"
proof -
  have "p \<in> holders (pcs s)" using assms(2) by (simp add: holders_mem)
  with assms show ?thesis by (auto simp: hub_inv_def holders_upd)
qed

lemma hub_inv_drop: "hub_inv s \<Longrightarrow> \<not> holding x \<Longrightarrow> hub_inv (s\<lparr>pcs := (pcs s)(p := x)\<rparr>)"
  by (auto simp: hub_inv_def holders_upd)

text \<open>A process that is busy has not given the semaphore back, except at \<open>posted_busy\<close>.\<close>

lemma busy_holding: "busy x \<Longrightarrow> x \<notin> posted_busy \<Longrightarrow> holding x"
  by (cases x) (auto simp: posted_busy_def)

lemma hub_step_inv:
  assumes "hub_step S s t" and "hub_inv s" and "S \<inter> posted_busy = {}"
  shows "hub_inv t"
  using assms(1)
proof cases
  case (signal_post p)
  then have "holding (pcs s p)" using assms(3) busy_holding by blast
  with signal_post assms(2) show ?thesis by (simp add: hub_inv_keep)
qed (use assms(2) in \<open>simp_all add: hub_inv_keep hub_inv_take hub_inv_give hub_inv_drop\<close>)

lemma hub_reach_inv: "hub_reach S s \<Longrightarrow> S \<inter> posted_busy = {} \<Longrightarrow> hub_inv s"
proof (induction rule: hub_reach.induct)
  case start
  show ?case by (simp add: hub_start_def hub_inv_def holders_def)
next
  case (step s t)
  then show ?case using hub_step_inv by blast
qed

section \<open>Properties\<close>

text \<open>
  C25: as long as no caught signal arrives while the process is still busy after \<^verbatim>\<open>sem_post\<close> (between the
  \<^verbatim>\<open>sem_post\<close> of an access and \<^verbatim>\<open>busy = false\<close>, or between the \<^verbatim>\<open>sem_post\<close> of the handler and \<^verbatim>\<open>exit\<close>), at any
  time at most one process has taken the semaphore and not given it back: from \<^verbatim>\<open>sem_wait\<close> to \<^verbatim>\<open>sem_post\<close>
  of an access, or in the handler on the way to its \<^verbatim>\<open>sem_post\<close>. The semaphore never exceeds 1, and it is at
  0 while a process has it. Signals may arrive at all other points, and processes may be killed anywhere.
\<close>

theorem memhub_mutual_exclusion:
  assumes "hub_reach (- {Posted, Exiting True}) s"
  shows "sem s \<le> 1 \<and> (\<exists>p. {q. pcs s q \<in> {Taken, In_access, Accessed, Dying}} \<subseteq> {p}) \<and>
    ((\<exists>q. pcs s q \<in> {Taken, In_access, Accessed, Dying}) \<longrightarrow> sem s = 0)"
proof -
  have "hub_inv s" by (rule hub_reach_inv [OF assms]) (simp add: posted_busy_def)
  moreover have "{q. pcs s q \<in> {Taken, In_access, Accessed, Dying}} \<subseteq> holders (pcs s)" by (auto simp: holders_def)
  ultimately show ?thesis by (auto simp: hub_inv_def)
qed

text \<open>Runs of the protocol, for the witness and the counterexample.\<close>

lemma hub_run1: "hub_reach S \<lparr>sem = 0, pcs = (\<lambda>p. Idle)(1 := In_access)\<rparr>"
proof -
  have "hub_reach S (hub_start\<lparr>pcs := (\<lambda>p. Idle)(1 := Wait)\<rparr>)"
    using hub_reach.step [OF hub_reach.start hub_step.call, of 1] by (simp add: hub_start_def)
  from hub_reach.step [OF this hub_step.sem_wait, of 1 0]
  have "hub_reach S \<lparr>sem = 0, pcs = (\<lambda>p. Idle)(1 := Taken)\<rparr>" by (simp add: hub_start_def)
  from hub_reach.step [OF this hub_step.set_busy, of 1] show ?thesis by simp
qed

text \<open>A process in its access while another waits and is then killed.\<close>

lemma hub_run2: "hub_reach S \<lparr>sem = 0, pcs = (\<lambda>p. Idle)(1 := In_access, 2 := Dead)\<rparr>"
proof -
  from hub_reach.step [OF hub_run1 [of S] hub_step.call, of 2]
  have "hub_reach S \<lparr>sem = 0, pcs = (\<lambda>p. Idle)(1 := In_access, 2 := Wait)\<rparr>" by simp
  from hub_reach.step [OF this hub_step.killed, of 2] show ?thesis by simp
qed

theorem memhub_mutual_exclusion_witness:
  "\<exists>s. hub_reach (- {Posted, Exiting True}) s \<and> pcs s 1 = In_access \<and> pcs s 2 = Dead \<and> sem s = 0 \<and>
    (\<exists>p. {q. pcs s q \<in> {Taken, In_access, Accessed, Dying}} \<subseteq> {p})"
  using memhub_mutual_exclusion [OF hub_run2] hub_run2 [of "- {Posted, Exiting True}"]
  by (intro exI [of _ "\<lparr>sem = 0, pcs = (\<lambda>p. Idle)(1 := In_access, 2 := Dead)\<rparr>"] conjI) (assumption | simp)+

text \<open>
  C26: when a signal may also arrive between \<^verbatim>\<open>sem_post\<close> and \<^verbatim>\<open>busy = false\<close>, exclusion can be lost: two
  processes are in an access at the same time. The handler sees the process still busy and the
  semaphore at 0, taken by another process, and posts it a second time.
\<close>

theorem memhub_exclusion_lost:
  "\<exists>s. hub_reach {Posted} s \<and> pcs s 2 = In_access \<and> pcs s 3 = In_access"
proof -
  define f where "f x y z = (\<lambda>p :: nat. if p = 1 then x else if p = 2 then y else if p = 3 then z else Idle)" for x y z
  let ?r = "\<lambda>n x y z. hub_reach {Posted} \<lparr>sem = n, pcs = f x y z\<rparr>"
  have upd: "f x y z 1 = x" "f x y z 2 = y" "f x y z 3 = z" "(f x y z)(1 := a) = f a y z" "(f x y z)(2 := a) = f x a z"
      "(f x y z)(3 := a) = f x y a" for x y z a
    by (auto simp: f_def fun_eq_iff)
  have "(\<lambda>p. Idle)(1 := In_access) = f In_access Idle Idle" by (auto simp: f_def fun_eq_iff)
  with hub_run1 [of "{Posted}"] have "?r 0 In_access Idle Idle" by simp
  from hub_reach.step [OF this hub_step.accessed, of 1] have "?r 0 Accessed Idle Idle" by (simp add: upd del: One_nat_def)
  from hub_reach.step [OF this hub_step.sem_post, of 1] have "?r (Suc 0) Posted Idle Idle" by (simp add: upd del: One_nat_def)
  from hub_reach.step [OF this hub_step.call, of 2] have "?r (Suc 0) Posted Wait Idle" by (simp add: upd del: One_nat_def)
  from hub_reach.step [OF this hub_step.sem_wait, of 2 0] have "?r 0 Posted Taken Idle" by (simp add: upd del: One_nat_def)
  from hub_reach.step [OF this hub_step.set_busy, of 2] have "?r 0 Posted In_access Idle" by (simp add: upd del: One_nat_def)
  from hub_reach.step [OF this hub_step.signal_post, of 1] have "?r 0 Dying In_access Idle" by (simp add: upd del: One_nat_def)
  from hub_reach.step [OF this hub_step.die_post, of 1] have "?r (Suc 0) (Exiting True) In_access Idle" by (simp add: upd del: One_nat_def)
  from hub_reach.step [OF this hub_step.call, of 3] have "?r (Suc 0) (Exiting True) In_access Wait" by (simp add: upd del: One_nat_def)
  from hub_reach.step [OF this hub_step.sem_wait, of 3 0] have "?r 0 (Exiting True) In_access Taken" by (simp add: upd del: One_nat_def)
  from hub_reach.step [OF this hub_step.set_busy, of 3] have "?r 0 (Exiting True) In_access In_access" by (simp add: upd del: One_nat_def)
  then show ?thesis by (intro exI conjI) (assumption, simp_all add: upd)
qed

end
