(* ===== verification/Hub_Atomicity.thy ===== *)
theory Hub_Atomicity
  imports Mem_Hub Mem_Svc_Access
begin

text \<open>
  Accesses of several processes through the memory hub, word by word. The protocol of \<open>Mem_Hub\<close> is extended
  by the registers and by the loops of \<^verbatim>\<open>memsvc_read\<close> and \<^verbatim>\<open>memsvc_write\<close>, whose rounds may interleave with the
  steps of all other processes, and end at any round when the process is killed. What is observable is
  the same as if the accesses were made one after the other, in one step each.
\<close>

section \<open>Accesses\<close>

text \<open>Reading the register \<open>n\<close> times, or writing the words to it in turn: the loops do not advance the address.\<close>

datatype access = Acc_read u32 nat | Acc_write u32 "u32 list"

fun acc_size :: "access \<Rightarrow> nat" where
  "acc_size (Acc_read a n) = n"
| "acc_size (Acc_write a ws) = length ws"

fun is_read :: "access \<Rightarrow> bool" where
  "is_read (Acc_read a n) = True"
| "is_read (Acc_write a ws) = False"

text \<open>The access as far as its first \<open>k\<close> rounds.\<close>

fun upto_round :: "nat \<Rightarrow> access \<Rightarrow> access" where
  "upto_round k (Acc_read a n) = Acc_read a (min k n)"
| "upto_round k (Acc_write a ws) = Acc_write a (take k ws)"

lemma upto_round_size [simp]: "upto_round (acc_size x) x = x"
  by (cases x) simp_all

text \<open>Round \<open>k\<close> on the registers: the words it returns and the registers after it.\<close>

fun acc_round :: "access \<Rightarrow> nat \<Rightarrow> (u32 \<Rightarrow> u32) \<Rightarrow> u32 list \<times> (u32 \<Rightarrow> u32)" where
  "acc_round (Acc_read a n) k m = ([m a], m)"
| "acc_round (Acc_write a ws) k m = ([], m(a := ws ! k))"

text \<open>A whole access in one step.\<close>

fun run_access :: "access \<Rightarrow> (u32 \<Rightarrow> u32) \<Rightarrow> u32 list \<times> (u32 \<Rightarrow> u32)" where
  "run_access (Acc_read a n) m = (replicate n (m a), m)"
| "run_access (Acc_write a ws) m = ([], if ws = [] then m else m(a := last ws))"

lemma run_access_round:
  assumes "k < acc_size x" and "run_access (upto_round k x) m = (got, m1)"
  shows "run_access (upto_round (Suc k) x) m = (got @ fst (acc_round x k m1), snd (acc_round x k m1))"
proof (cases x)
  case (Acc_read a n)
  with assms show ?thesis by (auto simp: min_def replicate_append_same less_Suc_eq_le)
next
  case (Acc_write a ws)
  with assms have "take (Suc k) ws = take k ws @ [ws ! k]" by (simp add: take_Suc_conv_app_nth)
  with Acc_write assms(2) show ?thesis by (auto split: if_splits)
qed

text \<open>The loops of the memory service on plain registers are these accesses.\<close>

lemma write_words_access:
  assumes "i + n = length ws"
  shows "write_words plain_memory a n i ws m = Written (snd (run_access (Acc_write a (drop i ws)) m))"
  using assms
proof (induction n arbitrary: i m)
  case (Suc n)
  then have "drop i ws = ws ! i # drop (Suc i) ws" by (simp add: Cons_nth_drop_Suc)
  with Suc show ?case by (auto simp: plain_memory_def)
qed simp

lemma read_words_access:
  "read_words plain_memory a (length xs) 0 xs m = Some (0, fst (run_access (Acc_read a (length xs)) m), m)"
  using read_words_plain [of 0 "length xs" xs] by (simp add: overwrite_def)

section \<open>Processes\<close>

text \<open>
  The program points of \<open>Mem_Hub\<close> with the access under way, the rounds of its loop that are done and the
  words they have returned; in the handler, what is still to be recorded. \<open>history\<close> records the accesses
  in the order in which the semaphore is given back, or the process ends.
\<close>

datatype proc =
    P_idle
  | P_wait access
  | P_taken access
  | P_access access nat "u32 list"
  | P_accessed access "u32 list"
  | P_posted
  | P_dying "(access \<times> u32 list) list"
  | P_exiting bool
  | P_dead

record sys =
  sys_sem :: nat
  sys_mem :: "u32 \<Rightarrow> u32"
  procs :: "nat \<Rightarrow> proc"
  history :: "(access \<times> u32 list) list"

text \<open>The program point of \<open>Mem_Hub\<close>, and the part of its access that a process has done and not recorded.\<close>

fun point :: "proc \<Rightarrow> pc" where
  "point P_idle = Idle"
| "point (P_wait x) = Wait"
| "point (P_taken x) = Taken"
| "point (P_access x k got) = In_access"
| "point (P_accessed x got) = Accessed"
| "point P_posted = Posted"
| "point (P_dying l) = Dying"
| "point (P_exiting b) = Exiting b"
| "point P_dead = Dead"

fun pending :: "proc \<Rightarrow> (access \<times> u32 list) list" where
  "pending (P_access x k got) = [(upto_round k x, got)]"
| "pending (P_accessed x got) = [(x, got)]"
| "pending (P_dying l) = l"
| "pending _ = []"

text \<open>
  The steps. An access may be refused before its first round, and a bus error ends a read early. As in
  \<open>Mem_Hub\<close>, a caught signal may arrive at the points in \<open>S\<close>, and any other signal ends the process at any
  point; an access that is cut short is recorded as far as it has come.
\<close>

inductive sys_step :: "pc set \<Rightarrow> sys \<Rightarrow> sys \<Rightarrow> bool" for S :: "pc set" where
  call: "procs s p = P_idle \<Longrightarrow> sys_step S s (s\<lparr>procs := (procs s)(p := P_wait x)\<rparr>)"
| sem_wait: "procs s p = P_wait x \<Longrightarrow> sys_sem s = Suc n \<Longrightarrow>
    sys_step S s (s\<lparr>sys_sem := n, procs := (procs s)(p := P_taken x)\<rparr>)"
| set_busy: "procs s p = P_taken x \<Longrightarrow> sys_step S s (s\<lparr>procs := (procs s)(p := P_access x 0 [])\<rparr>)"
| round: "procs s p = P_access x k got \<Longrightarrow> k < acc_size x \<Longrightarrow>
    sys_step S s (s\<lparr>sys_mem := snd (acc_round x k (sys_mem s)),
      procs := (procs s)(p := P_access x (Suc k) (got @ fst (acc_round x k (sys_mem s))))\<rparr>)"
| finished: "procs s p = P_access x (acc_size x) got \<Longrightarrow> sys_step S s (s\<lparr>procs := (procs s)(p := P_accessed x got)\<rparr>)"
| stopped: "procs s p = P_access x k got \<Longrightarrow> k = 0 \<or> is_read x \<Longrightarrow>
    sys_step S s (s\<lparr>procs := (procs s)(p := P_accessed (upto_round k x) got)\<rparr>)"
| sem_post: "procs s p = P_accessed x got \<Longrightarrow>
    sys_step S s (s\<lparr>sys_sem := Suc (sys_sem s), procs := (procs s)(p := P_posted), history := history s @ [(x, got)]\<rparr>)"
| clear_busy: "procs s p = P_posted \<Longrightarrow> sys_step S s (s\<lparr>procs := (procs s)(p := P_idle)\<rparr>)"
| signal_post: "point (procs s p) \<in> S \<Longrightarrow> busy (point (procs s p)) \<Longrightarrow> sys_sem s = 0 \<Longrightarrow>
    sys_step S s (s\<lparr>procs := (procs s)(p := P_dying (pending (procs s p)))\<rparr>)"
| signal_exit: "point (procs s p) \<in> S \<Longrightarrow> procs s p \<noteq> P_dead \<Longrightarrow> \<not> (busy (point (procs s p)) \<and> sys_sem s = 0) \<Longrightarrow>
    sys_step S s (s\<lparr>procs := (procs s)(p := P_exiting (busy (point (procs s p)))), history := history s @ pending (procs s p)\<rparr>)"
| die_post: "procs s p = P_dying l \<Longrightarrow>
    sys_step S s (s\<lparr>sys_sem := Suc (sys_sem s), procs := (procs s)(p := P_exiting True), history := history s @ l\<rparr>)"
| die_exit: "procs s p = P_exiting b \<Longrightarrow> sys_step S s (s\<lparr>procs := (procs s)(p := P_dead)\<rparr>)"
| killed: "procs s p \<noteq> P_dead \<Longrightarrow>
    sys_step S s (s\<lparr>procs := (procs s)(p := P_dead), history := history s @ pending (procs s p)\<rparr>)"

text \<open>Forgetting the registers and the accesses gives the protocol of the hub.\<close>

definition hub_of :: "sys \<Rightarrow> hub" where
  "hub_of s = \<lparr>sem = sys_sem s, pcs = point \<circ> procs s\<rparr>"

lemma hub_of_simps [simp]: "sem (hub_of s) = sys_sem s" "pcs (hub_of s) = point \<circ> procs s"
  by (simp_all add: hub_of_def)

lemma point_Dead [simp]: "point x = Dead \<longleftrightarrow> x = P_dead"
  by (cases x) simp_all

lemmas hub_step_rules = hub_step.intros [where s = "\<lparr>sem = n, pcs = f\<rparr>" for n f, simplified]

lemma sys_step_hub:
  assumes "sys_step S s t"
  shows "hub_of t = hub_of s \<or> hub_step S (hub_of s) (hub_of t)"
  using assms
proof cases
  case (signal_exit p)
  with hub_step.signal_exit [of "hub_of s" p S] show ?thesis by (simp add: hub_of_def fun_upd_comp)
qed (auto simp: hub_of_def fun_upd_comp intro: hub_step_rules)

section \<open>One access after the other\<close>

text \<open>Executing recorded accesses in one step each: \<open>None\<close> when one of them did not return what it should.\<close>

fun run_log :: "(access \<times> u32 list) list \<Rightarrow> (u32 \<Rightarrow> u32) \<Rightarrow> (u32 \<Rightarrow> u32) option" where
  "run_log [] m = Some m"
| "run_log ((x, got) # l) m = (if fst (run_access x m) = got then run_log l (snd (run_access x m)) else None)"

lemma run_log_snoc:
  "run_log (l @ [(x, got)]) m = Some m' \<longleftrightarrow> (\<exists>m1. run_log l m = Some m1 \<and> run_access x m1 = (got, m'))"
  by (induction l m rule: run_log.induct) (auto simp: prod_eq_iff)

text \<open>What is under way: nothing, or what the process that holds the semaphore has done.\<close>

definition underway :: "(nat \<Rightarrow> proc) \<Rightarrow> (access \<times> u32 list) list \<Rightarrow> bool" where
  "underway f l \<longleftrightarrow>
     (holders (point \<circ> f) = {} \<and> l = []) \<or> (\<exists>p. holders (point \<circ> f) = {p} \<and> l = pending (f p))"

definition serial :: "(u32 \<Rightarrow> u32) \<Rightarrow> sys \<Rightarrow> bool" where
  "serial m0 s \<longleftrightarrow> hub_inv (hub_of s) \<and> (\<forall>l. underway (procs s) l \<longrightarrow> run_log (history s @ l) m0 = Some (sys_mem s))"

text \<open>The process that steps is not the holder, it is the holder, or there is none.\<close>

lemma underway_other:
  "\<not> holding (point (f p)) \<Longrightarrow> \<not> holding (point x) \<Longrightarrow> underway (f(p := x)) l \<longleftrightarrow> underway f l"
  by (auto simp: underway_def fun_upd_comp holders_upd holders_def split: if_splits)

lemma underway_update:
  assumes "holders (point \<circ> f) \<subseteq> {p}"
  shows "underway (f(p := x)) l \<longleftrightarrow> l = (if holding (point x) then pending x else [])"
proof -
  have "holders (point \<circ> (f(p := x))) = (if holding (point x) then {p} else {})"
    using assms by (auto simp: fun_upd_comp holders_upd)
  then show ?thesis by (auto simp: underway_def)
qed

lemma holder_only: "hub_inv (hub_of s) \<Longrightarrow> holding (point (procs s p)) \<Longrightarrow> holders (point \<circ> procs s) = {p}"
  using holders_mem [of p "point \<circ> procs s"] by (auto simp: hub_inv_def)

lemma nobody_holds: "hub_inv (hub_of s) \<Longrightarrow> sys_sem s = Suc n \<Longrightarrow> holders (point \<circ> procs s) = {}"
  by (auto simp: hub_inv_def)

lemma underway_holder: "hub_inv (hub_of s) \<Longrightarrow> holding (point (procs s p)) \<Longrightarrow> underway (procs s) (pending (procs s p))"
  using holder_only [of s p] by (auto simp: underway_def)

lemma serial_holder:
  assumes "serial m0 s" and "holding (point (procs s p))" and "procs s p = q"
  shows "run_log (history s @ pending q) m0 = Some (sys_mem s)"
  using assms underway_holder [of s p] by (auto simp: serial_def)

text \<open>The holder records what is pending, or it keeps it.\<close>

lemma serial_move:
  assumes "serial m0 s" and "procs s p = q" and "holding (point q)" and "underway ((procs s)(p := x)) l"
    and "if holding (point x) then h = history s \<and> pending x = pending q else h = history s @ pending q"
  shows "run_log (h @ l) m0 = Some (sys_mem s)"
proof -
  have "holders (point \<circ> procs s) \<subseteq> {p}" using assms(1-3) holder_only [of s p] by (simp add: serial_def)
  with assms serial_holder [of m0 s p q] show ?thesis by (simp add: underway_update split: if_splits)
qed

text \<open>A process that ends, whether it holds the semaphore or not.\<close>

lemma pending_Nil: "\<not> holding (point q) \<Longrightarrow> pending q = []"
  by (cases q) simp_all

lemma serial_end:
  assumes "serial m0 s" and "\<not> holding (point x)" and "underway ((procs s)(p := x)) l"
  shows "run_log (history s @ pending (procs s p) @ l) m0 = Some (sys_mem s)"
proof (cases "holding (point (procs s p))")
  case True
  then show ?thesis using serial_move [OF assms(1) refl True assms(3), of "history s @ pending (procs s p)"] assms(2) by simp
next
  case False
  then show ?thesis using assms by (simp add: pending_Nil serial_def underway_other)
qed

lemma run_access_start: "run_access (upto_round 0 x) m = ([], m)"
  by (cases x) simp_all

text \<open>Taking the semaphore and entering the access leave nothing new; a round adds to what is pending.\<close>

lemma serial_taken:
  assumes "serial m0 s" and "sys_sem s = Suc n" and "underway ((procs s)(p := P_taken x)) l"
  shows "run_log (history s @ l) m0 = Some (sys_mem s)"
proof -
  have "holders (point \<circ> procs s) = {}" using assms(1,2) nobody_holds [of s n] by (simp add: serial_def)
  moreover from this have "underway (procs s) []" by (simp add: underway_def)
  ultimately show ?thesis using assms by (auto simp: serial_def underway_update)
qed

lemma serial_enter:
  assumes "serial m0 s" and "procs s p = P_taken x" and "underway ((procs s)(p := P_access x 0 [])) l"
  shows "run_log (history s @ l) m0 = Some (sys_mem s)"
proof -
  have "holders (point \<circ> procs s) = {p}" using assms(1,2) by (intro holder_only) (simp_all add: serial_def)
  with assms serial_holder [OF assms(1), of p] show ?thesis by (simp add: underway_update run_log_snoc run_access_start)
qed

lemma serial_round:
  assumes "serial m0 s" and "procs s p = P_access x k got" and "k < acc_size x"
    and "underway ((procs s)(p := P_access x (Suc k) (got @ fst (acc_round x k (sys_mem s))))) l"
  shows "run_log (history s @ l) m0 = Some (snd (acc_round x k (sys_mem s)))"
proof -
  obtain m1 where "run_log (history s) m0 = Some m1" "run_access (upto_round k x) m1 = (got, sys_mem s)"
    using serial_holder [OF assms(1), of p] assms(2) by (auto simp: run_log_snoc)
  moreover have "holders (point \<circ> procs s) = {p}" using assms(1,2) by (intro holder_only) (simp_all add: serial_def)
  ultimately show ?thesis
    using run_access_round [OF assms(3), of m1 got "sys_mem s"] assms(4)
    by (simp add: underway_update run_log_snoc)
qed

lemma serial_step_log:
  assumes "sys_step S s t" and "serial m0 s" and "underway (procs t) l" and "S \<inter> posted_busy = {}"
  shows "run_log (history t @ l) m0 = Some (sys_mem t)"
  using assms(1)
proof cases
  case (sem_wait p x n)
  with assms serial_taken [of m0 s n p x l] show ?thesis by simp
next
  case (set_busy p x)
  with assms serial_enter [of m0 s p x l] show ?thesis by simp
next
  case (round p x k got)
  with assms serial_round [of m0 s p x k got l] show ?thesis by simp
next
  case (finished p x got)
  with assms serial_move [of m0 s p _ "P_accessed x got" l "history s"] show ?thesis by simp
next
  case (stopped p x k got)
  with assms serial_move [of m0 s p _ "P_accessed (upto_round k x) got" l "history s"] show ?thesis by simp
next
  case (sem_post p x got)
  with assms serial_move [of m0 s p _ P_posted l "history s @ [(x, got)]"] show ?thesis by simp
next
  case (signal_post p)
  then have "holding (point (procs s p))" using assms(4) busy_holding by blast
  with signal_post assms(2,3) serial_move [of m0 s p _ "P_dying (pending (procs s p))" l "history s"] show ?thesis by simp
next
  case (signal_exit p)
  with assms(2,3) serial_end [of m0 s "P_exiting (busy (point (procs s p)))" p l] show ?thesis by simp
next
  case (die_post p l')
  with assms serial_move [of m0 s p "P_dying l'" "P_exiting True" l "history s @ l'"] show ?thesis by simp
next
  case (killed p)
  with assms(2,3) serial_end [of m0 s P_dead p l] show ?thesis by simp
qed (use assms(2,3) in \<open>auto simp: serial_def underway_other\<close>)

lemma serial_step:
  assumes "sys_step S s t" and "serial m0 s" and "S \<inter> posted_busy = {}"
  shows "serial m0 t"
  using sys_step_hub [OF assms(1)] hub_step_inv [OF _ _ assms(3), of "hub_of s" "hub_of t"]
    serial_step_log [OF assms(1,2) _ assms(3)] assms(2)
  by (auto simp: serial_def)

section \<open>Property\<close>

inductive sys_reach :: "pc set \<Rightarrow> (u32 \<Rightarrow> u32) \<Rightarrow> sys \<Rightarrow> bool" for S :: "pc set" and m0 :: "u32 \<Rightarrow> u32" where
  start: "sys_reach S m0 \<lparr>sys_sem = 1, sys_mem = m0, procs = (\<lambda>p. P_idle), history = []\<rparr>"
| step: "sys_reach S m0 s \<Longrightarrow> sys_step S s t \<Longrightarrow> sys_reach S m0 t"

lemma sys_reach_serial: "sys_reach S m0 s \<Longrightarrow> S \<inter> posted_busy = {} \<Longrightarrow> serial m0 s"
proof (induction rule: sys_reach.induct)
  case start
  have "holders (point \<circ> (\<lambda>p. P_idle)) = {}" by (simp add: holders_def)
  then show ?case by (simp add: serial_def hub_inv_def underway_def)
next
  case (step s t)
  then show ?case using serial_step by blast
qed

text \<open>
  C7: accesses of any number of processes through the hub are atomic, although their loops interleave and
  processes are killed in the middle of them, as long as no caught signal arrives while a process is still
  busy after \<^verbatim>\<open>sem_post\<close> (the points where exclusion can be lost): at every moment the registers, and
  the words every recorded access has returned, are those of the recorded accesses executed one after the
  other in one step each, an access that was cut short as far as it had come, followed by what the one
  process in the hub has done of its access. Caught signals may arrive at all other points, between
  \<^verbatim>\<open>sem_wait\<close> and \<^verbatim>\<open>busy = true\<close> among them, and uncaught ones may end a process anywhere.
\<close>

theorem hub_accesses_atomic:
  assumes "sys_reach (- {Posted, Exiting True}) m0 s"
  shows "\<exists>l. underway (procs s) l \<and> run_log (history s @ l) m0 = Some (sys_mem s)"
proof -
  have "serial m0 s" by (rule sys_reach_serial [OF assms]) (simp add: posted_busy_def)
  moreover from this have "\<exists>l. underway (procs s) l" by (auto simp: serial_def hub_inv_def underway_def)
  ultimately show ?thesis by (auto simp: serial_def)
qed

text \<open>Process 1 is in the middle of a write of two words.\<close>

lemma sys_run:
  "sys_reach S (\<lambda>a. 0) \<lparr>sys_sem = 0, sys_mem = (\<lambda>a. 0)(4 := 7),
     procs = (\<lambda>p. P_idle)(1 := P_access (Acc_write 4 [7, 8]) 1 []), history = []\<rparr>"
proof -
  let ?r = "\<lambda>n m x. sys_reach S (\<lambda>a. 0) \<lparr>sys_sem = n, sys_mem = m, procs = (\<lambda>p. P_idle)(1 := x), history = []\<rparr>"
  from sys_reach.step [OF sys_reach.start [of S "\<lambda>a. 0"] sys_step.call [where p = 1 and x = "Acc_write 4 [7, 8]"]]
  have "?r 1 (\<lambda>a. 0) (P_wait (Acc_write 4 [7, 8]))" by simp
  from sys_reach.step [OF this sys_step.sem_wait [where p = 1 and x = "Acc_write 4 [7, 8]" and n = 0]]
  have "?r 0 (\<lambda>a. 0) (P_taken (Acc_write 4 [7, 8]))" by simp
  from sys_reach.step [OF this sys_step.set_busy [where p = 1 and x = "Acc_write 4 [7, 8]"]]
  have "?r 0 (\<lambda>a. 0) (P_access (Acc_write 4 [7, 8]) 0 [])" by simp
  from sys_reach.step [OF this sys_step.round [where p = 1 and x = "Acc_write 4 [7, 8]" and k = 0 and got = "[]"]]
  show ?thesis by simp
qed

theorem hub_accesses_atomic_witness:
  "\<exists>s. sys_reach (- {Posted, Exiting True}) (\<lambda>a. 0) s \<and> procs s 1 = P_access (Acc_write 4 [7, 8]) 1 [] \<and> sys_mem s 4 = 7 \<and>
    (\<exists>l. underway (procs s) l \<and> run_log (history s @ l) (\<lambda>a. 0) = Some (sys_mem s))"
  using hub_accesses_atomic [OF sys_run] sys_run [of "- {Posted, Exiting True}"]
  by (intro exI [of _ "\<lparr>sys_sem = 0, sys_mem = (\<lambda>a. 0)(4 := 7),
     procs = (\<lambda>p. P_idle)(1 := P_access (Acc_write 4 [7, 8]) 1 []), history = []\<rparr>"] conjI) (assumption | simp)+

end
