(* ===== verification/IPBus_Client.thy ===== *)
theory IPBus_Client
  imports Mem_Hub
begin

text \<open>
  \<^verbatim>\<open>xcompile/ipbus/Client.h\<close> and \<^verbatim>\<open>Client.cpp\<close>: one connection of the IPbus server. Bytes from the
  socket are gathered in \<^verbatim>\<open>ibuf\<close>, frames are cut out of it, decoded and executed against the memory
  hub, and the encoded responses are appended to \<^verbatim>\<open>obuf\<close>.

  The deques are lists. The memory hub is reached through a record of its two operations, \<open>bus\<close>, which
  \<open>memhub_bus\<close> fills with the model of \<^verbatim>\<open>memhub.cpp\<close>; a \<open>None\<close> of an operation means that the process
  ended. The host is little-endian, as the card is.
\<close>

section \<open>Transaction headers\<close>

record IPBusTxnHdr =
  transaction_id :: u16
  protocol_version :: u8
  words :: u8
  type_id :: u8
  info_code :: u8

definition SUCCESS :: u8 where "SUCCESS = 0"
definition BAD_HEADER :: u8 where "BAD_HEADER = 1"
definition BUSERR_READ :: u8 where "BUSERR_READ = 4"
definition BUSERR_WRITE :: u8 where "BUSERR_WRITE = 5"

definition IPBusTxnHdr_of :: "u32 \<Rightarrow> IPBusTxnHdr" where
  "IPBusTxnHdr_of transaction_header = \<lparr>
     transaction_id = ucast (drop_bit 16 transaction_header AND 0x0fff),
     protocol_version = ucast (drop_bit 28 transaction_header AND 0x0f),
     words = ucast (drop_bit 8 transaction_header AND 0xff),
     type_id = ucast (drop_bit 4 transaction_header AND 0x0f),
     info_code = ucast (transaction_header AND 0x0f)\<rparr>"

definition serialize :: "IPBusTxnHdr \<Rightarrow> u32" where
  "serialize h =
     push_bit 28 (ucast (protocol_version h) AND 0x0f) OR
     push_bit 16 (ucast (transaction_id h) AND 0x0fff) OR
     push_bit 8 (ucast (words h) AND 0xff) OR
     push_bit 4 (ucast (type_id h) AND 0x0f) OR
     (ucast (info_code h) AND 0x0f)"

section \<open>Bytes and words\<close>

definition bytes_of_u32 :: "u32 \<Rightarrow> u8 list" where
  "bytes_of_u32 w = [ucast w, ucast (drop_bit 8 w), ucast (drop_bit 16 w), ucast (drop_bit 24 w)]"

definition u32_of_bytes :: "u8 \<Rightarrow> u8 \<Rightarrow> u8 \<Rightarrow> u8 \<Rightarrow> u32" where
  "u32_of_bytes a b c d = ucast a OR push_bit 8 (ucast b) OR push_bit 16 (ucast c) OR push_bit 24 (ucast d)"

definition bswap32 :: "u32 \<Rightarrow> u32" where
  "bswap32 w = u32_of_bytes (ucast (drop_bit 24 w)) (ucast (drop_bit 16 w)) (ucast (drop_bit 8 w)) (ucast w)"

text \<open>
  \<^verbatim>\<open>str2vec\<close> reads four bytes at every fourth offset. Past the end of the string only the
  terminating NUL may be read, so a last group of one or two bytes is undefined.
\<close>

fun str2vec :: "u8 list \<Rightarrow> u32 list option" where
  "str2vec [] = Some []"
| "str2vec [a, b, c] = Some [u32_of_bytes a b c 0]"
| "str2vec (a # b # c # d # bs) = map_option (\<lambda>ws. u32_of_bytes a b c d # ws) (str2vec bs)"
| "str2vec _ = None"

definition vec2str :: "u32 list \<Rightarrow> u8 list" where
  "vec2str vec = concat (map bytes_of_u32 vec)"

definition endian_swap :: "u32 list \<Rightarrow> u32 list" where
  "endian_swap = map bswap32"

section \<open>Transactions\<close>

record 's bus =
  bus_read :: "'s \<Rightarrow> u32 \<Rightarrow> nat \<Rightarrow> (u32 list option \<times> 's) option"
  bus_write :: "'s \<Rightarrow> u32 \<Rightarrow> u32 list \<Rightarrow> (bool \<times> 's) option"

text \<open>
  The outcome of processing: the rest of the request, the response and the memory; the end of the
  process; or undefined behaviour.
\<close>

datatype 's txn = Txn "u32 list" "u32 list" 's | Txn_died | Txn_undefined

definition modifyAddress :: "u32 \<Rightarrow> u32" where
  "modifyAddress base_addr = push_bit 2 base_addr + 0x64000000"

definition reply :: "IPBusTxnHdr \<Rightarrow> u8 \<Rightarrow> u32" where
  "reply h code = serialize (h\<lparr>info_code := code\<rparr>)"

definition process_read_txn :: "'s bus \<Rightarrow> IPBusTxnHdr \<Rightarrow> u32 list \<Rightarrow> u32 list \<Rightarrow> 's \<Rightarrow> 's txn" where
  "process_read_txn B h request response s =
     (case request of
        [] \<Rightarrow> Txn request (response @ [reply h BAD_HEADER]) s
      | a # request' \<Rightarrow>
          (case bus_read B s (modifyAddress a) (unat (words h)) of
             None \<Rightarrow> Txn_died
           | Some (Some data, s') \<Rightarrow> Txn request' (response @ [reply h SUCCESS] @ data) s'
           | Some (None, s') \<Rightarrow> Txn request' (response @ [reply h BUSERR_READ]) s'))"

definition process_write_txn :: "'s bus \<Rightarrow> IPBusTxnHdr \<Rightarrow> u32 list \<Rightarrow> u32 list \<Rightarrow> 's \<Rightarrow> 's txn" where
  "process_write_txn B h request response s =
     (if length request < 1 + unat (words h)
      then Txn request (response @ [reply h BAD_HEADER]) s
      else let a = hd request; data = take (unat (words h)) (tl request); request' = drop (unat (words h)) (tl request)
        in case bus_write B s (modifyAddress a) data of
             None \<Rightarrow> Txn_died
           | Some (True, s') \<Rightarrow> Txn request' (response @ [reply h SUCCESS]) s'
           | Some (False, s') \<Rightarrow> Txn request' (response @ [reply h BUSERR_READ]) s')"

text \<open>The loop of \<^verbatim>\<open>process_niread_txn\<close>: the words read so far are dropped when a read fails.\<close>

fun niread_loop :: "'s bus \<Rightarrow> u32 \<Rightarrow> nat \<Rightarrow> 's \<Rightarrow> (u32 list option \<times> 's) option" where
  "niread_loop B a 0 s = Some (Some [], s)"
| "niread_loop B a (Suc n) s =
     (case bus_read B s a 1 of
        None \<Rightarrow> None
      | Some (None, s') \<Rightarrow> Some (None, s')
      | Some (Some data, s') \<Rightarrow>
          (case niread_loop B a n s' of
             None \<Rightarrow> None
           | Some (None, s'') \<Rightarrow> Some (None, s'')
           | Some (Some rest, s'') \<Rightarrow> Some (Some (data @ rest), s'')))"

definition process_niread_txn :: "'s bus \<Rightarrow> IPBusTxnHdr \<Rightarrow> u32 list \<Rightarrow> u32 list \<Rightarrow> 's \<Rightarrow> 's txn" where
  "process_niread_txn B h request response s =
     (case request of
        [] \<Rightarrow> Txn request (response @ [reply h BAD_HEADER]) s
      | a # request' \<Rightarrow>
          (case niread_loop B (modifyAddress a) (unat (words h)) s of
             None \<Rightarrow> Txn_died
           | Some (Some data, s') \<Rightarrow> Txn request' (response @ [reply h SUCCESS] @ data) s'
           | Some (None, s') \<Rightarrow> Txn request' (response @ [reply h BUSERR_READ]) s'))"

text \<open>
  The loop of \<^verbatim>\<open>process_niwrite_txn\<close> consumes the request word by word and stops at a failed write,
  leaving the words after it in the request.
\<close>

fun niwrite_loop :: "'s bus \<Rightarrow> u32 \<Rightarrow> nat \<Rightarrow> u32 list \<Rightarrow> 's \<Rightarrow> (bool \<times> u32 list \<times> 's) option" where
  "niwrite_loop B a 0 request s = Some (True, request, s)"
| "niwrite_loop B a (Suc n) request s =
     (case request of
        [] \<Rightarrow> None
      | w # request' \<Rightarrow>
          (case bus_write B s a [w] of
             None \<Rightarrow> None
           | Some (False, s') \<Rightarrow> Some (False, request', s')
           | Some (True, s') \<Rightarrow> niwrite_loop B a n request' s'))"

definition process_niwrite_txn :: "'s bus \<Rightarrow> IPBusTxnHdr \<Rightarrow> u32 list \<Rightarrow> u32 list \<Rightarrow> 's \<Rightarrow> 's txn" where
  "process_niwrite_txn B h request response s =
     (if length request < 1 + unat (words h)
      then Txn request (response @ [reply h BAD_HEADER]) s
      else case niwrite_loop B (modifyAddress (hd request)) (unat (words h)) (tl request) s of
             None \<Rightarrow> Txn_died
           | Some (True, request', s') \<Rightarrow> Txn request' (response @ [reply h SUCCESS]) s'
           | Some (False, request', s') \<Rightarrow> Txn request' (response @ [reply h BUSERR_WRITE]) s')"

text \<open>The read-modify-write transactions share everything but the new value.\<close>

definition rmw :: "'s bus \<Rightarrow> IPBusTxnHdr \<Rightarrow> u32 \<Rightarrow> (u32 \<Rightarrow> u32) \<Rightarrow> u32 list \<Rightarrow> u32 list \<Rightarrow> 's \<Rightarrow> 's txn" where
  "rmw B h a f request response s =
     (case bus_read B s a 1 of
        None \<Rightarrow> Txn_died
      | Some (None, s') \<Rightarrow> Txn request (response @ [reply h BUSERR_READ]) s'
      | Some (Some data, s') \<Rightarrow>
          (case bus_write B s' a [f (hd data)] of
             None \<Rightarrow> Txn_died
           | Some (False, s'') \<Rightarrow> Txn request (response @ [reply h BUSERR_WRITE]) s''
           | Some (True, s'') \<Rightarrow> Txn request (response @ [reply h SUCCESS, hd data]) s''))"

definition process_rmwbits_txn :: "'s bus \<Rightarrow> IPBusTxnHdr \<Rightarrow> u32 list \<Rightarrow> u32 list \<Rightarrow> 's \<Rightarrow> 's txn" where
  "process_rmwbits_txn B h request response s =
     (case request of
        a # and_term # or_term # request' \<Rightarrow>
          if words h \<noteq> 1 then Txn request (response @ [reply h BAD_HEADER]) s
          else rmw B h (modifyAddress a) (\<lambda>predata. (predata AND and_term) OR or_term) request' response s
      | _ \<Rightarrow> Txn request (response @ [reply h BAD_HEADER]) s)"

definition process_rmwsum_txn :: "'s bus \<Rightarrow> IPBusTxnHdr \<Rightarrow> u32 list \<Rightarrow> u32 list \<Rightarrow> 's \<Rightarrow> 's txn" where
  "process_rmwsum_txn B h request response s =
     (case request of
        a # addend # request' \<Rightarrow>
          if words h \<noteq> 1 then Txn request (response @ [reply h BAD_HEADER]) s
          else rmw B h (modifyAddress a) (\<lambda>predata. predata + addend) request' response s
      | _ \<Rightarrow> Txn request (response @ [reply h BAD_HEADER]) s)"

definition process_cfgread_txn :: "'s bus \<Rightarrow> IPBusTxnHdr \<Rightarrow> u32 list \<Rightarrow> u32 list \<Rightarrow> 's \<Rightarrow> 's txn" where
  "process_cfgread_txn B h request response s =
     (case request of
        [] \<Rightarrow> Txn request (response @ [reply h BAD_HEADER]) s
      | a # request' \<Rightarrow> Txn request' (response @ [reply h SUCCESS] @ replicate (unat (words h)) 0) s)"

text \<open>
  \<^verbatim>\<open>process_cfgwrite_txn\<close> pops the data words from the front of the \<^emph>\<open>response\<close>: with fewer words there
  the deque is popped while empty, which is undefined; the data words stay in the request.
\<close>

definition process_cfgwrite_txn :: "'s bus \<Rightarrow> IPBusTxnHdr \<Rightarrow> u32 list \<Rightarrow> u32 list \<Rightarrow> 's \<Rightarrow> 's txn" where
  "process_cfgwrite_txn B h request response s =
     (if length request < 1 + unat (words h)
      then Txn request (response @ [reply h BAD_HEADER]) s
      else if length response < unat (words h) then Txn_undefined
      else Txn (tl request) (drop (unat (words h)) response @ [reply h SUCCESS]) s)"

definition process_txn :: "'s bus \<Rightarrow> IPBusTxnHdr \<Rightarrow> u32 list \<Rightarrow> u32 list \<Rightarrow> 's \<Rightarrow> 's txn" where
  "process_txn B h request response s =
     (if type_id h = 0 then process_read_txn B h request response s
      else if type_id h = 1 then process_write_txn B h request response s
      else if type_id h = 2 then process_niread_txn B h request response s
      else if type_id h = 3 then process_niwrite_txn B h request response s
      else if type_id h = 4 then process_rmwbits_txn B h request response s
      else if type_id h = 5 then process_rmwsum_txn B h request response s
      else if type_id h = 6 then process_cfgread_txn B h request response s
      else if type_id h = 7 then process_cfgwrite_txn B h request response s
      else Txn request (response @ [reply h BAD_HEADER]) s)"

text \<open>No transaction makes the request longer.\<close>

lemma niwrite_loop_shrinks:
  "niwrite_loop B a n request s = Some (ok, request', s') \<Longrightarrow> length request' \<le> length request"
proof (induction n arbitrary: request s)
  case 0
  then show ?case by simp
next
  case (Suc n)
  then show ?case
    by (cases request) (auto split: option.splits prod.splits bool.splits intro: le_SucI)
qed

lemma rmw_request: "rmw B h a f request response s = Txn request' response' s' \<Longrightarrow> request' = request"
  by (auto simp: rmw_def split: option.splits prod.splits bool.splits)

lemma process_txn_shrinks:
  assumes "process_txn B h request response s = Txn request' response' s'"
  shows "length request' \<le> length request"
proof -
  have niwrite: "length request' \<le> length request"
    if "process_niwrite_txn B h request response s = Txn request' response' s'"
    using that niwrite_loop_shrinks [of B "modifyAddress (hd request)" "unat (words h)" "tl request" s]
    by (force simp: process_niwrite_txn_def split: if_splits option.splits prod.splits bool.splits)
  have rmws: "length request' \<le> length request"
    if "process_rmwbits_txn B h request response s = Txn request' response' s' \<or>
      process_rmwsum_txn B h request response s = Txn request' response' s'"
    using that
    by (auto simp: process_rmwbits_txn_def process_rmwsum_txn_def dest: rmw_request split: if_splits list.splits)
  from assms niwrite rmws show ?thesis
    by (auto simp: process_txn_def process_read_txn_def process_write_txn_def process_niread_txn_def
        process_cfgread_txn_def process_cfgwrite_txn_def Let_def
        split: if_splits list.splits option.splits prod.splits bool.splits)
qed

section \<open>Packets and frames\<close>

function process_control_loop :: "'s bus \<Rightarrow> u32 list \<Rightarrow> u32 list \<Rightarrow> 's \<Rightarrow> 's txn" where
  "process_control_loop B [] response s = Txn [] response s"
| "process_control_loop B (w # request) response s =
     (let h = IPBusTxnHdr_of w
      in if protocol_version h \<noteq> 2 then Txn request [] s
         else if info_code h \<noteq> 0xf then Txn request [] s
         else case process_txn B h request response s of
             Txn request' response' s' \<Rightarrow> process_control_loop B request' response' s'
           | Txn_died \<Rightarrow> Txn_died
           | Txn_undefined \<Rightarrow> Txn_undefined)"
  by pat_completeness auto

termination
  by (relation "measure (\<lambda>(B, request, response, s). length request)")
    (auto dest: process_txn_shrinks [OF sym] process_txn_shrinks)

definition process_control_packet :: "'s bus \<Rightarrow> u32 list \<Rightarrow> u32 list \<Rightarrow> 's \<Rightarrow> 's txn" where
  "process_control_packet B request response s =
     (if length request < 1 then Txn request response s else process_control_loop B request response s)"

definition process_status_packet :: "u32 list \<Rightarrow> u32 list \<Rightarrow> 's \<Rightarrow> 's txn" where
  "process_status_packet request response s = Txn request response s"

text \<open>
  The state shared by all connections of the server: whether the memory hub was opened, and the
  memory. \<open>hub_open\<close> is the outcome of \<^verbatim>\<open>memhub_open\<close>; a failure ends the process.
\<close>

record 's server_mem =
  memsvc_inited :: bool
  memory :: 's

definition open_hub :: "('s \<Rightarrow> 's option) \<Rightarrow> 's server_mem \<Rightarrow> 's server_mem option" where
  "open_hub hub_open sv =
     (if memsvc_inited sv then Some sv
      else map_option (\<lambda>s. \<lparr>memsvc_inited = True, memory = s\<rparr>) (hub_open (memory sv)))"

datatype 's frame = Frame "u32 list" "'s server_mem" | Frame_died | Frame_undefined

definition finish_frame :: "u32 \<Rightarrow> bool \<Rightarrow> 's txn \<Rightarrow> 's frame" where
  "finish_frame packet_header reverse_endian r =
     (case r of
        Txn request response s \<Rightarrow>
          let sv = \<lparr>memsvc_inited = True, memory = s\<rparr>
          in if response = [] then Frame [] sv
             else let full = packet_header # response
               in Frame (if reverse_endian then endian_swap full else full) sv
      | Txn_died \<Rightarrow> Frame_died
      | Txn_undefined \<Rightarrow> Frame_undefined)"

definition dispatch_packet :: "'s bus \<Rightarrow> u32 \<Rightarrow> u32 list \<Rightarrow> 's \<Rightarrow> 's txn" where
  "dispatch_packet B packet_header request s =
     (let packet_type = packet_header AND 0x0f
      in if packet_type = 0 then process_control_packet B request [] s
         else if packet_type = 1 then process_status_packet request [] s
         else Txn request [] s)"

definition process_frame :: "'s bus \<Rightarrow> ('s \<Rightarrow> 's option) \<Rightarrow> u32 list \<Rightarrow> 's server_mem \<Rightarrow> 's frame" where
  "process_frame B hub_open request sv =
     (case open_hub hub_open sv of
        None \<Rightarrow> Frame_died
      | Some sv1 \<Rightarrow>
          (case request of
             [] \<Rightarrow> Frame [] sv1
           | packet_header # request1 \<Rightarrow>
               if packet_header AND 0xff0000f0 = 0x200000f0
               then finish_frame packet_header False (dispatch_packet B packet_header request1 (memory sv1))
               else if packet_header AND 0x0f0000ff = 0x0f000020
               then finish_frame (bswap32 packet_header) True
                 (dispatch_packet B (bswap32 packet_header) (endian_swap request1) (memory sv1))
               else Frame [] sv1))"

section \<open>Input and output\<close>

record client =
  ibuf :: "u8 list"
  obuf :: "u8 list"
  fd :: int

definition MAX_OBUF :: nat where "MAX_OBUF = 512 * 1024"

definition write_ready :: "client \<Rightarrow> bool" where
  "write_ready c \<longleftrightarrow> length (obuf c) \<noteq> 0"

definition read_ready :: "client \<Rightarrow> bool" where
  "read_ready c \<longleftrightarrow> length (obuf c) < MAX_OBUF"

text \<open>What \<^verbatim>\<open>recv\<close> returned: the bytes (none when the peer has closed), or an error, which may be \<^verbatim>\<open>EAGAIN\<close>.\<close>

datatype recv_result = Received "u8 list" | Recv_again | Recv_error

text \<open>The outcome of \<^verbatim>\<open>run_io\<close>: its result, the end of the process (also by an uncaught exception), undefined.\<close>

datatype 's io = Io bool client "'s server_mem" | Io_died | Io_undefined

definition frame_header :: "nat \<Rightarrow> u8 list" where
  "frame_header n = bytes_of_u32 (bswap32 (of_nat n))"

text \<open>
  The extraction of a frame. The length is read from the first four bytes of a non-empty buffer: with
  one or two bytes that reads past the string. The frame is taken when its length is \<^emph>\<open>at least\<close> the
  number of bytes after the length word; \<open>b\<close> is the width of \<^verbatim>\<open>size_t\<close>.
\<close>

definition extract_frame ::
  "nat \<Rightarrow> 's bus \<Rightarrow> ('s \<Rightarrow> 's option) \<Rightarrow> client \<Rightarrow> 's server_mem \<Rightarrow> 's io" where
  "extract_frame b B hub_open c sv =
     (case ibuf c of
        [] \<Rightarrow> Io True c sv
      | [b0] \<Rightarrow> Io_undefined
      | [b0, b1] \<Rightarrow> Io_undefined
      | b0 # b1 # b2 # bs \<Rightarrow>
          let frame_size = bswap32 (u32_of_bytes b0 b1 b2 (case bs of [] \<Rightarrow> 0 | b3 # rest \<Rightarrow> b3))
          in if int (unat frame_size) \<ge> (int (length (ibuf c)) - 4) mod 2 ^ b
             then case str2vec (take (unat frame_size) (drop 4 (ibuf c))) of
                 None \<Rightarrow> Io_undefined
               | Some req \<Rightarrow>
                   (case process_frame B hub_open req sv of
                      Frame rsp sv' \<Rightarrow>
                        Io True (c\<lparr>ibuf := drop (unat (4 + frame_size)) (ibuf c),
                          obuf := obuf c @ frame_header (4 * length rsp) @ vec2str rsp\<rparr>) sv'
                    | Frame_died \<Rightarrow> Io_died
                    | Frame_undefined \<Rightarrow> Io_undefined)
             else Io True c sv)"

text \<open>
  \<^verbatim>\<open>recv\<close> failing with \<^verbatim>\<open>EAGAIN\<close> constructs a string of length -1, which throws \<^verbatim>\<open>std::length_error\<close>;
  nothing catches it. The result \<open>sent\<close> of \<^verbatim>\<open>send\<close> (\<open>None\<close> for an error) is not tested: the error value -1
  erases the whole buffer.
\<close>

definition flush_obuf :: "nat option \<Rightarrow> 's io \<Rightarrow> 's io" where
  "flush_obuf sent r =
     (case r of
        Io ok c sv \<Rightarrow>
          if obuf c = [] then Io True c sv
          else Io True (c\<lparr>obuf := (case sent of None \<Rightarrow> [] | Some n \<Rightarrow> drop n (obuf c))\<rparr>) sv
      | r' \<Rightarrow> r')"

definition run_io ::
  "nat \<Rightarrow> 's bus \<Rightarrow> ('s \<Rightarrow> 's option) \<Rightarrow> recv_result \<Rightarrow> nat option \<Rightarrow> client \<Rightarrow> 's server_mem \<Rightarrow> 's io" where
  "run_io b B hub_open received sent c sv =
     (case received of
        Recv_error \<Rightarrow> Io False c sv
      | Recv_again \<Rightarrow> Io_died
      | Received bytes \<Rightarrow>
          flush_obuf sent (extract_frame b B hub_open (c\<lparr>ibuf := ibuf c @ bytes\<rparr>) sv))"

section \<open>The memory hub as the bus\<close>

text \<open>The caller's buffer has exactly the number of words asked for, at most 255.\<close>

definition memhub_bus :: "mem_os \<Rightarrow> 'd device \<Rightarrow> (memsvc_handle option \<times> 'd) bus" where
  "memhub_bus os dv = \<lparr>
     bus_read = (\<lambda>(h, d) a n.
       case memhub_read os dv h a (of_nat n) (replicate n 0) d of
         None \<Rightarrow> None
       | Some (rc, h', data, d') \<Rightarrow> Some (if rc = 0 then Some data else None, (h', d'))),
     bus_write = (\<lambda>(h, d) a ws.
       case memhub_write os dv h a (of_nat (length ws)) ws d of
         Returned rc h' d' \<Rightarrow> Some (rc = 0, (h', d'))
       | _ \<Rightarrow> None)\<rparr>"

end
