(* ===== verification/Register_Bus.thy ===== *)
theory Register_Bus
  imports IPBus_Properties
begin

text \<open>
  The interface between the IPbus connections and the memory hub: what the transactions rely on of the
  bus, as a locale, the correctness of the transactions proved from it, and its interpretation on the
  model of the memory hub. Packets of transactions refine an abstract register machine.
\<close>

section \<open>The bus contract\<close>

locale register_bus =
  fixes B :: "'s bus"
    and ok :: "'s \<Rightarrow> u32 \<Rightarrow> bool"
    and view :: "'s \<Rightarrow> u32 \<Rightarrow> u32"
    and inv :: "'s \<Rightarrow> bool"
  assumes bus_read_ok: "inv s \<Longrightarrow> ok s a \<Longrightarrow>
      \<exists>s'. bus_read B s a 1 = Some (Some [view s a], s') \<and> inv s' \<and> view s' = view s \<and> ok s' = ok s"
    and bus_write_ok: "inv s \<Longrightarrow> ok s a \<Longrightarrow>
      \<exists>s'. bus_write B s a [v] = Some (True, s') \<and> inv s' \<and> view s' = (view s)(a := v) \<and> ok s' = ok s"

text \<open>A bus that keeps the contract is a word memory.\<close>

definition rd_of_bus :: "'s bus \<Rightarrow> 's \<Rightarrow> u32 \<Rightarrow> u32 option \<times> 's" where
  "rd_of_bus B s a =
     (case bus_read B s a 1 of Some (Some (w # ws), s') \<Rightarrow> (Some w, s') | Some (_, s') \<Rightarrow> (None, s') | None \<Rightarrow> (None, s))"

definition wr_of_bus :: "'s bus \<Rightarrow> 's \<Rightarrow> u32 \<Rightarrow> u32 \<Rightarrow> bool \<times> 's" where
  "wr_of_bus B s a v = (case bus_write B s a [v] of Some r \<Rightarrow> r | None \<Rightarrow> (False, s))"

sublocale register_bus \<subseteq> word_memory "rd_of_bus B" "wr_of_bus B" ok view inv
proof
  fix s a
  assume "inv s" and "ok s a"
  then show "\<exists>s'. rd_of_bus B s a = (Some (view s a), s') \<and> inv s' \<and> view s' = view s \<and> ok s' = ok s"
    using bus_read_ok [of s a] by (auto simp: rd_of_bus_def)
next
  fix s a v
  assume "inv s" and "ok s a"
  then show "\<exists>s'. wr_of_bus B s a v = (True, s') \<and> inv s' \<and> view s' = (view s)(a := v) \<and> ok s' = ok s"
    using bus_write_ok [of s a v] by (auto simp: wr_of_bus_def)
qed

context register_bus
begin

lemma niread_loop_ok:
  assumes "inv s" and "ok s a"
  shows "\<exists>s'. niread_loop B a n s = Some (Some (replicate n (view s a)), s') \<and> inv s' \<and> view s' = view s \<and> ok s' = ok s"
  using assms
proof (induction n arbitrary: s)
  case 0
  then show ?case by simp
next
  case (Suc n)
  obtain s1 where "bus_read B s a 1 = Some (Some [view s a], s1)" "inv s1" "view s1 = view s" "ok s1 = ok s"
    using bus_read_ok [OF Suc.prems] by blast
  with Suc.IH [of s1] Suc.prems(2) show ?case by auto
qed

lemma niwrite_loop_ok:
  assumes "inv s" and "ok s a"
  shows "\<exists>s'. niwrite_loop B a (length ws) (ws @ rest) s = Some (True, rest, s') \<and> inv s' \<and>
    view s' = fold (\<lambda>w m. m(a := w)) ws (view s) \<and> ok s' = ok s"
  using assms
proof (induction ws arbitrary: s)
  case Nil
  then show ?case by simp
next
  case (Cons w ws)
  obtain s1 where "bus_write B s a [w] = Some (True, s1)" "inv s1" "view s1 = (view s)(a := w)" "ok s1 = ok s"
    using bus_write_ok [OF Cons.prems] by blast
  with Cons.IH [of s1] Cons.prems(2) show ?case by auto
qed

lemma rmw_ok:
  assumes "inv s" and "ok s a"
  shows "\<exists>s'. rmw B h a f request response s = Txn request (response @ [reply h SUCCESS, view s a]) s' \<and>
    inv s' \<and> view s' = (view s)(a := f (view s a)) \<and> ok s' = ok s"
proof -
  obtain s1 where "bus_read B s a 1 = Some (Some [view s a], s1)" and s1: "inv s1" "view s1 = view s" "ok s1 = ok s"
    using bus_read_ok [OF assms] by blast
  moreover obtain s2 where "bus_write B s1 a [f (view s a)] = Some (True, s2)" "inv s2"
      "view s2 = (view s)(a := f (view s a))" "ok s2 = ok s"
    using bus_write_ok [OF s1(1), of a "f (view s a)"] s1 assms(2) by auto
  ultimately show ?thesis by (auto simp: rmw_def)
qed

end

section \<open>The abstract register machine\<close>

text \<open>
  The operations of the machine: reading and writing one register, reading and writing one register
  several times (the non-incrementing transactions), and the two read-modify-write operations. Incrementing
  reads and writes of several words are transactions of the server's model, \<^verbatim>\<open>IPBus_Client\<close>, and not operations
  of this machine: the library below reads the same register for every word.
\<close>

datatype register_op =
    Op_read u32
  | Op_write u32 u32
  | Op_niread u32 nat
  | Op_niwrite u32 "u32 list"
  | Op_rmwbits u32 u32 u32
  | Op_rmwsum u32 u32

fun op_addr :: "register_op \<Rightarrow> u32" where
  "op_addr (Op_read a) = modifyAddress a"
| "op_addr (Op_write a v) = modifyAddress a"
| "op_addr (Op_niread a n) = modifyAddress a"
| "op_addr (Op_niwrite a ws) = modifyAddress a"
| "op_addr (Op_rmwbits a x y) = modifyAddress a"
| "op_addr (Op_rmwsum a x) = modifyAddress a"

fun op_words :: "register_op \<Rightarrow> nat" where
  "op_words (Op_niread a n) = n"
| "op_words (Op_niwrite a ws) = length ws"
| "op_words _ = 1"

fun op_type :: "register_op \<Rightarrow> u8" where
  "op_type (Op_read a) = 0"
| "op_type (Op_write a v) = 1"
| "op_type (Op_niread a n) = 2"
| "op_type (Op_niwrite a ws) = 3"
| "op_type (Op_rmwbits a x y) = 4"
| "op_type (Op_rmwsum a x) = 5"

fun op_args :: "register_op \<Rightarrow> u32 list" where
  "op_args (Op_read a) = [a]"
| "op_args (Op_write a v) = [a, v]"
| "op_args (Op_niread a n) = [a]"
| "op_args (Op_niwrite a ws) = a # ws"
| "op_args (Op_rmwbits a x y) = [a, x, y]"
| "op_args (Op_rmwsum a x) = [a, x]"

definition op_header :: "u16 \<Rightarrow> register_op \<Rightarrow> u8 \<Rightarrow> IPBusTxnHdr" where
  "op_header i p code = \<lparr>transaction_id = i, protocol_version = 2, words = of_nat (op_words p), type_id = op_type p,
     info_code = code\<rparr>"

definition op_request :: "u16 \<times> register_op \<Rightarrow> u32 list" where
  "op_request ip = serialize (op_header (fst ip) (snd ip) 0xf) # op_args (snd ip)"

lemma op_request_pair: "op_request (i, p) = serialize (op_header i p 0xf) # op_args p"
  by (simp add: op_request_def)

text \<open>What an operation answers and does on the registers.\<close>

fun op_data :: "register_op \<Rightarrow> (u32 \<Rightarrow> u32) \<Rightarrow> u32 list" where
  "op_data (Op_read a) m = [m (modifyAddress a)]"
| "op_data (Op_niread a n) m = replicate n (m (modifyAddress a))"
| "op_data (Op_rmwbits a x y) m = [m (modifyAddress a)]"
| "op_data (Op_rmwsum a x) m = [m (modifyAddress a)]"
| "op_data _ m = []"

fun op_effect :: "register_op \<Rightarrow> (u32 \<Rightarrow> u32) \<Rightarrow> u32 \<Rightarrow> u32" where
  "op_effect (Op_write a v) m = m(modifyAddress a := v)"
| "op_effect (Op_niwrite a ws) m = (if ws = [] then m else m(modifyAddress a := last ws))"
| "op_effect (Op_rmwbits a x y) m = m(modifyAddress a := (m (modifyAddress a) AND x) OR y)"
| "op_effect (Op_rmwsum a x) m = m(modifyAddress a := m (modifyAddress a) + x)"
| "op_effect _ m = m"

fun run_ops :: "(u16 \<times> register_op) list \<Rightarrow> (u32 \<Rightarrow> u32) \<Rightarrow> u32 list \<times> (u32 \<Rightarrow> u32)" where
  "run_ops [] m = ([], m)"
| "run_ops ((i, p) # ops) m =
     (case run_ops ops (op_effect p m) of
        (out, m') \<Rightarrow> (serialize (op_header i p SUCCESS) # op_data p m @ out, m'))"

definition op_ok :: "(u32 \<Rightarrow> bool) \<Rightarrow> u16 \<times> register_op \<Rightarrow> bool" where
  "op_ok P ip \<longleftrightarrow> P (op_addr (snd ip)) \<and> op_words (snd ip) < 256 \<and> unat (fst ip) < 4096"

lemma fold_update_last: "fold (\<lambda>w m. m(a := w)) ws m = (if ws = [] then m else m(a := last ws))"
  by (induction ws arbitrary: m) auto

lemma take_bit_small: "unat (x :: 'a::len word) < 2 ^ n \<Longrightarrow> take_bit n x = x"
  by (metis take_bit_nat_eq_self_iff unsigned_take_bit_eq word_unat_eq_iff)

lemma wf_op_header: "unat i < 4096 \<Longrightarrow> unat code < 16 \<Longrightarrow> wf_header (op_header i p code)"
  by (cases p) (simp_all add: wf_header_def op_header_def take_bit_small)

lemma op_header_read [simp]: "unat i < 4096 \<Longrightarrow> IPBusTxnHdr_of (serialize (op_header i p 0xf)) = op_header i p 0xf"
  by (simp add: header_of_serialize wf_op_header)

lemmas process_defs = process_txn_def op_header_def reply_def process_read_txn_def process_write_txn_def
  process_niread_txn_def process_niwrite_txn_def process_rmwbits_txn_def process_rmwsum_txn_def

context register_bus
begin

lemma process_op:
  assumes "inv s" and "op_ok (ok s) (i, p)"
  shows "\<exists>s'. process_txn B (op_header i p 0xf) (op_args p @ rest) response s =
      Txn rest (response @ serialize (op_header i p SUCCESS) # op_data p (view s)) s' \<and>
    inv s' \<and> view s' = op_effect p (view s) \<and> ok s' = ok s"
proof -
  have a: "ok s (op_addr p)" and n: "unat (of_nat (op_words p) :: u8) = op_words p"
    using assms(2) by (simp_all add: op_ok_def unat_of_nat)
  note ok = assms(1) a
  show ?thesis
  proof (cases p)
    case (Op_read a)
    with bus_read_ok [OF ok] show ?thesis by (auto simp: process_defs)
  next
    case (Op_write a v)
    with bus_write_ok [OF ok, of v] show ?thesis by (auto simp: process_defs)
  next
    case (Op_niread a m)
    with niread_loop_ok [OF ok, of m] n show ?thesis by (auto simp: process_defs)
  next
    case (Op_niwrite a ws)
    with niwrite_loop_ok [OF ok, of ws rest] n show ?thesis by (auto simp: process_defs fold_update_last)
  next
    case (Op_rmwbits a x y)
    with rmw_ok [OF ok, of "op_header i p 0xf" "\<lambda>v. (v AND x) OR y" rest response] show ?thesis
      by (auto simp: process_defs)
  next
    case (Op_rmwsum a x)
    with rmw_ok [OF ok, of "op_header i p 0xf" "\<lambda>v. v + x" rest response] show ?thesis by (auto simp: process_defs)
  qed
qed

lemma process_ops:
  assumes "inv s" and "\<And>ip. ip \<in> set ops \<Longrightarrow> op_ok (ok s) ip"
  shows "\<exists>s'. process_control_loop B (concat (map op_request ops)) response s =
      Txn [] (response @ fst (run_ops ops (view s))) s' \<and>
    inv s' \<and> view s' = snd (run_ops ops (view s)) \<and> ok s' = ok s"
  using assms
proof (induction ops arbitrary: response s)
  case Nil
  then show ?case by simp
next
  case (Cons ip ops)
  obtain i p where ip: "ip = (i, p)" by force
  have ok: "op_ok (ok s) (i, p)" using Cons.prems(2) ip by simp
  then have i: "unat i < 4096" by (simp add: op_ok_def)
  obtain s1 where s1: "process_txn B (op_header i p 0xf) (op_args p @ concat (map op_request ops)) response s =
      Txn (concat (map op_request ops)) (response @ serialize (op_header i p SUCCESS) # op_data p (view s)) s1"
      "inv s1" "view s1 = op_effect p (view s)" "ok s1 = ok s"
    using process_op [OF Cons.prems(1) ok, of "concat (map op_request ops)" response] by blast
  have "protocol_version (op_header i p 0xf) = 2" "info_code (op_header i p 0xf) = 0xf"
    by (simp_all add: op_header_def)
  with s1 i ip Cons.IH [of s1 "response @ serialize (op_header i p SUCCESS) # op_data p (view s)"] Cons.prems(2)
  show ?case by (auto simp: op_request_pair Let_def split: prod.split)
qed

end

section \<open>The memory hub keeps the contract\<close>

lemma memsvc_read_one:
  "memsvc_read os dv h a 1 [x] d = Some (0, h', data, d') \<Longrightarrow> data = [hd data]"
  by (auto simp: memsvc_read_def split: prod.splits option.splits if_splits)

lemma hub_bus_read:
  assumes "svc_inv s" and "svc_ok os s a"
  shows "\<exists>s'. bus_read (memhub_bus os plain_memory) s a 1 = Some (Some [snd s a], s') \<and>
    svc_inv s' \<and> snd s' = snd s \<and> svc_ok os s' = svc_ok os s"
proof -
  obtain h d where s: "s = (h, d)" by force
  obtain h' d' where rd: "svc_rd os (h, d) a = (Some (d a), (h', d'))" and s': "svc_inv (h', d')" "d' = d" "svc_ok os (h', d') = svc_ok os s"
    using svc_rd_ok [OF assms] s by auto
  obtain data where data: "memsvc_read os plain_memory h a 1 [0] d = Some (0, h', data, d')" "hd data = d a"
    using svc_rd_Some [OF rd] by blast
  with memsvc_read_one [OF data(1)] have "data = [d a]" by simp
  with data s s' show ?thesis by (simp add: memhub_bus_def memhub_read_def)
qed

lemma hub_bus_write:
  assumes "svc_inv s" and "svc_ok os s a"
  shows "\<exists>s'. bus_write (memhub_bus os plain_memory) s a [v] = Some (True, s') \<and>
    svc_inv s' \<and> snd s' = (snd s)(a := v) \<and> svc_ok os s' = svc_ok os s"
proof -
  obtain h d where s: "s = (h, d)" by force
  obtain h' d' where wr: "svc_wr os (h, d) a v = (True, (h', d'))" and s': "svc_inv (h', d')" "d' = d(a := v)" "svc_ok os (h', d') = svc_ok os s"
    using svc_wr_ok [OF assms, of v] s by auto
  with svc_wr_True [OF wr] s show ?thesis by (simp add: memhub_bus_def memhub_write_def)
qed

interpretation hub: register_bus "memhub_bus os plain_memory" "svc_ok os" snd svc_inv for os
  using hub_bus_read hub_bus_write by unfold_locales auto

section \<open>Properties of the transactions\<close>

lemma control_packet_loop: "process_control_packet B request response s = process_control_loop B request response s"
  by (cases request) (simp_all add: process_control_packet_def)

text \<open>
  C29: control packets refine the abstract register machine: a packet of any number of read, write,
  non-incrementing read and write and read-modify-write transactions on accessible plain registers is
  executed in order, answers exactly what the machine answers, and leaves the registers as the machine
  leaves them.
\<close>

theorem control_packet_refines:
  assumes "svc_inv s" and "\<And>ip. ip \<in> set ops \<Longrightarrow> op_ok (svc_ok os s) ip"
  shows "\<exists>s'. process_control_packet (memhub_bus os plain_memory) (concat (map op_request ops)) [] s =
      Txn [] (fst (run_ops ops (snd s))) s' \<and>
    snd s' = snd (run_ops ops (snd s)) \<and> svc_inv s' \<and> svc_ok os s' = svc_ok os s"
  using hub.process_ops [OF assms, of ops "[]"] by (auto simp: control_packet_loop)

lemma page_ops:
  "ip \<in> set [(1, Op_write 0x27000401 5), (2, Op_rmwsum 0x27000401 3), (3, Op_read 0x27000401)] \<Longrightarrow>
    op_ok (svc_ok page_os (Some page_handle, d)) ip"
proof -
  have "svc_ok page_os (Some page_handle, d) 0x1004" by (rule page_ok) (simp_all add: word_le_nat_alt)
  moreover have "modifyAddress 0x27000401 = 0x1004" by code_simp
  ultimately show "ip \<in> set [(1, Op_write 0x27000401 5), (2, Op_rmwsum 0x27000401 3), (3, Op_read 0x27000401)] \<Longrightarrow>
    op_ok (svc_ok page_os (Some page_handle, d)) ip"
    by (auto simp: op_ok_def)
qed

theorem control_packet_refines_witness:
  "\<exists>s'. process_control_packet (memhub_bus page_os plain_memory)
      (concat (map op_request [(1, Op_write 0x27000401 5), (2, Op_rmwsum 0x27000401 3), (3, Op_read 0x27000401)])) []
      (Some page_handle, \<lambda>a. 0) = Txn [] [0x20010110, 0x20020150, 5, 0x20030100, 8] s' \<and>
    snd s' 0x1004 = 8"
proof -
  have "modifyAddress 0x27000401 = 0x1004" by code_simp
  moreover have "serialize (op_header 1 (Op_write 0x27000401 5) SUCCESS) = 0x20010110"
    "serialize (op_header 2 (Op_rmwsum 0x27000401 3) SUCCESS) = 0x20020150"
    "serialize (op_header 3 (Op_read 0x27000401) SUCCESS) = 0x20030100"
    by code_simp+
  ultimately show ?thesis
    using control_packet_refines [OF page_inv [of "\<lambda>a. 0"], where os = page_os
        and ops = "[(1, Op_write 0x27000401 5), (2, Op_rmwsum 0x27000401 3), (3, Op_read 0x27000401)]", OF page_ops]
    by auto
qed

end
