(* ===== verification/IPBus_Frames.thy ===== *)
theory IPBus_Frames
  imports Register_Bus
begin

text \<open>
  Frames: what a connection does with the bytes it receives, and the error replies of the
  transactions.
\<close>

section \<open>A frame in the buffer\<close>

definition frame_of :: "u32 list \<Rightarrow> u8 list" where
  "frame_of ws = frame_header (4 * length ws) @ vec2str ws"

definition sent_of :: "nat option \<Rightarrow> u8 list \<Rightarrow> u8 list" where
  "sent_of sent bs = (case sent of None \<Rightarrow> [] | Some n \<Rightarrow> drop n bs)"

lemma length_frame_header [simp]: "length (frame_header n) = 4"
  by (simp add: frame_header_def bytes_of_u32_def)

lemma frame_of_not_Nil [simp]: "frame_of ws \<noteq> []"
  by (simp add: frame_of_def frame_header_def bytes_of_u32_def)

text \<open>The case distinction of \<open>extract_frame\<close> on a buffer of at least four bytes.\<close>

definition buffered_size :: "u8 list \<Rightarrow> u32" where
  "buffered_size bs = bswap32 (u32_of_bytes (bs ! 0) (bs ! 1) (bs ! 2) (bs ! 3))"

lemma long_list: "4 \<le> length bs \<Longrightarrow> \<exists>b0 b1 b2 b3 rest. bs = b0 # b1 # b2 # b3 # rest"
  by (metis Suc_le_length_iff numeral_eq_Suc pred_numeral_simps(2,3) semiring_norm(26,27) numeral_One One_nat_def)

lemma extract_frame_long:
  assumes "4 \<le> length (ibuf c)"
  shows "extract_frame b B hub_open c sv =
    (let frame_size = buffered_size (ibuf c)
     in if int (unat frame_size) \<ge> (int (length (ibuf c)) - 4) mod 2 ^ b
        then case str2vec (take (unat frame_size) (drop 4 (ibuf c))) of
            None \<Rightarrow> Io_undefined
          | Some req \<Rightarrow>
              (case process_frame B hub_open req sv of
                 Frame rsp sv' \<Rightarrow>
                   Io True (c\<lparr>ibuf := drop (unat (4 + frame_size)) (ibuf c), obuf := obuf c @ frame_of rsp\<rparr>) sv'
               | Frame_died \<Rightarrow> Io_died
               | Frame_undefined \<Rightarrow> Io_undefined)
        else Io True c sv)"
proof -
  obtain b0 b1 b2 b3 rest where "ibuf c = b0 # b1 # b2 # b3 # rest"
    using long_list [OF assms] by blast
  then show ?thesis
    by (simp add: extract_frame_def buffered_size_def frame_of_def Let_def numeral_2_eq_2 numeral_3_eq_3
        cong: option.case_cong frame.case_cong)
qed

lemma buffered_size_frame:
  assumes "n < 2 ^ 32"
  shows "unat (buffered_size (frame_header n @ bs)) = n"
proof -
  have "buffered_size (frame_header n @ bs) = bswap32 (bswap32 (of_nat n))"
    by (simp add: buffered_size_def frame_header_def bytes_of_u32_def numeral_2_eq_2 numeral_3_eq_3 u32_of_bytes_of_u32)
  then show ?thesis using assms by (simp add: unat_of_nat)
qed

lemma vec2str_Cons: "vec2str (w # ws) = bytes_of_u32 w @ vec2str ws" and length_bytes_of_u32: "length (bytes_of_u32 w) = 4"
  by (simp_all add: vec2str_def bytes_of_u32_def)

lemma vec2str_take: "take (4 * k) (vec2str ws) = vec2str (take k ws)"
proof (induction ws arbitrary: k)
  case Nil
  then show ?case by (simp add: vec2str_def)
next
  case (Cons w ws)
  then show ?case by (cases k) (simp_all add: vec2str_Cons length_bytes_of_u32 vec2str_def [of "[]"])
qed

lemma extract_frame_prefix:
  assumes "ibuf c = take (4 + 4 * k) (frame_of ws)" and "4 * length ws + 4 < 2 ^ 32" and "k \<le> length ws"
  shows "extract_frame b B hub_open c sv =
    (case process_frame B hub_open (take k ws) sv of
       Frame rsp sv' \<Rightarrow> Io True (c\<lparr>ibuf := [], obuf := obuf c @ frame_of rsp\<rparr>) sv'
     | Frame_died \<Rightarrow> Io_died
     | Frame_undefined \<Rightarrow> Io_undefined)"
proof -
  let ?n = "4 * length ws"
  have buf: "ibuf c = frame_header ?n @ vec2str (take k ws)"
    by (simp add: assms(1) frame_of_def vec2str_take)
  have n: "unat (buffered_size (ibuf c)) = ?n"
    using assms(2) by (simp add: buf buffered_size_frame)
  then have "unat (4 + buffered_size (ibuf c)) = ?n + 4"
    using assms(2) by (simp add: unat_word_ariths(1))
  moreover have "length (ibuf c) = 4 * k + 4"
    using assms(3) by (simp add: buf)
  moreover have "drop 4 (ibuf c) = vec2str (take k ws)"
    by (simp add: buf)
  moreover have "int (4 * k) mod 2 ^ b \<le> int ?n"
    using assms(3) zmod_le_nonneg_dividend [of "int (4 * k)" "2 ^ b"] by linarith
  moreover have "uint (buffered_size (ibuf c)) = int ?n"
    using arg_cong [OF n, of int] by simp
  ultimately show ?thesis
    using n assms(3) by (simp add: extract_frame_long str2vec_vec2str cong: frame.case_cong)
qed

lemma extract_exact_frame:
  assumes "ibuf c = frame_of ws" and "4 * length ws + 4 < 2 ^ 32"
  shows "extract_frame b B hub_open c sv =
    (case process_frame B hub_open ws sv of
       Frame rsp sv' \<Rightarrow> Io True (c\<lparr>ibuf := [], obuf := obuf c @ frame_of rsp\<rparr>) sv'
     | Frame_died \<Rightarrow> Io_died
     | Frame_undefined \<Rightarrow> Io_undefined)"
  using extract_frame_prefix [of c "length ws" ws] assms by (simp add: frame_of_def)

text \<open>A control packet in the byte order of the server.\<close>

definition packet_of :: "(u16 \<times> register_op) list \<Rightarrow> u32 list" where
  "packet_of ops = 0x200000f0 # concat (map op_request ops)"

definition answer_of :: "(u16 \<times> register_op) list \<Rightarrow> (u32 \<Rightarrow> u32) \<Rightarrow> u32 list" where
  "answer_of ops m = 0x200000f0 # fst (run_ops ops m)"

lemma run_ops_Nil_iff: "fst (run_ops ops m) = [] \<longleftrightarrow> ops = []"
  by (cases "(ops, m)" rule: run_ops.cases) (auto split: prod.split)

lemma process_frame_packet:
  assumes "svc_inv s" and "\<And>ip. ip \<in> set ops \<Longrightarrow> op_ok (svc_ok os s) ip" and "ops \<noteq> []"
  shows "\<exists>s'. process_frame (memhub_bus os plain_memory) hub_open (packet_of ops) \<lparr>memsvc_inited = True, memory = s\<rparr> =
      Frame (answer_of ops (snd s)) \<lparr>memsvc_inited = True, memory = s'\<rparr> \<and>
    snd s' = snd (run_ops ops (snd s)) \<and> svc_inv s' \<and> svc_ok os s' = svc_ok os s"
proof -
  obtain s' where s': "process_control_loop (memhub_bus os plain_memory) (concat (map op_request ops)) [] s =
      Txn [] (fst (run_ops ops (snd s))) s'"
      "snd s' = snd (run_ops ops (snd s))" "svc_inv s'" "svc_ok os s' = svc_ok os s"
    using hub.process_ops [OF assms(1,2), of ops "[]"] by auto
  then show ?thesis
    using assms(3)
    by (simp add: process_frame_def open_hub_def packet_of_def answer_of_def dispatch_packet_def finish_frame_def
        control_packet_loop Let_def run_ops_Nil_iff)
qed

section \<open>Properties of the connections\<close>

text \<open>
  C30: when the bytes received complete the buffer to exactly one frame with a packet of transactions
  on accessible plain registers, the frame is consumed, the registers are changed as the abstract
  machine says, and the frame with the machine's answers is appended to the output, of which the bytes
  that could be sent are then removed.
\<close>

theorem run_io_frame:
  assumes "svc_inv s" and "\<And>ip. ip \<in> set ops \<Longrightarrow> op_ok (svc_ok os s) ip" and "ops \<noteq> []"
    and "ibuf c @ bytes = frame_of (packet_of ops)" and "4 * length (packet_of ops) + 4 < 2 ^ 32"
  shows "\<exists>s'. run_io b (memhub_bus os plain_memory) hub_open (Received bytes) sent c \<lparr>memsvc_inited = True, memory = s\<rparr> =
      Io True (c\<lparr>ibuf := [], obuf := sent_of sent (obuf c @ frame_of (answer_of ops (snd s)))\<rparr>)
        \<lparr>memsvc_inited = True, memory = s'\<rparr> \<and>
    snd s' = snd (run_ops ops (snd s)) \<and> svc_inv s'"
proof -
  obtain s' where s': "process_frame (memhub_bus os plain_memory) hub_open (packet_of ops) \<lparr>memsvc_inited = True, memory = s\<rparr> =
      Frame (answer_of ops (snd s)) \<lparr>memsvc_inited = True, memory = s'\<rparr>"
      "snd s' = snd (run_ops ops (snd s))" "svc_inv s'"
    using process_frame_packet [OF assms(1-3), of hub_open] by blast
  then show ?thesis
    using assms(4,5)
    by (cases sent) (simp_all add: run_io_def flush_obuf_def extract_exact_frame sent_of_def)
qed

theorem run_io_frame_witness:
  "\<exists>s'. run_io 32 (memhub_bus page_os plain_memory) Some (Received (frame_of (packet_of [(3, Op_read 0x27000401)]))) (Some 0)
      \<lparr>ibuf = [], obuf = [], fd = 5\<rparr> \<lparr>memsvc_inited = True, memory = (Some page_handle, \<lambda>a. 9)\<rparr> =
    Io True \<lparr>ibuf = [], obuf = frame_of [0x200000f0, 0x20030100, 9], fd = 5\<rparr> \<lparr>memsvc_inited = True, memory = s'\<rparr>"
proof -
  have "serialize (op_header 3 (Op_read 0x27000401) SUCCESS) = 0x20030100" by code_simp
  then have "answer_of [(3, Op_read 0x27000401)] (\<lambda>a. 9) = [0x200000f0, 0x20030100, 9]"
    by (simp add: answer_of_def)
  moreover have "op_ok (svc_ok page_os (Some page_handle, \<lambda>a. 9)) ip" if "ip \<in> set [(3, Op_read 0x27000401)]" for ip
    using that page_ops [of ip] by simp
  ultimately show ?thesis
    using run_io_frame [OF page_inv [of "\<lambda>a. 9"], where ops = "[(3, Op_read 0x27000401)]" and os = page_os
        and c = "\<lparr>ibuf = [], obuf = [], fd = 5\<rparr>" and bytes = "frame_of (packet_of [(3, Op_read 0x27000401)])"
        and b = 32 and hub_open = Some and sent = "Some 0"]
    by (simp add: sent_of_def packet_of_def op_request_def) blast
qed

text \<open>Several calls of \<^verbatim>\<open>run_io\<close> in a row, each with what was received and what could be sent.\<close>

fun run_ios ::
  "nat \<Rightarrow> 's bus \<Rightarrow> ('s \<Rightarrow> 's option) \<Rightarrow> (u8 list \<times> nat option) list \<Rightarrow> client \<Rightarrow> 's server_mem \<Rightarrow> 's io" where
  "run_ios b B hub_open [] c sv = Io True c sv"
| "run_ios b B hub_open ((bytes, sent) # io) c sv =
     (case run_io b B hub_open (Received bytes) sent c sv of
        Io ok c' sv' \<Rightarrow> run_ios b B hub_open io c' sv'
      | r \<Rightarrow> r)"

text \<open>More bytes than the first frame has are in the buffer.\<close>

definition backlog :: "u8 list \<Rightarrow> bool" where
  "backlog bs \<longleftrightarrow> 4 \<le> length bs \<and> unat (buffered_size bs) + 4 < length bs"

lemma backlog_append: "backlog bs \<Longrightarrow> backlog (bs @ cs)"
  by (auto simp: backlog_def buffered_size_def nth_append)

lemma extract_backlog:
  assumes "backlog (ibuf c)" and "length (ibuf c) < 2 ^ b"
  shows "extract_frame b B hub_open c sv = Io True c sv"
proof -
  have "int (length (ibuf c)) < 2 ^ b"
    using assms(2) by (metis of_nat_less_iff of_nat_numeral of_nat_power)
  then have "int (length (ibuf c)) - 4 < 2 ^ b" by linarith
  moreover have "0 \<le> int (length (ibuf c)) - 4" using assms(1) by (simp add: backlog_def)
  ultimately have "(int (length (ibuf c)) - 4) mod 2 ^ b = int (length (ibuf c)) - 4"
    by (rule mod_pos_pos_trivial [rotated])
  moreover have "int (unat (buffered_size (ibuf c))) < int (length (ibuf c)) - 4"
    using assms(1) by (simp only: backlog_def) linarith
  ultimately show ?thesis
    using assms(1) by (simp add: extract_frame_long backlog_def)
qed

lemma run_io_backlog_step:
  assumes "backlog (ibuf c @ bytes)" and "length (ibuf c @ bytes) < 2 ^ b"
  shows "\<exists>n. run_io b B hub_open (Received bytes) sent c sv = Io True (c\<lparr>ibuf := ibuf c @ bytes, obuf := drop n (obuf c)\<rparr>) sv"
proof -
  have "extract_frame b B hub_open (c\<lparr>ibuf := ibuf c @ bytes\<rparr>) sv = Io True (c\<lparr>ibuf := ibuf c @ bytes\<rparr>) sv"
    using assms by (intro extract_backlog) simp_all
  then have "run_io b B hub_open (Received bytes) sent c sv =
      Io True (c\<lparr>ibuf := ibuf c @ bytes, obuf := drop (case sent of None \<Rightarrow> length (obuf c) | Some n \<Rightarrow> n) (obuf c)\<rparr>) sv"
    by (cases c; cases sent) (simp_all add: run_io_def flush_obuf_def)
  then show ?thesis by (rule exI)
qed

text \<open>
  C31: a connection whose buffer has more bytes than its first frame makes no progress any more: however
  many further bytes arrive, no transaction is executed and nothing is added to the output; the
  buffer only grows.
\<close>

theorem run_io_backlog:
  assumes "backlog (ibuf c)" and "length (ibuf c @ concat (map fst io)) < 2 ^ b"
  shows "\<exists>n. run_ios b B hub_open io c sv = Io True (c\<lparr>ibuf := ibuf c @ concat (map fst io), obuf := drop n (obuf c)\<rparr>) sv"
  using assms
proof (induction io arbitrary: c)
  case Nil
  have "c = c\<lparr>obuf := drop 0 (obuf c)\<rparr>" by simp
  then show ?case by (metis append_Nil2 client.surjective client.update_convs(1) concat.simps(1) list.simps(8) run_ios.simps(1))
next
  case (Cons e io)
  obtain bytes sent where e: "e = (bytes, sent)" by force
  obtain n where n: "run_io b B hub_open (Received bytes) sent c sv = Io True (c\<lparr>ibuf := ibuf c @ bytes, obuf := drop n (obuf c)\<rparr>) sv"
    using run_io_backlog_step [OF backlog_append [OF Cons.prems(1)], of bytes b B hub_open sent sv] Cons.prems(2) e by auto
  obtain m where "run_ios b B hub_open io (c\<lparr>ibuf := ibuf c @ bytes, obuf := drop n (obuf c)\<rparr>) sv =
      Io True (c\<lparr>ibuf := ibuf c @ bytes @ concat (map fst io), obuf := drop m (drop n (obuf c))\<rparr>) sv"
    using Cons.IH [of "c\<lparr>ibuf := ibuf c @ bytes, obuf := drop n (obuf c)\<rparr>"] backlog_append Cons.prems e by auto
  with n e show ?case by (auto simp: drop_drop)
qed

theorem run_io_backlog_witness:
  "\<exists>n. run_ios 32 (memhub_bus page_os plain_memory) Some [([1, 2], None), ([3], Some 1)]
      \<lparr>ibuf = [0, 0, 0, 4, 0xf0, 0, 0, 0x20, 0, 0, 0, 4], obuf = [], fd = 5\<rparr>
      \<lparr>memsvc_inited = True, memory = (Some page_handle, \<lambda>a. 9)\<rparr> =
    Io True (\<lparr>ibuf = [0, 0, 0, 4, 0xf0, 0, 0, 0x20, 0, 0, 0, 4, 1, 2, 3], obuf = drop n [], fd = 5\<rparr>)
      \<lparr>memsvc_inited = True, memory = (Some page_handle, \<lambda>a. 9)\<rparr>"
proof -
  have "backlog [0, 0, 0, 4, 0xf0, 0, 0, 0x20, 0, 0, 0, 4]"
    by (simp add: backlog_def buffered_size_def bswap32_def u32_of_bytes_def)
  then show ?thesis
    using run_io_backlog [where c = "\<lparr>ibuf = [0, 0, 0, 4, 0xf0, 0, 0, 0x20, 0, 0, 0, 4], obuf = [], fd = 5\<rparr>"
        and io = "[([1, 2], None), ([3], Some 1)]" and b = 32]
    by simp
qed

text \<open>
  A frame that has arrived in part only is executed as if the words that have arrived were all of
  it: receiving the length word and the first \<open>k\<close> words of a frame does to the connection and to the
  registers exactly what receiving the frame of those \<open>k\<close> words does.
\<close>

lemma run_io_truncated:
  assumes "ibuf c = []" and "k \<le> length ws" and "4 * length ws + 4 < 2 ^ 32"
  shows "run_io b B hub_open (Received (take (4 + 4 * k) (frame_of ws))) sent c sv =
    run_io b B hub_open (Received (frame_of (take k ws))) sent c sv"
proof -
  let ?c = "\<lambda>bs. c\<lparr>ibuf := ibuf c @ bs\<rparr>"
  let ?done = "case process_frame B hub_open (take k ws) sv of
       Frame rsp sv' \<Rightarrow> Io True (c\<lparr>ibuf := [], obuf := obuf c @ frame_of rsp\<rparr>) sv'
     | Frame_died \<Rightarrow> Io_died
     | Frame_undefined \<Rightarrow> Io_undefined"
  have "extract_frame b B hub_open (?c (take (4 + 4 * k) (frame_of ws))) sv = ?done"
    using assms by (subst extract_frame_prefix [of _ k ws]) (simp_all cong: frame.case_cong)
  moreover have "extract_frame b B hub_open (?c (frame_of (take k ws))) sv = ?done"
    using assms by (subst extract_exact_frame [of _ "take k ws"]) (simp_all cong: frame.case_cong)
  ultimately show ?thesis by (simp add: run_io_def)
qed







text \<open>
  A configuration write with data as the first transaction of a packet pops the empty response.
\<close>

lemma cfgwrite_first_undefined:
  assumes "type_id h = 7" and "0 < unat (words h)" and "unat (words h) < length request"
  shows "process_txn B h request [] s = Txn_undefined"
  using assms by (simp add: process_txn_def process_cfgwrite_txn_def)

end
