(* ===== verification/IPBus_Replies.thy ===== *)
theory IPBus_Replies
  imports IPBus_Frames
begin

text \<open>
  The replies of the server to arbitrary control packets. A client reads a reply as a sequence of
  headers, each followed by the number of words that its type, its word count and its information code
  announce. Whatever words a request consists of, the reply can be read that way.
\<close>

section \<open>Reading a reply\<close>

text \<open>The number of words after the header of a reply.\<close>

definition reply_words :: "IPBusTxnHdr \<Rightarrow> nat" where
  "reply_words h =
     (if info_code h \<noteq> SUCCESS then 0
      else if type_id h \<in> {0, 2, 6} then unat (words h)
      else if type_id h \<in> {4, 5} then 1
      else 0)"

function (sequential) decode_reply :: "u32 list \<Rightarrow> (IPBusTxnHdr \<times> u32 list) list option" where
  "decode_reply [] = Some []"
| "decode_reply (w # ws) =
     (let h = IPBusTxnHdr_of w; n = reply_words h
      in if n \<le> length ws then map_option (Cons (h, take n ws)) (decode_reply (drop n ws)) else None)"
  by pat_completeness auto

termination
  by (relation "measure length") auto

lemma decode_reply_append:
  "decode_reply xs = Some as \<Longrightarrow> decode_reply (xs @ ys) = map_option (append as) (decode_reply ys)"
proof (induction xs arbitrary: as rule: decode_reply.induct)
  case 1
  then show ?case by (simp add: option.map_ident)
next
  case (2 w xs)
  let ?n = "reply_words (IPBusTxnHdr_of w)"
  from "2.prems" have n: "?n \<le> length xs" by (auto simp: Let_def split: if_splits)
  with "2.prems" obtain bs where "decode_reply (drop ?n xs) = Some bs" "as = (IPBusTxnHdr_of w, take ?n xs) # bs"
    by (auto simp: Let_def)
  with "2.IH" [OF refl refl n] n show ?case
    by (simp add: Let_def option.map_comp comp_def)
qed

text \<open>The words of one transaction in a reply to \<open>h\<close>.\<close>

lemma wf_header_of: "wf_header (IPBusTxnHdr_of w)"
proof -
  have low: "take_bit n (ucast (x AND mask n) :: 'b::len word) = ucast (x AND mask n)" for n and x :: u32
    by (rule bit_word_eqI) (auto simp: bit_take_bit_iff bit_ucast_iff bit_and_mask)
  show ?thesis
    unfolding wf_header_def IPBusTxnHdr_of_def IPBusTxnHdr.simps mask_literals low by simp
qed

lemma info_codes: "take_bit 4 SUCCESS = SUCCESS" "take_bit 4 BAD_HEADER = BAD_HEADER"
  "take_bit 4 BUSERR_READ = BUSERR_READ" "take_bit 4 BUSERR_WRITE = BUSERR_WRITE"
  by (simp_all add: SUCCESS_def BAD_HEADER_def BUSERR_READ_def BUSERR_WRITE_def)

lemma code_neq: "BAD_HEADER \<noteq> SUCCESS" "BUSERR_READ \<noteq> SUCCESS" "BUSERR_WRITE \<noteq> SUCCESS"
  by (simp_all add: SUCCESS_def BAD_HEADER_def BUSERR_READ_def BUSERR_WRITE_def)

definition reply_codes :: "u8 set" where
  "reply_codes = {SUCCESS, BAD_HEADER, BUSERR_READ, BUSERR_WRITE}"

lemma header_of_reply:
  "wf_header h \<Longrightarrow> code \<in> reply_codes \<Longrightarrow> IPBusTxnHdr_of (reply h code) = h\<lparr>info_code := code\<rparr>"
  unfolding reply_def
  by (rule header_of_serialize) (auto simp: wf_header_def reply_codes_def info_codes)

lemma decode_one:
  assumes "wf_header h" and "code \<in> reply_codes" and "length ws = reply_words (h\<lparr>info_code := code\<rparr>)"
  shows "decode_reply (reply h code # ws) = Some [(h\<lparr>info_code := code\<rparr>, ws)]"
  using assms(3) by (simp add: header_of_reply [OF assms(1,2)] Let_def)

section \<open>The bus, as far as replies depend on it\<close>

text \<open>
  A read returns the number of words asked for or fails, and a write ends the process only if some device
  register raises a bus error.
\<close>

locale sized_bus =
  fixes B :: "'s bus" and faulty :: bool
  assumes read_sized: "n < 256 \<Longrightarrow> \<exists>r s'. bus_read B s a n = Some (r, s') \<and> (\<forall>ws. r = Some ws \<longrightarrow> length ws = n)"
    and write_total: "length ws < 256 \<Longrightarrow> bus_write B s a ws = None \<Longrightarrow> faulty"
begin

lemma read_cases:
  assumes "n < 256"
  obtains (ok) ws s' where "bus_read B s a n = Some (Some ws, s')" "length ws = n"
  | (failed) s' where "bus_read B s a n = Some (None, s')"
  using read_sized [OF assms, of s a] by (metis not_Some_eq)

lemma niread_cases:
  obtains (ok) ws s' where "niread_loop B a n s = Some (Some ws, s')" "length ws = n"
  | (failed) s' where "niread_loop B a n s = Some (None, s')"
proof -
  have "\<exists>r s'. niread_loop B a n s = Some (r, s') \<and> (\<forall>ws. r = Some ws \<longrightarrow> length ws = n)"
  proof (induction n arbitrary: s)
    case 0
    then show ?case by simp
  next
    case (Suc n)
    show ?case
    proof (rule read_cases [of 1 s a])
      fix ws s' assume "bus_read B s a 1 = Some (Some ws, s')" "length ws = 1"
      with Suc [of s'] show ?thesis by (auto split: option.split)
    qed auto
  qed
  with that show thesis by (metis not_Some_eq)
qed

lemma niwrite_cases:
  assumes "n \<le> length request"
  obtains (wrote) ok request' s' where "niwrite_loop B a n request s = Some (ok, request', s')" "set request' \<subseteq> set request"
  | (died) "niwrite_loop B a n request s = None" faulty
proof -
  have "(\<exists>ok request' s'. niwrite_loop B a n request s = Some (ok, request', s') \<and> set request' \<subseteq> set request) \<or>
      niwrite_loop B a n request s = None \<and> faulty"
    using assms
  proof (induction n arbitrary: request s)
    case 0
    then show ?case by auto
  next
    case (Suc n)
    then obtain w ws where r: "request = w # ws" "n \<le> length ws" by (cases request) auto
    show ?case
    proof (cases "bus_write B s a [w]")
      case None
      with r write_total [of "[w]" s a] show ?thesis by simp
    next
      case (Some x)
      with r Suc.IH [OF r(2), of "snd x"] show ?thesis by (cases x; cases "fst x") auto
    qed
  qed
  with that show thesis by metis
qed

end

text \<open>What every transaction but a configuration write does: it appends one header with its words to the reply.\<close>

definition answers :: "bool \<Rightarrow> IPBusTxnHdr \<Rightarrow> u32 list \<Rightarrow> u32 list \<Rightarrow> 's txn \<Rightarrow> bool" where
  "answers faulty h request response r \<longleftrightarrow>
     (case r of
        Txn request' response' s' \<Rightarrow> set request' \<subseteq> set request \<and>
          (\<exists>code ws. code \<in> reply_codes \<and> length ws = reply_words (h\<lparr>info_code := code\<rparr>) \<and>
             response' = response @ reply h code # ws)
      | Txn_died \<Rightarrow> faulty
      | Txn_undefined \<Rightarrow> False)"

lemma answersI:
  assumes "set request' \<subseteq> set request" and "code \<in> reply_codes" and "length ws = reply_words (h\<lparr>info_code := code\<rparr>)"
  shows "answers faulty h request response (Txn request' (response @ reply h code # ws) s)"
  using assms by (auto simp: answers_def)

lemma answers_error:
  assumes "set request' \<subseteq> set request" and "code \<in> {BAD_HEADER, BUSERR_READ, BUSERR_WRITE}"
  shows "answers faulty h request response (Txn request' (response @ [reply h code]) s)"
  using assms code_neq by (intro answersI) (auto simp: reply_words_def reply_codes_def)

lemma answers_success:
  assumes "set request' \<subseteq> set request" and "length ws = reply_words (h\<lparr>info_code := SUCCESS\<rparr>)"
  shows "answers faulty h request response (Txn request' (response @ reply h SUCCESS # ws) s)"
  using assms by (intro answersI) (simp_all add: reply_codes_def)

lemma answers_done:
  assumes "set request' \<subseteq> set request" and "type_id h \<in> {1, 3}"
  shows "answers faulty h request response (Txn request' (response @ [reply h SUCCESS]) s)"
  using answers_success [of request' request "[]" h] assms by (auto simp: reply_words_def)

lemma set_drop_tl: "set (drop n (tl xs)) \<subseteq> set xs" "set (tl xs) \<subseteq> set xs"
  by (cases xs; auto dest: in_set_dropD)+

context sized_bus
begin

lemma words_small: "unat (words h) < 256"
  using unsigned_less [of "words h", where ?'a = nat] by simp

lemma answers_read:
  assumes "type_id h = 0"
  shows "answers faulty h request response (process_read_txn B h request response s)"
proof (cases request)
  case (Cons a request')
  show ?thesis
    by (rule read_cases [OF words_small, of s "modifyAddress a" h])
      (use assms Cons in \<open>auto simp: process_read_txn_def reply_words_def intro!: answers_error answers_success\<close>)
qed (simp add: process_read_txn_def answers_error)

lemma answers_niread:
  assumes "type_id h = 2"
  shows "answers faulty h request response (process_niread_txn B h request response s)"
proof (cases request)
  case (Cons a request')
  show ?thesis
    by (rule niread_cases [of "modifyAddress a" "unat (words h)" s])
      (use assms Cons in \<open>auto simp: process_niread_txn_def reply_words_def intro!: answers_error answers_success\<close>)
qed (simp add: process_niread_txn_def answers_error)

lemma answers_write:
  assumes "type_id h = 1"
  shows "answers faulty h request response (process_write_txn B h request response s)"
proof (cases "length request < 1 + unat (words h)")
  case False
  let ?ws = "take (unat (words h)) (tl request)"
  show ?thesis
  proof (cases "bus_write B s (modifyAddress (hd request)) ?ws")
    case None
    moreover have "length ?ws < 256" using words_small [of h] by simp
    ultimately have faulty by (rule write_total [rotated])
    with None False show ?thesis by (simp add: process_write_txn_def Let_def answers_def)
  next
    case (Some x)
    then show ?thesis
      using False assms
      by (cases x; cases "fst x") (simp_all add: process_write_txn_def Let_def answers_error answers_done set_drop_tl)
  qed
qed (simp add: process_write_txn_def answers_error)

lemma answers_niwrite:
  assumes "type_id h = 3"
  shows "answers faulty h request response (process_niwrite_txn B h request response s)"
proof (cases "length request < 1 + unat (words h)")
  case False
  then have "unat (words h) \<le> length (tl request)" by simp
  then show ?thesis
  proof (rule niwrite_cases [of "unat (words h)" "tl request" "modifyAddress (hd request)" s])
    fix ok request' s'
    assume "niwrite_loop B (modifyAddress (hd request)) (unat (words h)) (tl request) s = Some (ok, request', s')"
      and "set request' \<subseteq> set (tl request)"
    moreover from this(2) have "set request' \<subseteq> set request" using set_drop_tl(2) [of request] by blast
    ultimately show ?thesis
      using False assms by (cases ok) (simp_all add: process_niwrite_txn_def answers_error answers_done)
  qed (use False in \<open>auto simp: process_niwrite_txn_def answers_def\<close>)
qed (simp add: process_niwrite_txn_def answers_error)

lemma answers_rmw:
  assumes "type_id h \<in> {4, 5}" and "set request' \<subseteq> set request"
  shows "answers faulty h request response (rmw B h a f request' response s)"
proof (rule read_cases [of 1 s a])
  fix ws s' assume rd: "bus_read B s a 1 = Some (Some ws, s')"
  show ?thesis
  proof (cases "bus_write B s' a [f (hd ws)]")
    case None
    with rd write_total [of "[f (hd ws)]" s' a] show ?thesis by (simp add: rmw_def answers_def)
  next
    case (Some x)
    with rd assms show ?thesis
      by (cases x; cases "fst x") (auto simp: rmw_def reply_words_def intro!: answers_error answers_success)
  qed
qed (use assms in \<open>auto simp: rmw_def intro!: answers_error\<close>)

lemma answers_txn:
  assumes "type_id h \<noteq> 7"
  shows "answers faulty h request response (process_txn B h request response s)"
proof -
  have "answers faulty h request response (process_rmwbits_txn B h request response s)" if "type_id h = 4"
    using that by (auto simp: process_rmwbits_txn_def intro!: answers_error answers_rmw split: list.split)
  moreover have "answers faulty h request response (process_rmwsum_txn B h request response s)" if "type_id h = 5"
    using that by (auto simp: process_rmwsum_txn_def intro!: answers_error answers_rmw split: list.split)
  moreover have "answers faulty h request response (process_cfgread_txn B h request response s)" if "type_id h = 6"
    using that by (auto simp: process_cfgread_txn_def reply_words_def intro!: answers_error answers_success split: list.split)
  ultimately show ?thesis
    using assms by (simp add: process_txn_def answers_read answers_write answers_niread answers_niwrite answers_error)
qed

end

section \<open>Whole packets\<close>

definition cfgwrite_request :: "u32 \<Rightarrow> bool" where
  "cfgwrite_request w \<longleftrightarrow>
     (let h = IPBusTxnHdr_of w in protocol_version h = 2 \<and> type_id h = 7 \<and> info_code h = 0xf)"

text \<open>A transaction of a reply repeats, up to the information code, a header of the request.\<close>

definition replies_to :: "u32 list \<Rightarrow> IPBusTxnHdr \<Rightarrow> bool" where
  "replies_to request h \<longleftrightarrow>
     info_code h \<in> reply_codes \<and> (\<exists>w \<in> set request. h = (IPBusTxnHdr_of w)\<lparr>info_code := info_code h\<rparr>)"

definition readable :: "u32 list \<Rightarrow> u32 list \<Rightarrow> bool" where
  "readable request response \<longleftrightarrow>
     (\<exists>txns. decode_reply response = Some txns \<and> list_all (\<lambda>(h, ws). replies_to request h) txns)"

lemma readable_Nil: "readable request []"
  by (simp add: readable_def)

lemma readable_append:
  assumes "readable request response" and "w \<in> set request" and "code \<in> reply_codes"
    and "length ws = reply_words ((IPBusTxnHdr_of w)\<lparr>info_code := code\<rparr>)"
  shows "readable request (response @ reply (IPBusTxnHdr_of w) code # ws)"
proof -
  obtain txns where txns: "decode_reply response = Some txns" "list_all (\<lambda>(h, ws). replies_to request h) txns"
    using assms(1) by (auto simp: readable_def)
  have "replies_to request ((IPBusTxnHdr_of w)\<lparr>info_code := code\<rparr>)"
    using assms(2,3) by (auto simp: replies_to_def)
  with txns decode_reply_append [OF txns(1)] decode_one [OF wf_header_of assms(3,4)] show ?thesis
    by (simp add: readable_def)
qed

lemma reply_words_le: "reply_words h \<le> 255"
  using unsigned_less [of "words h", where ?'a = nat] by (simp add: reply_words_def)

context sized_bus
begin

lemma loop_readable:
  assumes "set request \<subseteq> set all" and "readable all response" and "\<And>w. w \<in> set all \<Longrightarrow> \<not> cfgwrite_request w"
  shows "case process_control_loop B request response s of
      Txn rest response' s' \<Rightarrow> readable all response' \<and> length response' \<le> length response + 256 * length request
    | Txn_died \<Rightarrow> faulty
    | Txn_undefined \<Rightarrow> False"
  using assms(1,2)
proof (induction request arbitrary: response s rule: length_induct)
  case (1 request)
  show ?case
  proof (cases request)
    case (Cons w request1)
    let ?h = "IPBusTxnHdr_of w"
    show ?thesis
    proof (cases "protocol_version ?h = 2 \<and> info_code ?h = 0xf")
      case True
      then have "type_id ?h \<noteq> 7"
        using assms(3) [of w] "1.prems"(1) Cons by (auto simp: cfgwrite_request_def Let_def)
      note ans = answers_txn [OF this, of request1 response s]
      show ?thesis
      proof (cases "process_txn B ?h request1 response s")
        case (Txn request' response' s')
        then obtain code ws where r: "code \<in> reply_codes" "length ws = reply_words (?h\<lparr>info_code := code\<rparr>)"
            "response' = response @ reply ?h code # ws" "set request' \<subseteq> set request1"
          using ans by (auto simp: answers_def)
        have len: "length request' \<le> length request1" by (rule process_txn_shrinks [OF Txn])
        have "readable all response'"
          using readable_append [OF "1.prems"(2) _ r(1,2)] "1.prems"(1) Cons r(3) by simp
        moreover have "set request' \<subseteq> set all" using r(4) "1.prems"(1) Cons by auto
        moreover have "length response' \<le> length response + 256"
          using reply_words_le [of "?h\<lparr>info_code := code\<rparr>"] r(2,3) by simp
        ultimately show ?thesis
          using "1.IH" [rule_format, of request' response' s'] len True Cons Txn by (auto split: txn.splits)
      qed (use ans Cons True in \<open>simp_all add: answers_def\<close>)
    qed (use Cons in \<open>auto simp: Let_def readable_Nil\<close>)
  qed (use "1.prems"(2) in simp)
qed

end

section \<open>The memory hub\<close>

lemma read_words_length:
  assumes "i + n \<le> length xs"
  shows "\<exists>r xs' d'. read_words dv a n i xs d = Some (r, xs', d') \<and> length xs' = length xs"
  using assms
proof (induction n arbitrary: i xs d)
  case 0
  then show ?case by simp
next
  case (Suc n)
  show ?case
    using Suc.prems Suc.IH [of "Suc i" "xs[i := fst (dev_read dv d a)]" "snd (dev_read dv d a)"]
    by (auto split: prod.split)
qed

lemma memsvc_read_length:
  assumes "unat n = length xs"
  shows "\<exists>rc h' xs' d'. memsvc_read os dv h a n xs d = Some (rc, h', xs', d') \<and> length xs' = length xs"
proof -
  have "\<exists>r xs' d''. read_words dv a (unat n) 0 xs d' = Some (r, xs', d'') \<and> length xs' = length xs" for d'
    by (rule read_words_length) (simp add: assms)
  then show ?thesis
    unfolding memsvc_read_def
    by (auto split: prod.split option.split) (metis option.distinct(1) option.inject prod.inject)+
qed

lemma write_words_outcome:
  assumes "i + n \<le> length xs"
  shows "(\<exists>d'. write_words dv a n i xs d = Written d') \<or> (\<exists>d'. write_words dv a n i xs d = Bus_error d' \<and> dev_sigbus dv d' a)"
  using assms by (induction n arbitrary: i d) auto

lemma memsvc_write_outcome:
  assumes "unat n = length xs"
  shows "(\<exists>rc h' d'. memsvc_write os dv h a n xs d = Returned rc h' d') \<or>
    (\<exists>d'. memsvc_write os dv h a n xs d = Died d' \<and> dev_sigbus dv d' a)"
proof -
  have "(\<exists>d''. write_words dv a (unat n) 0 xs d' = Written d'') \<or>
      (\<exists>d''. write_words dv a (unat n) 0 xs d' = Bus_error d'' \<and> dev_sigbus dv d'' a)" for d'
    by (rule write_words_outcome) (simp add: assms)
  then show ?thesis
    unfolding memsvc_write_def
    by (auto split: prod.split option.split write_result.split) (metis write_result.distinct(1) write_result.distinct(3) write_result.distinct(5) write_result.inject(2))+
qed

lemma hub_read_sized:
  assumes "n < 256"
  shows "\<exists>r s'. bus_read (memhub_bus os dv) s a n = Some (r, s') \<and> (\<forall>ws. r = Some ws \<longrightarrow> length ws = n)"
proof -
  obtain h d where s: "s = (h, d)" by force
  have "unat (of_nat n :: u32) = length (replicate n (0 :: u32))" using assms by (simp add: unat_of_nat)
  from memsvc_read_length [OF this, of os dv h a d] s show ?thesis
    by (auto simp: memhub_bus_def memhub_read_def)
qed

lemma hub_write_total:
  assumes "length ws < 256" and "bus_write (memhub_bus os dv) s a ws = None"
  shows "\<exists>d a. dev_sigbus dv d a"
proof -
  obtain h d where s: "s = (h, d)" by force
  have "unat (of_nat (length ws) :: u32) = length ws" using assms(1) by (simp add: unat_of_nat)
  from memsvc_write_outcome [OF this, of os dv h a d] s assms(2) show ?thesis
    by (auto simp: memhub_bus_def memhub_write_def)
qed

interpretation hub_sized: sized_bus "memhub_bus os dv" "\<exists>d a. dev_sigbus dv d a" for os dv
  using hub_read_sized hub_write_total by unfold_locales blast+

section \<open>Property\<close>

text \<open>
  C11: the server's answer to any control packet without a configuration write, whatever its words are, on
  any device: there is no undefined behaviour, the process ends only if a register of the device raises a
  bus error, and the reply can be read as headers with the number of words each of them announces, every
  header repeating one of the request but for an information code that is one of the four defined ones. A
  reply has at most 256 words per word of the request.
\<close>

theorem control_packet_readable:
  assumes "\<And>w. w \<in> set request \<Longrightarrow> \<not> cfgwrite_request w"
  shows "case process_control_packet (memhub_bus os dv) request [] s of
      Txn rest response s' \<Rightarrow> readable request response \<and> length response \<le> 256 * length request
    | Txn_died \<Rightarrow> \<exists>d a. dev_sigbus dv d a
    | Txn_undefined \<Rightarrow> False"
  using hub_sized.loop_readable [where request = request and all = request and response = "[]" and os = os and dv = dv and s = s]
    assms readable_Nil
  by (simp add: control_packet_loop split: txn.split_asm txn.split)

theorem control_packet_readable_witness:
  "case process_control_packet (memhub_bus page_os plain_memory) [0x2001ff0f, 0x27000401, 0x200201af, 7] [] (Some page_handle, \<lambda>a. 9) of
      Txn rest response s' \<Rightarrow> readable [0x2001ff0f, 0x27000401, 0x200201af, 7] response \<and> length response \<le> 1024
    | _ \<Rightarrow> False"
proof -
  have "\<not> cfgwrite_request w" if "w \<in> set [0x2001ff0f, 0x27000401, 0x200201af, 7]" for w
    using that by (auto simp: cfgwrite_request_def IPBusTxnHdr_of_def)
  moreover have "\<not> dev_sigbus plain_memory d a" for d a by (simp add: plain_memory_def)
  ultimately show ?thesis
    using control_packet_readable [where request = "[0x2001ff0f, 0x27000401, 0x200201af, 7]" and os = page_os
        and dv = plain_memory and s = "(Some page_handle, \<lambda>a. 9)"]
    by (auto split: txn.splits)
qed

end
