(* ===== verification/IPBus_Server.thy ===== *)
theory IPBus_Server
  imports IPBus_Frames
begin

text \<open>
  The main program of \<^verbatim>\<open>xcompile/ipbus/ipbus.cpp\<close>: its start, and its loop, of which one round closes all connections when there are too many,
  waits in \<^verbatim>\<open>select\<close>, runs the connections that are ready and accepts a new one. What the system answers
  is an argument of the round. The access list is not compiled in: \<^verbatim>\<open>IP_ACL_FILE\<close> is commented out.
\<close>

definition MAX_CLIENTS :: nat where "MAX_CLIENTS = 1000"

text \<open>\<^verbatim>\<open>FD_SET\<close> and \<^verbatim>\<open>FD_ISSET\<close> are defined for descriptors below \<^verbatim>\<open>FD_SETSIZE\<close> only.\<close>

definition fd_settable :: "int \<Rightarrow> bool" where
  "fd_settable n \<longleftrightarrow> 0 \<le> n \<and> n < 1024"

text \<open>\<^verbatim>\<open>select\<close>: an error, an interruption by a signal, or the descriptors that are ready.\<close>

datatype select_result = Select_error | Select_interrupted | Selected "int list" "int list"

record 's server =
  clients :: "client list"
  server_mem :: "'s server_mem"

datatype 's round = Round "'s server" | Ended | Died_round | Undefined_round

definition new_client :: "int \<Rightarrow> client" where
  "new_client n = \<lparr>ibuf = [], obuf = [], fd = n\<rparr>"

text \<open>The descriptors put into the two sets for the connections.\<close>

definition watch_read :: "client list \<Rightarrow> int list" where
  "watch_read cs = map fd (filter read_ready cs)"

definition watch_write :: "client list \<Rightarrow> int list" where
  "watch_write cs = map fd (filter write_ready cs)"

text \<open>
  The loop that runs the connections that are ready; the results of \<^verbatim>\<open>run_io\<close> are not used. \<open>io n\<close> is
  what \<^verbatim>\<open>recv\<close> and \<^verbatim>\<open>send\<close> return on descriptor \<open>n\<close>.
\<close>

datatype 's served = Served "client list" "'s server_mem" | Served_died | Served_undefined

fun run_clients ::
  "nat \<Rightarrow> 's bus \<Rightarrow> ('s \<Rightarrow> 's option) \<Rightarrow> (int \<Rightarrow> recv_result \<times> nat option) \<Rightarrow> int list \<Rightarrow> int list \<Rightarrow>
   client list \<Rightarrow> 's server_mem \<Rightarrow> 's served" where
  "run_clients b B hub_open io rfds wfds [] sv = Served [] sv"
| "run_clients b B hub_open io rfds wfds (c # cs) sv =
     (case (if fd c \<in> set rfds \<or> fd c \<in> set wfds
            then run_io b B hub_open (fst (io (fd c))) (snd (io (fd c))) c sv
            else Io True c sv) of
        Io ok c' sv' \<Rightarrow>
          (case run_clients b B hub_open io rfds wfds cs sv' of
             Served cs' sv'' \<Rightarrow> Served (c' # cs') sv''
           | r \<Rightarrow> r)
      | Io_died \<Rightarrow> Served_died
      | Io_undefined \<Rightarrow> Served_undefined)"

text \<open>
  One round. \<open>accepted\<close> is the result of \<^verbatim>\<open>accept\<close>, a new descriptor or -1; it is not tested.
\<close>

definition server_round ::
  "nat \<Rightarrow> 's bus \<Rightarrow> ('s \<Rightarrow> 's option) \<Rightarrow> int \<Rightarrow> select_result \<Rightarrow> (int \<Rightarrow> recv_result \<times> nat option) \<Rightarrow> int \<Rightarrow>
   's server \<Rightarrow> 's round" where
  "server_round b B hub_open listenfd sel io accepted srv =
     (let cs = (if length (clients srv) < MAX_CLIENTS then clients srv else [])
      in if \<not> list_all fd_settable (listenfd # watch_write cs @ watch_read cs) then Undefined_round
         else case sel of
             Select_error \<Rightarrow> Ended
           | Select_interrupted \<Rightarrow> Round (srv\<lparr>clients := cs\<rparr>)
           | Selected rfds wfds \<Rightarrow>
               (case run_clients b B hub_open io rfds wfds cs (server_mem srv) of
                  Served cs' sv' \<Rightarrow>
                    Round \<lparr>clients = (if listenfd \<in> set rfds then cs' @ [new_client accepted] else cs'),
                      server_mem = sv'\<rparr>
                | Served_died \<Rightarrow> Died_round
                | Served_undefined \<Rightarrow> Undefined_round))"

text \<open>
  The start: the socket, its address, and the two calls of \<^verbatim>\<open>fork\<close> that leave the terminal, each of which
  returns a process id, 0 in the new process, or -1. The parents exit. The result of \<^verbatim>\<open>listen\<close> is not used.
\<close>

datatype startup = Start_exit int | Start_serving int

definition server_start :: "int \<Rightarrow> int \<Rightarrow> int \<Rightarrow> int \<Rightarrow> startup" where
  "server_start listenfd bind_rv fork1 fork2 =
     (if listenfd < 0 then Start_exit 1
      else if bind_rv < 0 then Start_exit 1
      else if fork1 \<noteq> 0 then Start_exit 0
      else if fork2 \<noteq> 0 then Start_exit 0
      else Start_serving listenfd)"

text \<open>The states the server can get into, from the one it starts in.\<close>

inductive server_reach ::
  "nat \<Rightarrow> 's bus \<Rightarrow> ('s \<Rightarrow> 's option) \<Rightarrow> int \<Rightarrow> 's \<Rightarrow> 's server \<Rightarrow> bool"
  for b :: nat and B :: "'s bus" and hub_open :: "'s \<Rightarrow> 's option" and listenfd :: int and s0 :: 's where
  start: "server_reach b B hub_open listenfd s0 \<lparr>clients = [], server_mem = \<lparr>memsvc_inited = False, memory = s0\<rparr>\<rparr>"
| round: "server_reach b B hub_open listenfd s0 srv \<Longrightarrow>
    server_round b B hub_open listenfd sel io accepted srv = Round srv' \<Longrightarrow>
    server_reach b B hub_open listenfd s0 srv'"

section \<open>Lemmas\<close>

lemma run_io_fd: "run_io b B hub_open r sent c sv = Io ok c' sv' \<Longrightarrow> fd c' = fd c"
  by (auto simp: run_io_def flush_obuf_def extract_frame_def Let_def
      split: recv_result.splits io.splits list.splits if_splits option.splits frame.splits)

lemma run_clients_fds:
  "run_clients b B hub_open io rfds wfds cs sv = Served cs' sv' \<Longrightarrow> map fd cs' = map fd cs"
proof (induction cs arbitrary: sv cs')
  case Nil
  then show ?case by simp
next
  case (Cons c cs)
  then show ?case
    by (auto split: io.splits served.splits if_splits dest: run_io_fd)
qed

lemma server_round_fds:
  assumes "server_round b B hub_open listenfd sel io accepted srv = Round srv'"
  shows "map fd (clients srv') = (if length (clients srv) < MAX_CLIENTS then map fd (clients srv) else []) @
    (case sel of Selected rfds wfds \<Rightarrow> if listenfd \<in> set rfds then [accepted] else [] | _ \<Rightarrow> [])"
  using assms
  by (auto simp: server_round_def Let_def new_client_def dest!: run_clients_fds
      split: if_splits select_result.splits served.splits)

text \<open>
  C36: the connections of the server: a round keeps all of them, drops all of them when there are
  \<^verbatim>\<open>MAX_CLIENTS\<close>, and appends the one accepted; there are never more than \<^verbatim>\<open>MAX_CLIENTS\<close>. Contrary to the comment of
  \<^verbatim>\<open>Client.h\<close> on \<^verbatim>\<open>run_io\<close> (``return false to disconnect''), this includes the connections for which
  \<^verbatim>\<open>run_io\<close> returns false, as it does when the peer has closed or the descriptor has an error: \<^verbatim>\<open>main\<close> ignores
  the result, so such a connection stays until all are dropped.
\<close>

theorem server_connections:
  assumes "server_reach b B hub_open listenfd s0 srv"
    and "server_round b B hub_open listenfd sel io accepted srv = Round srv'"
  shows "length (clients srv) \<le> MAX_CLIENTS \<and>
    map fd (clients srv') = (if length (clients srv) < MAX_CLIENTS then map fd (clients srv) else []) @
      (case sel of Selected rfds wfds \<Rightarrow> if listenfd \<in> set rfds then [accepted] else [] | _ \<Rightarrow> [])"
proof
  show "length (clients srv) \<le> MAX_CLIENTS"
    using assms(1)
  proof (induction rule: server_reach.induct)
    case start
    then show ?case by simp
  next
    case (round srv sel io accepted srv')
    have "length (clients srv') = length (map fd (clients srv'))" by simp
    also have "\<dots> \<le> MAX_CLIENTS"
      unfolding server_round_fds [OF round.hyps(2)] by (auto simp: MAX_CLIENTS_def split: select_result.splits)
    finally show ?case .
  qed
qed (rule server_round_fds [OF assms(2)])

lemma server_accepts:
  "server_round b B hub_open 3 (Selected [3] []) io n \<lparr>clients = [], server_mem = sv\<rparr> =
    Round \<lparr>clients = [new_client n], server_mem = sv\<rparr>"
  by (simp add: server_round_def fd_settable_def watch_read_def watch_write_def MAX_CLIENTS_def)

lemma server_keeps_failed:
  "server_round b B hub_open 3 (Selected [4] []) (\<lambda>n. (Recv_error, None)) (-1) \<lparr>clients = [new_client 4], server_mem = sv\<rparr> =
    Round \<lparr>clients = [new_client 4], server_mem = sv\<rparr>"
  by (simp add: server_round_def fd_settable_def watch_read_def watch_write_def MAX_CLIENTS_def new_client_def
      run_io_def)

text \<open>The server accepts a connection, \<^verbatim>\<open>recv\<close> fails on it, \<^verbatim>\<open>run_io\<close> returns false, and the connection stays.\<close>

theorem server_connections_witness:
  "let B = memhub_bus page_os plain_memory;
       sv = \<lparr>memsvc_inited = False, memory = (None, \<lambda>a. 0)\<rparr>;
       srv = \<lparr>clients = [new_client 4], server_mem = sv\<rparr>;
       io = (\<lambda>n. (Recv_error, None))
   in server_reach 32 B Some 3 (None, \<lambda>a. 0) srv \<and>
     run_io 32 B Some Recv_error None (new_client 4) sv = Io False (new_client 4) sv \<and>
     (\<exists>srv'. server_round 32 B Some 3 (Selected [4] []) io (-1) srv = Round srv' \<and>
       length (clients srv) \<le> MAX_CLIENTS \<and> map fd (clients srv') = [4])"
proof -
  let ?B = "memhub_bus page_os plain_memory"
  let ?sv = "\<lparr>memsvc_inited = False, memory = (None, \<lambda>a. 0)\<rparr>"
  have reach: "server_reach 32 ?B Some 3 (None, \<lambda>a. 0) \<lparr>clients = [new_client 4], server_mem = ?sv\<rparr>"
    by (rule server_reach.round [OF server_reach.start server_accepts])
  from server_connections [OF reach server_keeps_failed] reach
  show ?thesis unfolding Let_def server_keeps_failed
    by (auto simp: run_io_def new_client_def MAX_CLIENTS_def)
qed

text \<open>
  A connection that is ready to be written and has no input ends the server: \<^verbatim>\<open>recv\<close> fails with \<^verbatim>\<open>EAGAIN\<close>.
  After a failed \<^verbatim>\<open>accept\<close> the next round puts descriptor -1 into a set. A failed \<^verbatim>\<open>fork\<close> is taken for a parent:
  the program reports success and does not serve.
\<close>

lemma write_only_ends_server:
  assumes "fd c \<in> set wfds" and "fst (io (fd c)) = Recv_again"
  shows "run_clients b B hub_open io rfds wfds (c # cs) sv = Served_died"
  using assms by (simp add: run_io_def)

lemma failed_fork_exits: "0 \<le> listenfd \<Longrightarrow> 0 \<le> bind_rv \<Longrightarrow> server_start listenfd bind_rv (-1) fork2 = Start_exit 0"
  by (simp add: server_start_def)

lemma failed_accept_undefined:
  "server_round b B hub_open 3 sel io n \<lparr>clients = [new_client (-1)], server_mem = sv\<rparr> = Undefined_round"
  by (simp add: server_round_def fd_settable_def watch_read_def watch_write_def MAX_CLIENTS_def new_client_def
      read_ready_def MAX_OBUF_def)

end
