(* ===== verification/IPBus_Rounds.thy ===== *)
theory IPBus_Rounds
  imports IPBus_Server
begin

text \<open>
  A round of the server against the abstract register machine: the packets of all connections that are
  ready are executed one after the other, in the order of the connections, as if they were one packet.
\<close>

section \<open>One machine for all connections\<close>

lemma run_ops_append:
  "run_ops (xs @ ys) m =
    (fst (run_ops xs m) @ fst (run_ops ys (snd (run_ops xs m))), snd (run_ops ys (snd (run_ops xs m))))"
  by (induction xs m rule: run_ops.induct) (auto simp: case_prod_unfold)

definition is_ready :: "int list \<Rightarrow> int list \<Rightarrow> client \<Rightarrow> bool" where
  "is_ready rfds wfds c \<longleftrightarrow> fd c \<in> set rfds \<or> fd c \<in> set wfds"

text \<open>The transactions of the connections that are ready, in the order of the connections.\<close>

definition ready_ops ::
  "(int \<Rightarrow> (u16 \<times> register_op) list) \<Rightarrow> (client \<Rightarrow> bool) \<Rightarrow> client list \<Rightarrow> (u16 \<times> register_op) list" where
  "ready_ops ops ready cs = concat (map (\<lambda>c. ops (fd c)) (filter ready cs))"

lemma ready_ops_Cons:
  "ready_ops ops ready (c # cs) = (if ready c then ops (fd c) else []) @ ready_ops ops ready cs"
  by (simp add: ready_ops_def)

text \<open>
  What was received completes the connection's buffer to exactly one frame, with the packet of its
  transactions.
\<close>

definition completes_frame ::
  "(int \<Rightarrow> recv_result \<times> nat option) \<Rightarrow> (int \<Rightarrow> (u16 \<times> register_op) list) \<Rightarrow> client \<Rightarrow> bool" where
  "completes_frame io ops c \<longleftrightarrow>
     (case fst (io (fd c)) of
        Received bytes \<Rightarrow> ibuf c @ bytes = frame_of (packet_of (ops (fd c)))
      | _ \<Rightarrow> False) \<and> ops (fd c) \<noteq> [] \<and> 4 * length (packet_of (ops (fd c))) + 4 < 2 ^ 32"

text \<open>A connection after its packet was executed on registers \<open>m\<close>, and one that was not ready.\<close>

definition answered ::
  "(int \<Rightarrow> recv_result \<times> nat option) \<Rightarrow> (int \<Rightarrow> (u16 \<times> register_op) list) \<Rightarrow> (client \<Rightarrow> bool) \<Rightarrow> (u32 \<Rightarrow> u32) \<Rightarrow>
   client \<Rightarrow> client" where
  "answered io ops ready m c =
     (if ready c
      then c\<lparr>ibuf := [], obuf := sent_of (snd (io (fd c))) (obuf c @ frame_of (answer_of (ops (fd c)) m))\<rparr>
      else c)"

lemma run_io_completes:
  assumes "svc_inv s" and "\<And>ip. ip \<in> set (ops (fd c)) \<Longrightarrow> op_ok (svc_ok os s) ip" and "completes_frame io ops c"
  shows "\<exists>s'. run_io b (memhub_bus os plain_memory) hub_open (fst (io (fd c))) (snd (io (fd c))) c
        \<lparr>memsvc_inited = True, memory = s\<rparr> =
      Io True (answered io ops (\<lambda>c. True) (snd s) c) \<lparr>memsvc_inited = True, memory = s'\<rparr> \<and>
    snd s' = snd (run_ops (ops (fd c)) (snd s)) \<and> svc_inv s' \<and> svc_ok os s' = svc_ok os s"
proof -
  from assms(3) obtain bytes where io: "fst (io (fd c)) = Received bytes" "ibuf c @ bytes = frame_of (packet_of (ops (fd c)))"
      "ops (fd c) \<noteq> []" "4 * length (packet_of (ops (fd c))) + 4 < 2 ^ 32"
    by (auto simp: completes_frame_def split: recv_result.splits)
  obtain s' where s': "process_frame (memhub_bus os plain_memory) hub_open (packet_of (ops (fd c))) \<lparr>memsvc_inited = True, memory = s\<rparr> =
      Frame (answer_of (ops (fd c)) (snd s)) \<lparr>memsvc_inited = True, memory = s'\<rparr>"
      "snd s' = snd (run_ops (ops (fd c)) (snd s))" "svc_inv s'" "svc_ok os s' = svc_ok os s"
    using process_frame_packet [OF assms(1,2) io(3), of hub_open] by blast
  then show ?thesis
    using io(2,4)
    by (cases "snd (io (fd c))")
      (simp_all add: io(1) run_io_def flush_obuf_def extract_exact_frame answered_def sent_of_def)
qed

lemma serve_one:
  assumes "svc_inv s" and "\<And>ip. ready c \<Longrightarrow> ip \<in> set (ops (fd c)) \<Longrightarrow> op_ok (svc_ok os s) ip"
    and "ready c \<Longrightarrow> completes_frame io ops c"
  shows "\<exists>s1. (if ready c then run_io b (memhub_bus os plain_memory) hub_open (fst (io (fd c))) (snd (io (fd c))) c
        \<lparr>memsvc_inited = True, memory = s\<rparr> else Io True c \<lparr>memsvc_inited = True, memory = s\<rparr>) =
      Io True (answered io ops ready (snd s) c) \<lparr>memsvc_inited = True, memory = s1\<rparr> \<and>
    snd s1 = snd (run_ops (if ready c then ops (fd c) else []) (snd s)) \<and> svc_inv s1 \<and> svc_ok os s1 = svc_ok os s"
proof (cases "ready c")
  case True
  with run_io_completes [OF assms(1), of ops c os io b hub_open] assms(2,3) show ?thesis
    by (simp add: answered_def)
next
  case False
  with assms(1) show ?thesis by (simp add: answered_def del: ex_simps)
qed

lemma run_clients_serial:
  assumes "svc_inv s" and "\<And>ip. ip \<in> set (ready_ops ops (is_ready rfds wfds) cs) \<Longrightarrow> op_ok (svc_ok os s) ip"
    and "\<And>c. c \<in> set cs \<Longrightarrow> is_ready rfds wfds c \<Longrightarrow> completes_frame io ops c"
  shows "\<exists>s'. run_clients b (memhub_bus os plain_memory) hub_open io rfds wfds cs \<lparr>memsvc_inited = True, memory = s\<rparr> =
      Served (map (\<lambda>i. answered io ops (is_ready rfds wfds)
          (snd (run_ops (ready_ops ops (is_ready rfds wfds) (take i cs)) (snd s))) (cs ! i)) [0..<length cs])
        \<lparr>memsvc_inited = True, memory = s'\<rparr> \<and>
    snd s' = snd (run_ops (ready_ops ops (is_ready rfds wfds) cs) (snd s)) \<and> svc_inv s' \<and> svc_ok os s' = svc_ok os s"
  using assms
proof (induction cs arbitrary: s)
  case Nil
  then show ?case by (simp add: ready_ops_def)
next
  case (Cons c cs)
  let ?ready = "is_ready rfds wfds"
  let ?ops = "if ?ready c then ops (fd c) else []"
  have "op_ok (svc_ok os s) ip" if "?ready c" "ip \<in> set (ops (fd c))" for ip
    using that Cons.prems(2) by (simp add: ready_ops_Cons)
  from serve_one [where ready = ?ready and c = c and ops = ops and io = io, OF Cons.prems(1) this Cons.prems(3)]
  obtain s1 where s1: "(if ?ready c then run_io b (memhub_bus os plain_memory) hub_open (fst (io (fd c))) (snd (io (fd c))) c
        \<lparr>memsvc_inited = True, memory = s\<rparr> else Io True c \<lparr>memsvc_inited = True, memory = s\<rparr>) =
      Io True (answered io ops ?ready (snd s) c) \<lparr>memsvc_inited = True, memory = s1\<rparr>"
    "snd s1 = snd (run_ops ?ops (snd s))" "svc_inv s1" "svc_ok os s1 = svc_ok os s" by (meson list.set_intros(1))
  obtain s2 where "run_clients b (memhub_bus os plain_memory) hub_open io rfds wfds cs \<lparr>memsvc_inited = True, memory = s1\<rparr> =
      Served (map (\<lambda>i. answered io ops ?ready (snd (run_ops (ready_ops ops ?ready (take i cs)) (snd s1))) (cs ! i)) [0..<length cs])
        \<lparr>memsvc_inited = True, memory = s2\<rparr>"
    "snd s2 = snd (run_ops (ready_ops ops ?ready cs) (snd s1))" "svc_inv s2" "svc_ok os s2 = svc_ok os s1"
    using Cons.IH [OF s1(3)] Cons.prems(2,3) s1(4) by (auto simp: ready_ops_Cons)
  with s1 show ?case
    by (simp add: is_ready_def [symmetric] upt_conv_Cons map_Suc_upt [symmetric] ready_ops_Cons run_ops_append comp_def
        ready_ops_def [of _ _ "[]"] del: upt_Suc)
qed

section \<open>Property\<close>

text \<open>
  C32: a round in which every connection that is ready has received the rest of one frame executes the
  packets of these connections one after the other in the order of the connections: the registers end as
  the abstract machine leaves them after all their transactions in that order, and each connection gets the
  machine's answers from the registers as the connections before it left them. The other connections are
  left alone, and a new connection is appended if one was accepted.
\<close>

theorem server_round_serial:
  assumes "svc_inv s" and "\<And>ip. ip \<in> set (ready_ops ops (is_ready rfds wfds) cs) \<Longrightarrow> op_ok (svc_ok os s) ip"
    and "\<And>c. c \<in> set cs \<Longrightarrow> is_ready rfds wfds c \<Longrightarrow> completes_frame io ops c"
    and "length cs < MAX_CLIENTS" and "list_all fd_settable (listenfd # map fd cs)"
  shows "\<exists>s'. server_round b (memhub_bus os plain_memory) hub_open listenfd (Selected rfds wfds) io accepted
        \<lparr>clients = cs, server_mem = \<lparr>memsvc_inited = True, memory = s\<rparr>\<rparr> =
      Round \<lparr>clients = map (\<lambda>i. answered io ops (is_ready rfds wfds)
          (snd (run_ops (ready_ops ops (is_ready rfds wfds) (take i cs)) (snd s))) (cs ! i)) [0..<length cs] @
          (if listenfd \<in> set rfds then [new_client accepted] else []),
        server_mem = \<lparr>memsvc_inited = True, memory = s'\<rparr>\<rparr> \<and>
    snd s' = snd (run_ops (ready_ops ops (is_ready rfds wfds) cs) (snd s)) \<and> svc_inv s' \<and> svc_ok os s' = svc_ok os s"
proof -
  have "list_all fd_settable (listenfd # watch_write cs @ watch_read cs)"
    using assms(5) by (auto simp: watch_write_def watch_read_def list_all_iff)
  then show ?thesis
    using run_clients_serial [where cs = cs and rfds = rfds and wfds = wfds and b = b and hub_open = hub_open, OF assms(1-3)] assms(4) by (auto simp: server_round_def)
qed

text \<open>Two connections, of which the second reads the register that the first has written.\<close>

definition two_ops :: "int \<Rightarrow> (u16 \<times> register_op) list" where
  "two_ops n = (if n = 4 then [(1, Op_write 0x27000401 5)] else [(3, Op_read 0x27000401)])"

definition two_io :: "int \<Rightarrow> recv_result \<times> nat option" where
  "two_io n = (Received (frame_of (packet_of (two_ops n))), Some 0)"

theorem server_round_serial_witness:
  "\<exists>s'. server_round 32 (memhub_bus page_os plain_memory) Some 3 (Selected [4, 5] []) two_io 0
      \<lparr>clients = [new_client 4, new_client 5], server_mem = \<lparr>memsvc_inited = True, memory = (Some page_handle, \<lambda>a. 9)\<rparr>\<rparr> =
    Round \<lparr>clients = [\<lparr>ibuf = [], obuf = frame_of [0x200000f0, 0x20010110], fd = 4\<rparr>,
        \<lparr>ibuf = [], obuf = frame_of [0x200000f0, 0x20030100, 5], fd = 5\<rparr>],
      server_mem = \<lparr>memsvc_inited = True, memory = s'\<rparr>\<rparr>"
proof -
  have codes: "serialize (op_header 1 (Op_write 0x27000401 5) SUCCESS) = 0x20010110"
    "serialize (op_header 3 (Op_read 0x27000401) SUCCESS) = 0x20030100"
    by code_simp+
  have ops: "two_ops 4 = [(1, Op_write 0x27000401 5)]" "two_ops 5 = [(3, Op_read 0x27000401)]"
    by (simp_all add: two_ops_def)
  have ok: "op_ok (svc_ok page_os (Some page_handle, \<lambda>a. 9)) ip"
    if "ip \<in> set (ready_ops two_ops (is_ready [4, 5] []) [new_client 4, new_client 5])" for ip
    using that page_ops [of ip] by (auto simp: ready_ops_def is_ready_def new_client_def ops)
  have fits: "completes_frame two_io two_ops c" if "c \<in> set [new_client 4, new_client 5]" for c
    using that by (auto simp: completes_frame_def two_io_def new_client_def ops packet_of_def op_request_def)
  have set: "length [new_client 4, new_client 5] < MAX_CLIENTS" "list_all fd_settable (3 # map fd [new_client 4, new_client 5])"
    by (simp_all add: MAX_CLIENTS_def fd_settable_def new_client_def)
  from server_round_serial [where rfds = "[4, 5]" and wfds = "[]" and b = 32 and hub_open = Some and accepted = 0,
      OF page_inv [of "\<lambda>a. 9"] ok fits set]
  show ?thesis
    by (auto simp: answered_def is_ready_def new_client_def ready_ops_def ops answer_of_def two_io_def sent_of_def codes)
qed

end
