(* ===== verification/Reg_Stress_Test.thy ===== *)
theory Reg_Stress_Test
  imports Register_Bus
begin

text \<open>
  \<^verbatim>\<open>xcompile/memhub/reg_stress_test.cpp\<close>: a register is written and read back a million times, and every
  difference in its low 16 bits is reported. The return values of the accesses are not looked at.
\<close>

definition TEST_ADDRESS :: u32 where "TEST_ADDRESS = 0x66400008"

text \<open>One iteration: whether an error is reported, the handle and the device. \<open>None\<close> when the process ends.\<close>

definition stress_step ::
  "mem_os \<Rightarrow> 'd device \<Rightarrow> u32 \<Rightarrow> memsvc_handle option \<times> 'd \<Rightarrow> (bool \<times> memsvc_handle option \<times> 'd) option" where
  "stress_step os dv i s =
     (case memhub_write os dv (fst s) TEST_ADDRESS 1 [i] (snd s) of
        Returned rc h d \<Rightarrow>
          (case memhub_read os dv h TEST_ADDRESS 1 [0] d of
             None \<Rightarrow> None
           | Some (rc', h', test_data, d') \<Rightarrow> Some (hd test_data AND 0xffff \<noteq> i AND 0xffff, h', d'))
      | _ \<Rightarrow> None)"

text \<open>The iterations from \<open>i\<close> on, \<open>n\<close> of them, with the values of \<open>i\<close> an error is reported for.\<close>

fun stress_loop ::
  "mem_os \<Rightarrow> 'd device \<Rightarrow> nat \<Rightarrow> u32 \<Rightarrow> memsvc_handle option \<times> 'd \<Rightarrow> (u32 list \<times> memsvc_handle option \<times> 'd) option" where
  "stress_loop os dv 0 i s = Some ([], s)"
| "stress_loop os dv (Suc n) i s =
     (case stress_step os dv i s of
        None \<Rightarrow> None
      | Some (bad, t) \<Rightarrow>
          map_option (\<lambda>(errors, u). ((if bad then i # errors else errors), u)) (stress_loop os dv n (i + 1) t))"

text \<open>The program: \<open>None\<close> when it exits because the hub cannot be opened or an access ends the process.\<close>

definition stress_main ::
  "mem_os \<Rightarrow> open_env \<Rightarrow> sem_result \<Rightarrow> 'd device \<Rightarrow> 'd \<Rightarrow> (u32 list \<times> int \<times> memsvc_handle option \<times> 'd) option" where
  "stress_main os env opened dv d =
     (case memhub_open os env opened False of
        Hub (sem_set, rc, h) \<Rightarrow>
          if rc \<noteq> 0 then None
          else map_option (\<lambda>(errors, h', d'). (errors, fst (memhub_close h'), snd (memhub_close h'), d'))
            (stress_loop os dv 1000000 0 (Some h, d))
      | _ \<Rightarrow> None)"

text \<open>On a plain register no error is reported.\<close>

lemma stress_loop_clean:
  assumes "svc_inv s" and "svc_ok os s TEST_ADDRESS"
  shows "\<exists>t. stress_loop os plain_memory n i s = Some ([], t) \<and> svc_inv t \<and> svc_ok os t = svc_ok os s"
  using assms
proof (induction n arbitrary: i s)
  case 0
  then show ?case by simp
next
  case (Suc n)
  obtain h d where s: "s = (h, d)" by force
  obtain t where t: "svc_wr os s TEST_ADDRESS i = (True, t)" "svc_inv t" "snd t = (snd s)(TEST_ADDRESS := i)" "svc_ok os t = svc_ok os s"
    using svc_wr_ok [OF Suc.prems, of i] by blast
  obtain u where u: "svc_rd os t TEST_ADDRESS = (Some (snd t TEST_ADDRESS), u)" "svc_inv u" "svc_ok os u = svc_ok os t"
    using svc_rd_ok [OF t(2), of os TEST_ADDRESS] Suc.prems(2) t(4) by auto
  have "memsvc_write os plain_memory h TEST_ADDRESS 1 [i] d = Returned 0 (fst t) (snd t)"
    using t(1) s by (intro svc_wr_True) simp
  moreover have rd: "svc_rd os (fst t, snd t) TEST_ADDRESS = (Some (snd t TEST_ADDRESS), (fst u, snd u))"
    using u(1) by simp
  obtain w where "memsvc_read os plain_memory (fst t) TEST_ADDRESS 1 [0] (snd t) = Some (0, fst u, w, snd u)" "hd w = i"
    using svc_rd_Some [OF rd] t(3) by auto
  ultimately have "stress_step os plain_memory i s = Some (False, u)"
    by (simp add: stress_step_def memhub_write_def memhub_read_def s)
  with Suc.IH [of u "i + 1"] u t(4) Suc.prems(2) show ?case by auto
qed

end
