(* ===== verification/Ip_Acl.thy ===== *)
theory Ip_Acl
  imports Mem_Svc_Config
begin

text \<open>
  \<^verbatim>\<open>xcompile/ipbus/ipacl.cpp\<close>: the list of the addresses that may connect. The conversions \<^verbatim>\<open>%hhu\<close> of
  \<^verbatim>\<open>sscanf\<close> are defined here as the C library does them: blanks are skipped, a sign is accepted, and the
  number is converted as by \<^verbatim>\<open>strtoul\<close> and truncated to a byte. The text of the file has no NUL
  character.
\<close>

section \<open>The functions\<close>

definition octet :: "u32 \<Rightarrow> nat \<Rightarrow> u32" where
  "octet ip n = drop_bit n ip AND 0xff"

text \<open>\<^verbatim>\<open>snprintf\<close> returns the length of the whole text and stores what fits before the terminating NUL.\<close>

definition ip2string :: "u32 \<Rightarrow> nat \<Rightarrow> nat \<times> string" where
  "ip2string ip strsize =
     (let text = to_string (unat (octet ip 24)) @ ''.'' @ to_string (unat (octet ip 16)) @ ''.''
          @ to_string (unat (octet ip 8)) @ ''.'' @ to_string (unat (octet ip 0))
      in (length text, take (strsize - 1) text))"

text \<open>One conversion \<^verbatim>\<open>%hhu\<close>: the byte and the rest of the input.\<close>

definition scan_hhu :: "nat \<Rightarrow> string \<Rightarrow> (u8 \<times> string) option" where
  "scan_hhu bits s =
     (case strip_sign (dropWhile is_space s) of (neg, t) \<Rightarrow>
        let ds = takeWhile is_digit t; v = dec_value ds
        in if ds = [] then None
           else Some (if 2 ^ bits \<le> v then of_nat (2 ^ bits - 1)
             else if neg then - of_nat v else of_nat v, dropWhile is_digit t))"

text \<open>A literal character of the format.\<close>

definition scan_char :: "char \<Rightarrow> string \<Rightarrow> string option" where
  "scan_char c s = (case s of [] \<Rightarrow> None | d # ds \<Rightarrow> if d = c then Some ds else None)"

text \<open>A byte followed by a literal character.\<close>

definition scan_field :: "nat \<Rightarrow> char \<Rightarrow> string \<Rightarrow> (u8 \<times> string) option" where
  "scan_field bits c s =
     (case scan_hhu bits s of
        None \<Rightarrow> None
      | Some (x, rest) \<Rightarrow> map_option (\<lambda>rest'. (x, rest')) (scan_char c rest))"

text \<open>\<^verbatim>\<open>sscanf(linebuf, "%hhu.%hhu.%hhu.%hhu/%hhu", ...) == 5\<close>: the address and the prefix length.\<close>

definition scan_acl :: "nat \<Rightarrow> string \<Rightarrow> (u32 \<times> u8) option" where
  "scan_acl bits line =
     (case scan_field bits CHR ''.'' line of
        None \<Rightarrow> None
      | Some (b0, l1) \<Rightarrow>
      case scan_field bits CHR ''.'' l1 of
        None \<Rightarrow> None
      | Some (b1, l2) \<Rightarrow>
      case scan_field bits CHR ''.'' l2 of
        None \<Rightarrow> None
      | Some (b2, l3) \<Rightarrow>
      case scan_field bits CHR ''/'' l3 of
        None \<Rightarrow> None
      | Some (b3, l4) \<Rightarrow>
      case scan_hhu bits l4 of
        None \<Rightarrow> None
      | Some (cidrlen, l5) \<Rightarrow>
        Some (push_bit 24 (ucast b0) OR push_bit 16 (ucast b1) OR push_bit 8 (ucast b2) OR ucast b3, cidrlen))"

text \<open>
  The line up to a comment or its end. When the buffer has neither, the loop goes on behind the
  terminating NUL, where what it writes is not part of the line.
\<close>

definition strip_comment :: "string \<Rightarrow> string" where
  "strip_comment = takeWhile (\<lambda>c. c \<noteq> CHR ''#'' \<and> c \<noteq> CHR 0x0A)"

text \<open>
  The loop over the lines. The shift by \<^verbatim>\<open>32-cidrlen\<close> is undefined for a prefix length of 0 or of more
  than 32: the result is \<open>None\<close>.
\<close>

fun authorize_lines :: "nat \<Rightarrow> u32 \<Rightarrow> string list \<Rightarrow> bool option" where
  "authorize_lines bits ip [] = Some False"
| "authorize_lines bits ip (linebuf # lines) =
     (if strip_comment linebuf = [] then authorize_lines bits ip lines
      else case scan_acl bits (strip_comment linebuf) of
          None \<Rightarrow> authorize_lines bits ip lines
        | Some (allowip, cidrlen) \<Rightarrow>
            if 32 < unat cidrlen then None
            else case shl32 0xFFFFFFFF (32 - unat cidrlen) of
                None \<Rightarrow> None
              | Some cidrmask \<Rightarrow>
                  if ip AND cidrmask = allowip AND cidrmask then Some True
                  else authorize_lines bits ip lines)"

text \<open>\<open>file\<close> is the content of the list, if it could be opened. The buffer takes 1023 characters.\<close>

definition authorize_ip :: "nat \<Rightarrow> string option \<Rightarrow> u32 \<Rightarrow> bool option" where
  "authorize_ip bits file ip =
     (case file of None \<Rightarrow> Some False | Some text \<Rightarrow> authorize_lines bits ip (fgets_lines 1022 text))"

section \<open>Reading back rendered addresses\<close>

lemma octet_less: "unat (octet ip n) < 256"
proof -
  have "octet ip n = take_bit 8 (drop_bit n ip)"
    unfolding octet_def by (simp add: take_bit_eq_mask mask_eq_exp_minus_1)
  then show ?thesis by (simp add: take_bit_eq_mod unat_mod)
qed

lemma takeWhile_digits:
  "\<not> is_digit c \<Longrightarrow> takeWhile is_digit (to_string n @ c # cs) = to_string n"
  "\<not> is_digit c \<Longrightarrow> dropWhile is_digit (to_string n @ c # cs) = c # cs"
  by (simp_all add: takeWhile_append2 dropWhile_append2 to_string_digits)

lemma to_string_takeWhile: "takeWhile is_digit (to_string n) = to_string n" "dropWhile is_digit (to_string n) = []"
  by (simp_all add: to_string_digits)

lemma strip_sign_to_string: "strip_sign (dropWhile is_space (to_string n @ cs)) = (False, to_string n @ cs)"
proof -
  obtain c ds where c: "to_string n = c # ds" using to_string_nonempty [of n] by (cases "to_string n") auto
  then have d: "is_digit c" using to_string_digits [of c n] by simp
  then have "\<not> is_space c" "c \<noteq> CHR ''-''" "c \<noteq> CHR ''+''" by (auto simp: is_digit_def is_space_def)
  with c show ?thesis by (simp add: strip_sign_def)
qed

lemma scan_hhu_to_string:
  assumes "n < 256" and "8 \<le> bits"
  shows "\<not> is_digit c \<Longrightarrow> scan_hhu bits (to_string n @ c # cs) = Some (of_nat n, c # cs)"
    and "scan_hhu bits (to_string n) = Some (of_nat n, [])"
proof -
  have "(256 :: nat) \<le> 2 ^ bits" using power_increasing [OF assms(2), of "2 :: nat"] by simp
  then have n: "\<not> 2 ^ bits \<le> n" using assms(1) by linarith
  show "\<not> is_digit c \<Longrightarrow> scan_hhu bits (to_string n @ c # cs) = Some (of_nat n, c # cs)"
    using n by (simp add: scan_hhu_def strip_sign_to_string takeWhile_digits)
  show "scan_hhu bits (to_string n) = Some (of_nat n, [])"
    using n strip_sign_to_string [of n "[]"] by (simp add: scan_hhu_def to_string_takeWhile)
qed

lemma scan_field_to_string:
  assumes "n < 256" and "8 \<le> bits" and "\<not> is_digit c"
  shows "scan_field bits c (to_string n @ c # cs) = Some (of_nat n, cs)"
  using scan_hhu_to_string(1) [OF assms] by (simp add: scan_field_def scan_char_def)

text \<open>A line of the list, as an administrator writes it.\<close>

definition acl_line :: "u32 \<times> nat \<Rightarrow> string" where
  "acl_line rule = snd (ip2string (fst rule) 16) @ ''/'' @ to_string (snd rule) @ [CHR 0x0A]"

lemma to_string_small:
  "n < 1000 \<Longrightarrow> length (to_string n) \<le> 3"
  by (simp add: to_string.simps [of n] to_string.simps [of "n div 10"] to_string.simps [of "n div 10 div 10"])

lemma ip2string_length: "fst (ip2string ip n) \<le> 15"
proof -
  have "length (to_string (unat (octet ip k))) \<le> 3" for k
    by (rule to_string_small) (use octet_less [of ip k] in simp)
  from this [of 24] this [of 16] this [of 8] this [of 0] show ?thesis
    by (simp add: ip2string_def Let_def)
qed

lemma ip2string_16:
  "snd (ip2string ip 16) = to_string (unat (octet ip 24)) @ CHR ''.'' # to_string (unat (octet ip 16)) @ CHR ''.'' #
     to_string (unat (octet ip 8)) @ CHR ''.'' # to_string (unat (octet ip 0))"
  using ip2string_length [of ip 16] by (simp add: ip2string_def Let_def)

lemma octets_join:
  "push_bit 24 (ucast (ucast (octet ip 24) :: u8)) OR push_bit 16 (ucast (ucast (octet ip 16) :: u8)) OR
   push_bit 8 (ucast (ucast (octet ip 8) :: u8)) OR ucast (ucast (octet ip 0) :: u8) = ip"
proof (rule bit_word_eqI)
  have m: "(0xff :: u32) = mask 8" by (simp add: mask_eq_exp_minus_1)
  have o: "bit (octet ip n) i \<longleftrightarrow> i < 8 \<and> bit ip (n + i)" for n i
    by (auto simp: octet_def m bit_and_iff bit_mask_iff bit_drop_bit_eq)
  fix n assume "n < LENGTH(32)"
  then show "bit (push_bit 24 (ucast (ucast (octet ip 24) :: u8)) OR push_bit 16 (ucast (ucast (octet ip 16) :: u8)) OR
    push_bit 8 (ucast (ucast (octet ip 8) :: u8)) OR ucast (ucast (octet ip 0) :: u8) :: u32) n = bit ip n"
    by (cases "n < 8"; cases "n < 16"; cases "n < 24") (auto simp: bit_or_iff bit_push_bit_iff bit_ucast_iff o)
qed

lemma scan_acl_line:
  assumes "len < 256" and "8 \<le> bits"
  shows "scan_acl bits (snd (ip2string ip 16) @ CHR ''/'' # to_string len) = Some (ip, of_nat len)"
proof -
  have d: "\<not> is_digit CHR ''.''" "\<not> is_digit CHR ''/''" by (simp_all add: is_digit_def)
  show ?thesis
    unfolding scan_acl_def ip2string_16
    by (simp add: scan_field_to_string octet_less assms d scan_hhu_to_string octets_join)
qed

lemma acl_line_no_comment: "strip_comment (acl_line (ip, len)) = snd (ip2string ip 16) @ CHR ''/'' # to_string len"
proof -
  have d: "c \<noteq> CHR ''#'' \<and> c \<noteq> CHR 0x0A" if "c \<in> set (to_string n)" for c n
    using to_string_digits [OF that] by (auto simp: is_digit_def)
  have "takeWhile (\<lambda>c. c \<noteq> CHR ''#'' \<and> c \<noteq> CHR 0x0A) ((snd (ip2string ip 16) @ CHR ''/'' # to_string len) @ [CHR 0x0A]) =
      (snd (ip2string ip 16) @ CHR ''/'' # to_string len) @ []"
    by (subst takeWhile_append2) (use d in \<open>auto simp: ip2string_16\<close>)
  then show ?thesis by (simp add: strip_comment_def acl_line_def)
qed

lemma take_line_short:
  assumes "CHR 0x0A \<notin> set l" and "length l < n"
  shows "take_line n (l @ CHR 0x0A # rest) = (l @ [CHR 0x0A], rest)"
  using assms by (induction l arbitrary: n) (case_tac n; auto)+

lemma fgets_acl_lines:
  assumes "list_all (\<lambda>rule. snd rule < 256) rules"
  shows "fgets_lines 1022 (concat (map acl_line rules)) = map acl_line rules"
  using assms
proof (induction rules)
  case Nil
  then show ?case by simp
next
  case (Cons rule rules)
  let ?l = "snd (ip2string (fst rule) 16) @ ''/'' @ to_string (snd rule)"
  have l: "acl_line rule = ?l @ [CHR 0x0A]" by (simp add: acl_line_def)
  have "length ?l < Suc 1022"
    using ip2string_length [of "fst rule" 16] to_string_small [of "snd rule"] Cons.prems
    by (simp add: ip2string_def Let_def)
  moreover have "CHR 0x0A \<notin> set (to_string n)" for n
    using to_string_digits [of "CHR 0x0A" n] by (auto simp: is_digit_def)
  then have "CHR 0x0A \<notin> set ?l"
    by (simp add: ip2string_16)
  ultimately have "take_line (Suc 1022) (?l @ CHR 0x0A # concat (map acl_line rules)) = (?l @ [CHR 0x0A], concat (map acl_line rules))"
    by (intro take_line_short)
  moreover obtain c cs where "?l @ CHR 0x0A # concat (map acl_line rules) = c # cs"
    by (cases "?l @ CHR 0x0A # concat (map acl_line rules)") auto
  ultimately show ?case
    using Cons by (simp add: l del: take_line.simps)
qed

section \<open>Properties\<close>

text \<open>
  C34: a text address is never truncated in a buffer of 16 bytes, and the parser of the list reads an
  address written by \<^verbatim>\<open>ip2string\<close>, followed by a prefix length, back as that address and length.
\<close>

theorem ip2string_scan:
  assumes "len < 256" and "8 \<le> bits"
  shows "fst (ip2string ip 16) = length (snd (ip2string ip 16)) \<and>
    scan_acl bits (snd (ip2string ip 16) @ CHR ''/'' # to_string len) = Some (ip, of_nat len)"
proof
  show "fst (ip2string ip 16) = length (snd (ip2string ip 16))"
    using ip2string_length [of ip 16] by (simp add: ip2string_def Let_def)
qed (rule scan_acl_line [OF assms])

theorem ip2string_scan_witness:
  "scan_acl 32 (snd (ip2string 0xC0A80001 16) @ CHR ''/'' # to_string 24) = Some (0xC0A80001, 24)"
  using ip2string_scan [of 24 32 "0xC0A80001"] by simp

text \<open>The mask of a prefix.\<close>

lemma prefix_mask:
  assumes "k < 32"
  shows "(ip AND push_bit k 0xFFFFFFFF = allow AND push_bit k (0xFFFFFFFF :: u32)) \<longleftrightarrow> drop_bit k ip = drop_bit k allow"
proof -
  have b: "bit (x AND push_bit k (0xFFFFFFFF :: u32)) i \<longleftrightarrow> k \<le> i \<and> bit x i" for x i
  proof -
    have m: "(0xFFFFFFFF :: u32) = mask 32" by (simp add: mask_eq_exp_minus_1)
    show ?thesis
      unfolding m by (auto simp: bit_and_iff bit_push_bit_iff bit_mask_iff dest: bit_imp_le_length)
  qed
  show ?thesis
  proof
    assume e: "ip AND push_bit k 0xFFFFFFFF = allow AND push_bit k 0xFFFFFFFF"
    show "drop_bit k ip = drop_bit k allow"
    proof (rule bit_word_eqI)
      fix j
      from e have "bit (ip AND push_bit k 0xFFFFFFFF) (k + j) = bit (allow AND push_bit k 0xFFFFFFFF) (k + j)" by (rule arg_cong)
      then show "bit (drop_bit k ip) j = bit (drop_bit k allow) j" unfolding b by (simp add: bit_drop_bit_eq)
    qed
  next
    assume e: "drop_bit k ip = drop_bit k allow"
    show "ip AND push_bit k 0xFFFFFFFF = allow AND push_bit k 0xFFFFFFFF"
    proof (rule bit_word_eqI)
      fix i
      from e have "bit (drop_bit k ip) (i - k) = bit (drop_bit k allow) (i - k)" by (rule arg_cong)
      then show "bit (ip AND push_bit k 0xFFFFFFFF) i = bit (allow AND push_bit k 0xFFFFFFFF) i"
        unfolding b by (auto simp: bit_drop_bit_eq)
    qed
  qed
qed

text \<open>
  C35: a list of rules, each an address and a prefix length from 1 to 32, admits exactly the addresses
  that agree with the address of some rule on its prefix; a list that cannot be opened admits none.
\<close>

theorem authorize_ip_rules:
  assumes "list_all (\<lambda>rule. 1 \<le> snd rule \<and> snd rule \<le> 32) rules" and "8 \<le> bits"
  shows "authorize_ip bits (Some (concat (map acl_line rules))) ip =
      Some (\<exists>rule \<in> set rules. drop_bit (32 - snd rule) ip = drop_bit (32 - snd rule) (fst rule)) \<and>
    authorize_ip bits None ip = Some False"
proof -
  have "authorize_lines bits ip (map acl_line rules) =
      Some (\<exists>rule \<in> set rules. drop_bit (32 - snd rule) ip = drop_bit (32 - snd rule) (fst rule))"
    using assms(1)
  proof (induction rules)
    case Nil
    then show ?case by simp
  next
    case (Cons rule rules)
    obtain allow len where r: "rule = (allow, len)" by force
    with Cons.prems have len: "1 \<le> len" "len \<le> 32" by simp_all
    then have "unat (of_nat len :: u8) = len" by (simp add: unat_of_nat)
    with Cons len r show ?case
      by (simp add: acl_line_no_comment scan_acl_line assms(2) shl32_def prefix_mask del: push_bit_numeral)
  qed
  moreover have "list_all (\<lambda>rule. snd rule < 256) rules"
    using assms(1) by (auto simp: list_all_iff)
  ultimately show ?thesis
    by (simp add: authorize_ip_def fgets_acl_lines)
qed

theorem authorize_ip_rules_witness:
  "authorize_ip 32 (Some (concat (map acl_line [(0xC0A80000, 16), (0x0A000001, 32)]))) 0xC0A81234 = Some True"
  using authorize_ip_rules [of "[(0xC0A80000, 16), (0x0A000001, 32)]" 32 "0xC0A81234"] by simp

text \<open>A rule for all addresses, with prefix length 0, makes the check undefined.\<close>

lemma authorize_zero_prefix: "authorize_ip 32 (Some (acl_line (allow, 0))) ip = None"
proof -
  have "fgets_lines 1022 (acl_line (allow, 0)) = [acl_line (allow, 0)]"
    using fgets_acl_lines [of "[(allow, 0)]"] by simp
  then show ?thesis
    using scan_acl_line [of 0 32 allow] by (simp add: authorize_ip_def acl_line_no_comment shl32_def)
qed

end
