(* ===== verification/At_Database.thy ===== *)
theory At_Database
  imports Xml_Properties
begin

text \<open>
  \<^verbatim>\<open>test/x-tests/parse_t.cpp\<close>: the address table stored in an LMDB database and registers looked up in it, with
  the functions of \<^verbatim>\<open>test/x-tests/lmdb_cpp_wrapper.h\<close> it calls. The C library of LMDB is a parameter, and so
  are the order in which an unordered map is iterated, the width of \<^verbatim>\<open>long\<close>, and the lines of the file with
  the settings. Text on the standard output is not modelled, but the strings that are read to print it are.
\<close>

section \<open>Results\<close>

text \<open>A value, an exception that nothing catches, the end of the process by \<^verbatim>\<open>exit\<close>, or undefined behaviour.\<close>

datatype lmdb_exn =
    Key_exist_error | Not_found_error | Corrupted_error | Panic_error | Version_mismatch_error | Map_full_error
  | Bad_dbi_error | Runtime_error

datatype at_exn = Lmdb_error lmdb_exn string int | Out_of_range | Invalid_argument

datatype 'a run = Done 'a | Uncaught at_exn | Exit int | UB

fun bind_run :: "'a run \<Rightarrow> ('a \<Rightarrow> 'b run) \<Rightarrow> 'b run" where
  "bind_run (Done x) f = f x"
| "bind_run (Uncaught e) f = Uncaught e"
| "bind_run (Exit c) f = Exit c"
| "bind_run UB f = UB"

section \<open>The C++ interface of LMDB\<close>


definition MDB_SUCCESS :: int where "MDB_SUCCESS = 0"
definition MDB_KEYEXIST :: int where "MDB_KEYEXIST = -30799"
definition MDB_NOTFOUND :: int where "MDB_NOTFOUND = -30798"


text \<open>\<^verbatim>\<open>lmdb::error::raise\<close>\<close>

definition lmdb_raise :: "string \<Rightarrow> int \<Rightarrow> at_exn" where
  "lmdb_raise origin rc = Lmdb_error
     (if rc = MDB_KEYEXIST then Key_exist_error
      else if rc = MDB_NOTFOUND then Not_found_error
      else if rc = -30796 then Corrupted_error
      else if rc = -30795 then Panic_error
      else if rc = -30794 then Version_mismatch_error
      else if rc = -30792 then Map_full_error
      else if rc = -30780 then Bad_dbi_error
      else Runtime_error) origin rc"











section \<open>Strings\<close>





text \<open>\<^verbatim>\<open>std::stol\<close> and \<^verbatim>\<open>std::stoll\<close> for a result of \<open>n\<close> bits.\<close>

definition sto :: "nat \<Rightarrow> string \<Rightarrow> int run" where
  "sto n s =
     (case strip_sign (dropWhile is_space s) of (neg, t) \<Rightarrow>
        let ds = takeWhile is_digit t;
            v = (if neg then - int (dec_value ds) else int (dec_value ds))
        in if ds = [] then Uncaught Invalid_argument
           else if v < - (2 ^ (n - 1)) \<or> 2 ^ (n - 1) \<le> v then Uncaught Out_of_range
           else Done v)"


section \<open>Storing and finding registers\<close>










section \<open>The contract of LMDB\<close>







section \<open>Texts\<close>




lemma decimal_text:
  "takeWhile is_digit (to_string k) = to_string k" "dropWhile is_space (to_string k) = to_string k"
  "strip_sign (to_string k) = (False, to_string k)"
  using strip_sign_digits [OF to_string_nonempty to_string_digits] to_string_digits [of _ k]
  by (auto simp: takeWhile_eq_all_conv)










section \<open>Names below the root\<close>









section \<open>The entries that are stored and found\<close>








section \<open>Calls that succeed and calls that fail\<close>

text \<open>A run has the result of the calls, or throws the exception of the one that fails.\<close>

definition lmdb_failure :: "'a run \<Rightarrow> bool" where
  "lmdb_failure r \<longleftrightarrow> (\<exists>origin rc. rc \<noteq> MDB_SUCCESS \<and> r = Uncaught (lmdb_raise origin rc))"


lemma lmdb_failure_raise [simp]: "rc \<noteq> MDB_SUCCESS \<Longrightarrow> lmdb_failure (Uncaught (lmdb_raise origin rc))"
  by (auto simp: lmdb_failure_def)

lemma lmdb_failure_bind [simp]:
  assumes "lmdb_failure r"
  shows "lmdb_failure (bind_run r f)"
proof -
  obtain origin rc where "r = Uncaught (lmdb_raise origin rc)" "rc \<noteq> MDB_SUCCESS"
    using assms by (auto simp: lmdb_failure_def)
  then show ?thesis by simp
qed







section \<open>A reference database\<close>



section \<open>Properties\<close>








text \<open>Where \<^verbatim>\<open>long\<close> has 32 bits, as on the card, an address from \<open>2 ^ 31\<close> on is stored and cannot be read back.\<close>

lemma address_out_of_range:
  assumes "2 ^ 31 \<le> k"
  shows "sto 32 (to_string k) = Uncaught Out_of_range"
  using assms by (simp add: sto_def Let_def decimal_text)

end
