(* ===== verification/Xhal_Tests.thy ===== *)
theory Xhal_Tests
  imports Xhal_Interface
begin

text \<open>
  \<^verbatim>\<open>test/main_test.cpp\<close> and the tests of \<^verbatim>\<open>test/units\<close>: the address table is parsed and a register looked up in
  it, then the register interface is connected to a card, and registers are read and written. What the tests
  print is not modelled.
\<close>

section \<open>The tests\<close>

text \<open>\<^verbatim>\<open>parse_t::launch\<close>, with the nodes of its parser.\<close>

definition parse_launch :: "(vars \<Rightarrow> vars) \<Rightarrow> document \<Rightarrow> (u32 \<times> nodes) xml" where
  "parse_launch iter doc =
     (case parseXML iter doc Map.empty of
        Ok nodes \<Rightarrow> Ok (0, nodes)
      | Throws \<Rightarrow> Ok (1, Map.empty)
      | Undef \<Rightarrow> Undef)"

text \<open>\<^verbatim>\<open>getNode_t::launch\<close>: when the second node is found with another address the function ends without a value.\<close>

definition getNode_launch :: "nodes \<Rightarrow> u32 xml" where
  "getNode_launch nodes =
     (case getNode nodes ''top.GEM_SYSTEM.BOARD_ID'' of
        Some myNode \<Rightarrow> Ok 1
      | None \<Rightarrow>
          (case getNode nodes ''top.GEM_AMC.GEM_SYSTEM.BOARD_ID'' of
             Some myNode \<Rightarrow>
               if node_name (info myNode) = ''top.GEM_AMC.GEM_SYSTEM.BOARD_ID'' \<and> address (info myNode) = 0x00900002
               then Ok 0 else Undef
           | None \<Rightarrow> Ok 1))"

definition SYNC_PATTERN :: string where
  "SYNC_PATTERN = ''top.GEM_AMC.GEM_SYSTEM.GBT.TX_SYNC_PATTERN''"

text \<open>The tests of \<^verbatim>\<open>XHALInterface_t\<close>.\<close>

definition init_t :: "('m, 's) rpc_lib \<Rightarrow> (vars \<Rightarrow> vars) \<Rightarrow> document \<Rightarrow> ('m, 's, 'y) xhal_stmt" where
  "init_t L iter doc = xhal_init L iter doc ''eagle34''"

definition loadModule_t :: "('m, 's) rpc_lib \<Rightarrow> ('m, 's, 'y) xhal_stmt" where
  "loadModule_t L = loadModule L ''memory'' ''memory v1.0.1''"

definition readRegByName_t :: "('m, 's) rpc_lib \<Rightarrow> ('m, 's, 'y) xhal_stmt" where
  "readRegByName_t L = CALL (readReg L ''top.GEM_AMC.GEM_SYSTEM.BOARD_ID'') (\<lambda>res. SKIP)"

definition writeReg_only_t :: "('m, 's) rpc_lib \<Rightarrow> ('m, 's, 'y) xhal_stmt" where
  "writeReg_only_t L = writeReg L SYNC_PATTERN 0xbeef"

definition writeReg_complete_test_t :: "('m, 's) rpc_lib \<Rightarrow> ('m, 's, 'y) xhal_stmt" where
  "writeReg_complete_test_t L = block
     [CALL (readReg L SYNC_PATTERN) (\<lambda>test. SKIP),
      writeReg L SYNC_PATTERN 0x76bc,
      CALL (readReg L SYNC_PATTERN) (\<lambda>test. SKIP)]"

text \<open>\<^verbatim>\<open>main\<close>\<close>

definition main_test :: "('m, 's) rpc_lib \<Rightarrow> (vars \<Rightarrow> vars) \<Rightarrow> document \<Rightarrow> nat \<Rightarrow> ('m, 's, 'y) xhal_stmt" where
  "main_test L iter doc argc s =
     (if argc < 2 then Return 0 s
      else case parse_launch iter doc of
        Undef \<Rightarrow> Undefined
      | Throws \<Rightarrow> Undefined
      | Ok (t1, nodes) \<Rightarrow>
          if t1 \<noteq> 0 then Return 1 s
          else (case getNode_launch nodes of
              Undef \<Rightarrow> Undefined
            | Throws \<Rightarrow> Undefined
            | Ok t2 \<Rightarrow>
                if t2 \<noteq> 0 then Return 1 s
                else block
                  [init_t L iter doc, loadModule_t L, readRegByName_t L, writeReg_only_t L, writeReg_complete_test_t L,
                   RETURN 0] s))"

section \<open>When they pass\<close>

lemma getNode_launch_passes:
  assumes "parseXML iter doc Map.empty = Ok nodes" and "nodes ''top.GEM_SYSTEM.BOARD_ID'' = None"
    and "nodes ''top.GEM_AMC.GEM_SYSTEM.BOARD_ID'' = Some n"
  shows "getNode_launch nodes = (if address (info n) = 0x00900002 then Ok 0 else Undef)"
  using assms parsed_name [OF assms(1,3)] by (simp add: getNode_launch_def getNode_def)

lemma CALL_Return: "c s = Return v t \<Longrightarrow> CALL c (\<lambda>x. SKIP) s = Next t"
  by (simp add: CALL_def SKIP_def)

context register_service
begin

lemma register_tests_pass:
  fixes s :: "('m, 's, 'y) xhal_state_scheme"
  assumes "up (svc s)" and "getNode (m_nodes s) ''top.GEM_AMC.GEM_SYSTEM.BOARD_ID'' = Some n"
    and "getNode (m_nodes s) SYNC_PATTERN = Some q" and "node_mask (info q) \<noteq> 0" and "node_mask (info q) \<noteq> 0xFFFFFFFF"
  shows "\<exists>t. block [readRegByName_t L, writeReg_only_t L, writeReg_complete_test_t L] s = Next t \<and>
    regs (svc t) = (regs (svc s))(real_address (info q) :=
      field_set (node_mask (info q)) 0x76bc (regs (svc s) (real_address (info q))))"
proof -
  obtain t1 where t1: "readRegByName_t L s = Next t1" "m_nodes t1 = m_nodes s" "up (svc t1)" "regs (svc t1) = regs (svc s)"
    using readReg_reads [OF assms(1,2)] by (auto simp: readRegByName_t_def CALL_Return)
  obtain t2 where t2: "writeReg_only_t L t1 = Next t2" "m_nodes t2 = m_nodes s" "up (svc t2)"
      "regs (svc t2) = (regs (svc s))(real_address (info q) := field_set (node_mask (info q)) 0xbeef (regs (svc s) (real_address (info q))))"
    using writeReg_writes [OF t1(3), of SYNC_PATTERN q "0xbeef"] assms(3-5) t1(2,4) by (auto simp: writeReg_only_t_def)
  obtain v3 t3 where t3: "readReg L SYNC_PATTERN t2 = Return v3 t3" "m_nodes t3 = m_nodes s" "up (svc t3)" "regs (svc t3) = regs (svc t2)"
    using readReg_reads [OF t2(3), of SYNC_PATTERN q] assms(3) t2(2) by auto
  obtain t4 where t4: "writeReg L SYNC_PATTERN 0x76bc t3 = Next t4" "m_nodes t4 = m_nodes s" "up (svc t4)"
      "regs (svc t4) = (regs (svc t3))(real_address (info q) := field_set (node_mask (info q)) 0x76bc (regs (svc t3) (real_address (info q))))"
    using writeReg_writes [OF t3(3), of SYNC_PATTERN q "0x76bc"] assms(3-5) t3(2) by auto
  obtain v5 t5 where "readReg L SYNC_PATTERN t4 = Return v5 t5" "regs (svc t5) = regs (svc t4)"
    using readReg_reads [OF t4(3), of SYNC_PATTERN q] assms(3) t4(2) by auto
  with t1(1) t2(1) t3(1) t4(1) show ?thesis
    by (simp add: writeReg_complete_test_t_def CALL_def SKIP_def t4(4) t3(4) t2(4) field_set_twice)
qed

end

text \<open>
  With a card that behaves as a register file, and an address table that has the board identifier at the
  address the test expects and the synchronisation pattern as a field, all tests pass, and the field has
  the value written last.
\<close>

lemma main_test_passes:
  fixes s :: "('m, 's, 'y) xhal_state_scheme"
  assumes "register_service L regs up" and "2 \<le> argc" and "parseXML iter doc Map.empty = Ok nodes"
    and "nodes ''top.GEM_SYSTEM.BOARD_ID'' = None" and "nodes ''top.GEM_AMC.GEM_SYSTEM.BOARD_ID'' = Some n"
    and "address (info n) = 0x00900002"
    and "nodes SYNC_PATTERN = Some q" and "node_mask (info q) \<noteq> 0" and "node_mask (info q) \<noteq> 0xFFFFFFFF"
    and "RPCSvc_connect L (svc s) ''eagle34'' = (None, v)"
    and "RPCSvc_load_module L v ''memory'' ''memory v1.0.1'' = (Inr True, w)" and "up w"
  shows "\<exists>t. main_test L iter doc argc s = Return 0 t \<and>
    field_get (node_mask (info q)) (regs (svc t) (real_address (info q))) =
      0x76bc AND drop_bit (shift_amount 32 (node_mask (info q))) (node_mask (info q))"
proof -
  obtain s1 where s1: "init_t L iter doc s = Next s1" "svc s1 = v" "m_nodes s1 = nodes"
    using assms(3,10) by (auto simp: init_t_def xhal_init_def connect_def stmt_simps)
  then have s2: "loadModule_t L s1 = Next (s1\<lparr>svc := w\<rparr>)"
    using assms(11) by (simp add: loadModule_t_def loadModule_def stmt_simps)
  obtain t where t: "block [readRegByName_t L, writeReg_only_t L, writeReg_complete_test_t L] (s1\<lparr>svc := w\<rparr>) = Next t"
      "regs (svc t) = (regs w)(real_address (info q) := field_set (node_mask (info q)) 0x76bc (regs w (real_address (info q))))"
    using register_service.register_tests_pass [OF assms(1), of "s1\<lparr>svc := w\<rparr>" n q] assms(5,7-9,12) s1(3)
    by (auto simp: getNode_def)
  have "block ([init_t L iter doc, loadModule_t L] @ [readRegByName_t L, writeReg_only_t L, writeReg_complete_test_t L] @ [RETURN 0]) s =
      Return 0 t"
  proof -
    have "block [init_t L iter doc, loadModule_t L] s = Next (s1\<lparr>svc := w\<rparr>)" by (simp add: s1(1) s2)
    moreover have "block [RETURN 0] t = Return 0 t" by (simp add: RETURN_def)
    ultimately show ?thesis by (simp only: block_append t(1) ctl.case)
  qed
  then have "main_test L iter doc argc s = Return 0 t"
    using assms(2-6) getNode_launch_passes [OF assms(3-5)] by (simp add: main_test_def parse_launch_def)
  with t(2) show ?thesis by (auto simp: field_get_set)
qed

end
