(* ===== verification/Spec2Isabelle.thy ===== *)
theory Spec2Isabelle
  imports Rpc_Bits Rpc_Monitor_Results Rpc_Sbit_Readout Xhal_Interface Mem_Svc_Resources
    Hub_Atomicity IPBus_Replies IPBus_Rounds Reg_Stress_Test Ip_Acl At_Database
    Xhal_Tests
begin

text \<open>
  A model of xhal, the hardware access library of the GEM detector electronics, and its properties.

  \<^bold>\<open>The program.\<close> A control computer accesses registers of optohybrid and VFAT boards behind a CTP7 card.
  \<^item> On the computer, \<^verbatim>\<open>xhalcore\<close> has the RPC client functions (\<^verbatim>\<open>src/common/rpc_manager\<close>), which build a message,
    send it to a module on the card and copy the reply into the caller's buffers, and the register interface
    (\<^verbatim>\<open>XHALInterface.cpp\<close>), which looks a register up in the address table read by \<^verbatim>\<open>XHALXMLParser.cpp\<close>.
  \<^item> On the card, \<^verbatim>\<open>xcompile\<close> has the memory service library (\<^verbatim>\<open>lib_rw_ctp7/libmemsvc.c\<close>), register functions with
    a kept handle (\<^verbatim>\<open>lib_rw_ctp7/rwreg.cc\<close>), the memory hub that serialises the accesses of several processes
    (\<^verbatim>\<open>memhub/memhub.cpp\<close>) with its stress test, and the IPbus server (\<^verbatim>\<open>ipbus\<close>), which executes the transactions of
    its connections through the hub.

  \<^bold>\<open>Theories.\<close>
  \<^item> \<open>Xhal_Prelude\<close>: machine integers, decimal rendering, shifts, lists. \<open>Cxx_Exec\<close>: statements with the exits of a
    C++ body (next, return, throw, abort, undefined behaviour), blocks, loops and handlers, and the safety
    judgement \<open>safe\<close>.
  \<^item> \<open>Rpc_Msg\<close>: the message and service classes as a parameter \<open>rpc_lib\<close> (only their headers are in the repository),
    their laws as the locales \<open>rpc_msg\<close> and \<open>rpc_msg_store\<close>, and the macros of \<^verbatim>\<open>rpc/utils.h\<close>. \<open>Rpc_Frame\<close>: the rules
    for statements that write into given buffers only. \<open>Rpc_Utils\<close>, \<open>Rpc_Sca\<close>, \<open>Rpc_Gbt\<close>, \<open>Rpc_Vfat3\<close>, \<open>Rpc_Optohybrid\<close>,
    \<open>Rpc_Calibration\<close>, \<open>Rpc_Daq_Monitor\<close>, \<open>Rpc_Amc\<close>: one definition per exported function of the source file of that
    name. \<open>Rpc_Exports\<close>: the relation \<open>rpc_export\<close>, which lists the 57 exported functions with the buffers each may read
    and write and the codes it returns when the transport fails and when the reply is an error. \<open>Rpc_Outcomes\<close>: their
    behaviour in these two cases. \<open>Rpc_Reference\<close>: a concrete library on which the
    locales are interpreted and the witnesses run.
  \<^item> \<open>Rpc_Properties\<close>: C1 to C5, every exported function is memory safe and reports failures, and register round trips, on
    cards that satisfy the locale \<open>register_service\<close>. \<open>Rpc_Bits\<close>: C8, the masks whose bits are counted right, and the sensor readout. \<open>Rpc_Monitor_Results\<close>: C9, the
    cells each of the eleven monitoring functions promises to fill, the judgement \<open>fills\<close> that follows their statements,
    and the members two of them swap. \<open>Rpc_Sbit_Readout\<close>: C13 and C14, the acquisition loop and its output file.
  \<^item> \<open>Mem_Svc\<close>, \<open>Mem_Svc_Config\<close>, \<open>Rw_Reg\<close>: the memory service, its configuration file and the register functions.
    \<open>Mem_Svc_Ranges\<close>: C15 and C21, range lookup and configuration lines. \<open>Word_Memory\<close>: the locale \<open>word_memory\<close> of
    registers that can be read and written. \<open>Mem_Svc_Access\<close>: its interpretation on the memory service, C16 to C20
    and C22 to C24. \<open>Mem_Svc_Resources\<close>: C12, the mappings made and released in the life of a handle.
  \<^item> \<open>Mem_Hub\<close>: the hub's functions, and the semaphore protocol as the step relation \<open>hub_step\<close> on the program points
    of any number of processes; C25 and C26, exclusion holds unless a caught signal
    arrives while a process is still busy after \<^verbatim>\<open>sem_post\<close>, and can be lost then. \<open>Hub_Atomicity\<close>: the same protocol with the registers and the rounds of the
    access loops, the step relation \<open>sys_step\<close>, which refines \<open>hub_step\<close>; C7, its accesses
    are atomic under the same condition.
  \<^item> \<open>IPBus_Client\<close>: connections, from bytes to transactions. \<open>IPBus_Properties\<close>: C27 and C28, encodings. \<open>Register_Bus\<close>:
    the locale \<open>register_bus\<close> between the transactions and the hub, a word memory by \<open>sublocale\<close>, its interpretation
    on the hub, and C29, the refinement of an abstract register machine. \<open>IPBus_Frames\<close>: C30, C31 and C33, frames and
    error replies. \<open>IPBus_Replies\<close>: C11, the replies to arbitrary packets, over the locale \<open>sized_bus\<close> that asks less of the
    bus. \<open>IPBus_Server\<close>: the main program, C36. \<open>IPBus_Rounds\<close>: C32, a round with several connections as one run of the
    abstract machine. \<open>Ip_Acl\<close>: the access list, C34 and C35. \<open>Reg_Stress_Test\<close>: the
    test program; on a plain register it reports no error.
  \<^item> \<open>Xml_Parser\<close>: from the document tree to the map of registers. \<open>Xml_Reference\<close>: C6, the parser against the list of
    registers an address table describes. \<open>Xml_Properties\<close>: C37 and C39, from that list. \<open>At_Database\<close>: the program that
    stores the address table in a database (\<^verbatim>\<open>test/x-tests\<close>) over the locale \<open>lmdb_store\<close>, whose functions may fail, C38. \<open>Xhal_Interface\<close>: the
    register interface, C40. \<open>Xhal_Tests\<close>: the test program and when it passes. This theory: C10, from the address
    table to a register of the card.

  \<^bold>\<open>State and operations.\<close> The static or member variables of a component are a record (\<open>rpc_state\<close>, \<open>memsvc_handle\<close>,
  \<open>rw_state\<close>, \<open>hub\<close>, \<open>sys\<close>, \<open>client\<close>, \<open>server\<close>, \<open>xhal_state\<close>); an operation takes and returns it. The caller's memory is a family
  of blocks of words. Undefined behaviour is a value of its own (\<open>Undefined\<close>, \<open>None\<close>, \<open>Undef\<close>, \<open>Txn_undefined\<close>), as are
  exceptions and the end of the process, so each statement says which of them it excludes.

  \<^bold>\<open>Recursion.\<close> All functions are total. The acquisition loop of \<^verbatim>\<open>sbitReadOut\<close> has fuel, since it ends only when the
  card reports progress; C13 gives the fuel that is enough. The recursion of \<^verbatim>\<open>makeTree\<close> follows the document tree,
  its generate loop a counter; a packet's loop the length of the request.

  \<^bold>\<open>Parameters.\<close> The RPC library, the modules on the card, the kernel (mappings, semaphores, sockets, files), the device
  behind a mapping, the XML and database libraries and the iteration order of unordered maps are arguments of the definitions. Where a
  property needs a law of one of them it is a hypothesis with a witness. The C library's conversion of numbers in
  base 2 is the one without a prefix \<^verbatim>\<open>0b\<close>; no property depends on it.

  \<^bold>\<open>Not modelled.\<close> Text on the standard output and logging (the message accesses made to print are modelled, since they
  can throw); the sockets and files a process closes; the empty \<^verbatim>\<open>Node::output\<close> and \<^verbatim>\<open>Node::getAllChildren\<close>, which
  has no effect; the interface \<^verbatim>\<open>CTP7.hh\<close>, which no file implements; the vendored libraries xerces-c, log4cplus
  and LMDB, and of the C++ header of LMDB what the programs do not call; the Python scripts.
\<close>

section \<open>From the address table to the registers\<close>

lemma field_get_all: "field_get 0xFFFFFFFF w = w"
proof -
  have m: "(0xFFFFFFFF :: u32) = mask 32" by (simp add: mask_eq_exp_minus_1)
  have "w AND mask 32 = w"
    by (rule bit_word_eqI) (auto simp: bit_and_iff bit_mask_iff dest: bit_imp_le_length)
  moreover have "shift_amount 32 (mask 32) = 0" unfolding m [symmetric] by code_simp
  ultimately show ?thesis unfolding m by (simp only: field_get_def drop_bit_0 id_apply)
qed

text \<open>
  C10: after \<^verbatim>\<open>init\<close> with an address table that has a register repeated with a step, reading a copy of it by its
  name returns the content of the card's register at the template's address plus the index times the step,
  scaled to bytes from the base of the card's address space.
\<close>

theorem init_readReg:
  fixes s :: "('m, 's, 'y) xhal_state_scheme"
  assumes "register_service L regs up" and "RPCSvc_connect L (svc s) host = (None, w)" and "up w"
    and "\<And>vs. mset (iter vs) = mset vs" and "n < 2 ^ 31" and "v \<noteq> []" and "base \<noteq> []"
    and "CHR ''$'' \<notin> set (base @ ''.'' @ pre)" and "CHR ''$'' \<notin> set post" and "k < n"
  shows "\<exists>t u. xhal_init L iter (table_of base (repeated_attrs pre v post n st a)) host s = Next t \<and>
    readReg L (copy_name base pre post k) t = Return (regs w (push_bit 2 (st * of_nat k + a) + 0x64000000)) u"
proof -
  obtain nodes where nodes: "parseXML iter (table_of base (repeated_attrs pre v post n st a)) Map.empty = Ok nodes"
      "getNode nodes (copy_name base pre post k) = Some (copy_node (copy_name base pre post k) (st * of_nat k + a))"
    using parse_repeated [OF assms(4-10)] by blast
  then obtain t where t: "xhal_init L iter (table_of base (repeated_attrs pre v post n st a)) host s = Next t"
      "svc t = w" "m_nodes t = nodes"
    using assms(2) by (auto simp: xhal_init_def connect_def stmt_simps)
  with register_service.readReg_reads [OF assms(1), of t] assms(3) nodes(2) show ?thesis
    by (fastforce simp: copy_node_def empty_node_def field_get_all)
qed

theorem init_readReg_witness:
  "\<exists>t u. xhal_init ref_lib (\<lambda>vs. vs) (table_of ''GEM'' (repeated_attrs ''OH'' ''I'' ''.CTRL'' 12 0x100 4)) ''card'' byte_state = Next t \<and>
    readReg ref_lib (copy_name ''GEM'' ''OH'' ''.CTRL'' 2) t = Return 0xABCD u"
  using init_readReg [OF ref_card.register_service_axioms, where s = byte_state and iter = "\<lambda>vs. vs" and n = 12 and v = "''I''"
      and base = "''GEM''" and pre = "''OH''" and post = "''.CTRL''" and k = 2 and st = "0x100" and a = 4 and host = "''card''"
      and w = "svc byte_state"]
  by (simp add: byte_state_def ref_lib_def)

end
